(* ===== verification/Prelude.thy ===== *)
theory Prelude
  imports Main "HOL-Library.Word" "HOL-Library.Sublist"
begin

text \<open>
  Shared vocabulary of the development: the error values of the Rust code, the state-and-error
  functions every effectful operation is written with, and the lemmas the component theories use
  to take them apart.

  \<^item> \<open>anyhow::Error\<close> is a chain of messages, the outermost context first: \<open>Err\<close>. A Rust panic
    (\<open>unwrap\<close>, slice out of range) is \<open>Panic\<close>, the death of the calling task by a signal from the
    kernel is \<open>Killed\<close>, and \<open>NoFuel\<close> marks a loop of the model that was given too few rounds.
  \<^item> \<open>?\<close> is \<open>io_bind\<close>, \<open>.context\<close> and \<open>.with_context\<close> are \<open>with_ctx\<close> and \<open>io_ctx\<close>, a
    \<open>match\<close> on a \<open>Result\<close> is \<open>io_attempt\<close> (it sees \<open>Err\<close> only: nothing of the program catches a
    panic), and a \<open>for\<close> loop whose body may return early is \<open>io_each\<close> or \<open>io_collect\<close>.
\<close>

named_theorems io_simps "equations that evaluate state-and-error functions"
named_theorems emits_intros "closure of \<open>emits\<close> under the program constructs"

section \<open>Errors and results\<close>

datatype error = Err "string list" | Panic string | Killed | NoFuel

type_synonym 'a result = "error + 'a"

definition bail :: "string \<Rightarrow> 'a result" where
  "bail m = Inl (Err [m])"

fun with_ctx :: "string \<Rightarrow> 'a result \<Rightarrow> 'a result" where
  "with_ctx c (Inl (Err ms)) = Inl (Err (c # ms))"
| "with_ctx c r = r"

text \<open>\<open>Option::context\<close>.\<close>

fun opt_ctx :: "string \<Rightarrow> 'a option \<Rightarrow> 'a result" where
  "opt_ctx c None = bail c"
| "opt_ctx c (Some x) = Inr x"

fun res_bind :: "'a result \<Rightarrow> ('a \<Rightarrow> 'b result) \<Rightarrow> 'b result" where
  "res_bind (Inl e) f = Inl e"
| "res_bind (Inr x) f = f x"

fun is_ok :: "'a result \<Rightarrow> bool" where
  "is_ok (Inr _) = True"
| "is_ok (Inl _) = False"

text \<open>The rendering \<open>{err:#}\<close> of an error: the whole chain, joined by a colon and a space.\<close>

fun join :: "string \<Rightarrow> string list \<Rightarrow> string" where
  "join sep [] = []"
| "join sep [x] = x"
| "join sep (x # y # zs) = x @ sep @ join sep (y # zs)"

definition render :: "string list \<Rightarrow> string" where
  "render ms = join '': '' ms"

lemma with_ctx_Inr [simp]: "with_ctx c r = Inr x \<longleftrightarrow> r = Inr x"
  by (cases "(c, r)" rule: with_ctx.cases) auto

lemma is_ok_with_ctx [simp]: "is_ok (with_ctx c r) = is_ok r"
  by (cases "(c, r)" rule: with_ctx.cases) auto

lemma is_ok_iff: "is_ok r \<longleftrightarrow> (\<exists>x. r = Inr x)"
  by (cases r) auto

lemma opt_ctx_Inr [simp]: "opt_ctx c r = Inr x \<longleftrightarrow> r = Some x"
  by (cases r) (auto simp: bail_def)

lemma bail_not_ok [simp]: "bail m \<noteq> Inr x" "is_ok (bail m) = False" "Inr x \<noteq> bail m"
  by (auto simp: bail_def)

lemma res_bind_Inr [simp]: "res_bind r f = Inr y \<longleftrightarrow> (\<exists>x. r = Inr x \<and> f x = Inr y)"
  by (cases r) auto

section \<open>State-and-error functions\<close>

type_synonym ('s, 'a) io = "'s \<Rightarrow> 'a result \<times> 's"

definition io_return :: "'a \<Rightarrow> ('s, 'a) io" where
  "io_return x = (\<lambda>s. (Inr x, s))"

definition io_lift :: "'a result \<Rightarrow> ('s, 'a) io" where
  "io_lift r = (\<lambda>s. (r, s))"

definition io_bail :: "string \<Rightarrow> ('s, 'a) io" where
  "io_bail m = io_lift (bail m)"

definition io_bind :: "('s, 'a) io \<Rightarrow> ('a \<Rightarrow> ('s, 'b) io) \<Rightarrow> ('s, 'b) io" where
  "io_bind m f = (\<lambda>s. case m s of (Inl e, s') \<Rightarrow> (Inl e, s') | (Inr x, s') \<Rightarrow> f x s')"

definition io_seq :: "('s, 'a) io \<Rightarrow> ('s, 'b) io \<Rightarrow> ('s, 'b) io" where
  "io_seq m n = io_bind m (\<lambda>_. n)"

definition io_ctx :: "string \<Rightarrow> ('s, 'a) io \<Rightarrow> ('s, 'a) io" where
  "io_ctx c m = (\<lambda>s. case m s of (r, s') \<Rightarrow> (with_ctx c r, s'))"

text \<open>A result looked at by \<open>match\<close>, \<open>if let\<close> or \<open>let _ =\<close>: the chain of an \<open>Err\<close>, or the value.\<close>

definition io_attempt :: "('s, 'a) io \<Rightarrow> ('s, string list + 'a) io" where
  "io_attempt m = (\<lambda>s. case m s of
       (Inr x, s') \<Rightarrow> (Inr (Inr x), s')
     | (Inl (Err ms), s') \<Rightarrow> (Inr (Inl ms), s')
     | (Inl e, s') \<Rightarrow> (Inl e, s'))"

definition io_when :: "bool \<Rightarrow> ('s, unit) io \<Rightarrow> ('s, unit) io" where
  "io_when b m = (if b then m else io_return ())"

fun io_each :: "('a \<Rightarrow> ('s, unit) io) \<Rightarrow> 'a list \<Rightarrow> ('s, unit) io" where
  "io_each f [] = io_return ()"
| "io_each f (x # xs) = io_seq (f x) (io_each f xs)"

fun io_collect :: "('a \<Rightarrow> ('s, 'b) io) \<Rightarrow> 'a list \<Rightarrow> ('s, 'b list) io" where
  "io_collect f [] = io_return []"
| "io_collect f (x # xs) = io_bind (f x) (\<lambda>y. io_bind (io_collect f xs) (\<lambda>ys. io_return (y # ys)))"

lemma io_return_eq [simp]: "io_return x s = (r, s') \<longleftrightarrow> r = Inr x \<and> s' = s"
  by (auto simp: io_return_def)

lemma io_lift_eq [simp]: "io_lift r s = (r', s') \<longleftrightarrow> r = r' \<and> s' = s"
  by (auto simp: io_lift_def)

lemma io_bail_eq [simp]: "io_bail m s = (r, s') \<longleftrightarrow> r = bail m \<and> s' = s"
  by (auto simp: io_bail_def)

lemma io_bind_ok:
  "io_bind m f s = (Inr y, s') \<longleftrightarrow> (\<exists>x s1. m s = (Inr x, s1) \<and> f x s1 = (Inr y, s'))"
  by (auto simp: io_bind_def split: prod.splits sum.splits)

lemma io_bind_cases:
  "io_bind m f s = (r, s') \<longleftrightarrow>
     (\<exists>e. m s = (Inl e, s') \<and> r = Inl e) \<or> (\<exists>x s1. m s = (Inr x, s1) \<and> f x s1 = (r, s'))"
  by (auto simp: io_bind_def split: prod.splits sum.splits)

lemma io_seq_ok:
  "io_seq m n s = (Inr y, s') \<longleftrightarrow> (\<exists>x s1. m s = (Inr x, s1) \<and> n s1 = (Inr y, s'))"
  by (simp add: io_seq_def io_bind_ok)

lemma io_seq_cases:
  "io_seq m n s = (r, s') \<longleftrightarrow>
     (\<exists>e. m s = (Inl e, s') \<and> r = Inl e) \<or> (\<exists>x s1. m s = (Inr x, s1) \<and> n s1 = (r, s'))"
  by (simp add: io_seq_def io_bind_cases)

lemma io_ctx_ok [simp]: "io_ctx c m s = (Inr y, s') \<longleftrightarrow> m s = (Inr y, s')"
  by (auto simp: io_ctx_def split: prod.splits)

lemma io_ctx_cases: "io_ctx c m s = (r, s') \<longleftrightarrow> (\<exists>r0. m s = (r0, s') \<and> r = with_ctx c r0)"
  by (auto simp: io_ctx_def split: prod.splits)

lemma io_attempt_ok:
  "io_attempt m s = (Inr y, s') \<longleftrightarrow>
     (\<exists>x. y = Inr x \<and> m s = (Inr x, s')) \<or> (\<exists>ms. y = Inl ms \<and> m s = (Inl (Err ms), s'))"
  by (auto simp: io_attempt_def split: prod.splits sum.splits error.splits)

lemma io_attempt_err:
  "io_attempt m s = (Inl e, s') \<longleftrightarrow> m s = (Inl e, s') \<and> (\<forall>ms. e \<noteq> Err ms)"
  by (auto simp: io_attempt_def split: prod.splits sum.splits error.splits)

lemma io_bind_assoc: "io_bind (io_bind m f) g = io_bind m (\<lambda>x. io_bind (f x) g)"
  by (rule ext) (auto simp: io_bind_def split: prod.splits sum.splits)

lemma io_bind_return [simp]: "io_bind (io_return x) f = f x"
  by (rule ext) (simp add: io_bind_def io_return_def)

lemma io_seq_return [simp]: "io_seq (io_return x) m = m"
  by (simp add: io_seq_def)

lemma io_each_append: "io_each f (xs @ ys) = io_seq (io_each f xs) (io_each f ys)"
  by (induction xs) (simp_all add: io_seq_def io_bind_assoc)

lemma io_collect_length: "io_collect f xs s = (Inr ys, s') \<Longrightarrow> length ys = length xs"
  by (induction xs arbitrary: s ys s') (auto simp: io_bind_ok)

declare io_return_def [io_simps] io_lift_def [io_simps] io_bail_def [io_simps] io_bind_def [io_simps]
  io_seq_def [io_simps] io_ctx_def [io_simps] io_attempt_def [io_simps] io_when_def [io_simps]

section \<open>Histories\<close>

text \<open>
  The outside world of a task is seen through the list of the calls it made so far, each with its
  reply. \<open>emits P m\<close> says that \<open>m\<close> never forgets a call and that every entry it adds satisfies
  \<open>P\<close>; \<open>must ks m\<close> says that a successful run of \<open>m\<close> adds entries matching \<open>ks\<close>, in this order.
  Both are closed under every construct above, so a program is taken apart by its syntax.
\<close>

definition emits :: "('h \<Rightarrow> bool) \<Rightarrow> ('h list, 'a) io \<Rightarrow> bool" where
  "emits P m \<longleftrightarrow> (\<forall>h r h'. m h = (r, h') \<longrightarrow> (\<exists>t. h' = h @ t \<and> (\<forall>e \<in> set t. P e)))"

lemma emitsI: "(\<And>h r h'. m h = (r, h') \<Longrightarrow> \<exists>t. h' = h @ t \<and> (\<forall>e \<in> set t. P e)) \<Longrightarrow> emits P m"
  unfolding emits_def by blast

lemma emitsD: "emits P m \<Longrightarrow> m h = (r, h') \<Longrightarrow> \<exists>t. h' = h @ t \<and> (\<forall>e \<in> set t. P e)"
  unfolding emits_def by blast

lemma emits_mono: "emits P m \<Longrightarrow> (\<And>e. P e \<Longrightarrow> Q e) \<Longrightarrow> emits Q m"
  unfolding emits_def by meson

lemma emits_return [emits_intros]: "emits P (io_return x)"
  by (auto simp: emits_def)

lemma emits_lift [emits_intros]: "emits P (io_lift r)" and emits_bail [emits_intros]: "emits P (io_bail m)"
  by (auto simp: emits_def)

lemma emits_bind [emits_intros]: "emits P m \<Longrightarrow> (\<And>x. emits P (f x)) \<Longrightarrow> emits P (io_bind m f)"
proof (rule emitsI)
  fix h r h'
  assume m: "emits P m" and f: "\<And>x. emits P (f x)" and run: "io_bind m f h = (r, h')"
  from run consider e where "m h = (Inl e, h')" | x h1 where "m h = (Inr x, h1)" "f x h1 = (r, h')"
    by (auto simp: io_bind_cases)
  then show "\<exists>t. h' = h @ t \<and> (\<forall>e \<in> set t. P e)"
  proof cases
    case 1
    then show ?thesis using emitsD [OF m] by blast
  next
    case 2
    obtain t1 where "h1 = h @ t1" "\<forall>e \<in> set t1. P e" using emitsD [OF m 2(1)] by blast
    moreover obtain t2 where "h' = h1 @ t2" "\<forall>e \<in> set t2. P e" using emitsD [OF f 2(2)] by blast
    ultimately show ?thesis by auto
  qed
qed

lemma emits_seq [emits_intros]: "emits P m \<Longrightarrow> emits P n \<Longrightarrow> emits P (io_seq m n)"
  by (simp add: io_seq_def emits_bind)

lemma emits_ctx [emits_intros]: "emits P m \<Longrightarrow> emits P (io_ctx c m)"
  by (auto simp: emits_def io_ctx_cases)

lemma emits_attempt [emits_intros]: "emits P m \<Longrightarrow> emits P (io_attempt m)"
proof (rule emitsI)
  fix h r h'
  assume "emits P m" and run: "io_attempt m h = (r, h')"
  from run have "m h = (fst (m h), h')"
    by (auto simp: io_attempt_def split: prod.splits sum.splits error.splits)
  with \<open>emits P m\<close> show "\<exists>t. h' = h @ t \<and> (\<forall>e \<in> set t. P e)" by (rule emitsD)
qed

lemma emits_when [emits_intros]: "(b \<Longrightarrow> emits P m) \<Longrightarrow> emits P (io_when b m)"
  by (simp add: io_when_def emits_return)

lemma emits_if [emits_intros]: "(b \<Longrightarrow> emits P m) \<Longrightarrow> (\<not> b \<Longrightarrow> emits P n) \<Longrightarrow> emits P (if b then m else n)"
  by simp

lemma emits_case_option [emits_intros]:
  "emits P m \<Longrightarrow> (\<And>x. emits P (f x)) \<Longrightarrow> emits P (case v of None \<Rightarrow> m | Some x \<Rightarrow> f x)"
  by (cases v) auto

lemma emits_case_sum [emits_intros]:
  "(\<And>x. emits P (f x)) \<Longrightarrow> (\<And>x. emits P (g x)) \<Longrightarrow> emits P (case v of Inl x \<Rightarrow> f x | Inr x \<Rightarrow> g x)"
  by (cases v) auto

lemma emits_each [emits_intros]: "(\<And>x. emits P (f x)) \<Longrightarrow> emits P (io_each f xs)"
  by (induction xs) (auto intro: emits_intros)

lemma emits_collect [emits_intros]: "(\<And>x. emits P (f x)) \<Longrightarrow> emits P (io_collect f xs)"
  by (induction xs) (auto intro!: emits_intros)

lemma emits_grows: "emits P m \<Longrightarrow> m h = (r, h') \<Longrightarrow> \<exists>t. h' = h @ t"
  using emitsD by blast

text \<open>A call that only the second part can make is made only after the first part succeeded.\<close>

lemma bind_reach:
  assumes "io_bind m f h = (r, h @ t)" "emits (\<lambda>e. \<not> Q e) m" "e \<in> set t" "Q e" "\<And>x. emits P (f x)"
  shows "\<exists>x t1 t2. m h = (Inr x, h @ t1) \<and> f x (h @ t1) = (r, (h @ t1) @ t2) \<and> t = t1 @ t2 \<and>
     e \<in> set t2"
proof -
  from assms(1) consider err where "m h = (Inl err, h @ t)"
    | x h1 where "m h = (Inr x, h1)" "f x h1 = (r, h @ t)"
    by (auto simp: io_bind_cases)
  then show ?thesis
  proof cases
    case 1
    then show ?thesis using emitsD [OF assms(2)] assms(3,4) by fastforce
  next
    case 2
    obtain t1 where t1: "h1 = h @ t1" "\<forall>e \<in> set t1. \<not> Q e" using emitsD [OF assms(2) 2(1)] by auto
    obtain t2 where "h @ t = h1 @ t2" using emitsD [OF assms(5) 2(2)] by auto
    with 2 t1 assms(3,4) show ?thesis by auto
  qed
qed

lemma seq_reach:
  assumes "io_seq m n h = (r, h @ t)" "emits (\<lambda>e. \<not> Q e) m" "e \<in> set t" "Q e" "emits P n"
  shows "\<exists>x t1 t2. m h = (Inr x, h @ t1) \<and> n (h @ t1) = (r, (h @ t1) @ t2) \<and> t = t1 @ t2 \<and>
     e \<in> set t2"
  using bind_reach [of m "\<lambda>_. n" h r t Q e P] assms by (simp add: io_seq_def)

lemma io_each_ok:
  assumes "io_each f xs h = (Inr (), h')" "\<And>x. emits P (f x)"
  shows "\<exists>t. h' = h @ t \<and> (\<forall>e \<in> set t. P e) \<and>
    (\<forall>x \<in> set xs. \<exists>h1 t1. f x h1 = (Inr (), h1 @ t1) \<and> set t1 \<subseteq> set t)"
  using assms(1)
proof (induction xs arbitrary: h)
  case (Cons x xs)
  then obtain h1 where f: "f x h = (Inr (), h1)" and fs: "io_each f xs h1 = (Inr (), h')"
    by (auto simp: io_seq_ok)
  obtain t1 where t1: "h1 = h @ t1" "\<forall>e \<in> set t1. P e" using emitsD [OF assms(2) f] by blast
  from Cons.IH [OF fs] obtain t2 where t2: "h' = h1 @ t2" "\<forall>e \<in> set t2. P e"
    "\<forall>y \<in> set xs. \<exists>h1 t1. f y h1 = (Inr (), h1 @ t1) \<and> set t1 \<subseteq> set t2" by blast
  have "h' = h @ (t1 @ t2)" using t1 t2 by simp
  moreover have "f x h = (Inr (), h @ t1)" using f t1 by simp
  ultimately show ?case
    using t1 t2 by (intro exI [of _ "t1 @ t2"]) (auto, blast)
qed simp

subsection \<open>What a successful run has done\<close>

fun has_in_order :: "('h \<Rightarrow> bool) list \<Rightarrow> 'h list \<Rightarrow> bool" where
  "has_in_order [] t = True"
| "has_in_order (k # ks) [] = False"
| "has_in_order (k # ks) (e # t) = (if k e then has_in_order ks t else has_in_order (k # ks) t)"

definition must :: "('h \<Rightarrow> bool) list \<Rightarrow> ('h list, 'a) io \<Rightarrow> bool" where
  "must ks m \<longleftrightarrow> (\<forall>h x h'. m h = (Inr x, h') \<longrightarrow> (\<exists>t. h' = h @ t \<and> has_in_order ks t))"

lemma has_in_order_weaken: "has_in_order (k # ks) t \<Longrightarrow> has_in_order ks t"
proof (induction t arbitrary: k ks)
  case (Cons e t)
  show ?case
  proof (cases ks)
    case (Cons l ls)
    with Cons.prems Cons.IH [of k "l # ls"] Cons.IH [of l ls] show ?thesis by (auto split: if_splits)
  qed simp
qed simp

lemma has_in_order_before: "has_in_order ks t \<Longrightarrow> has_in_order ks (e # t)"
  by (cases ks) (auto dest: has_in_order_weaken)

lemma has_in_order_prepend: "has_in_order ks t \<Longrightarrow> has_in_order ks (u @ t)"
  by (induction u) (auto intro: has_in_order_before)

lemma has_in_order_append: "has_in_order ks t \<Longrightarrow> has_in_order ls u \<Longrightarrow> has_in_order (ks @ ls) (t @ u)"
  by (induction ks t rule: has_in_order.induct) (auto intro: has_in_order_before has_in_order_prepend)

lemma has_in_order_Cons:
  "has_in_order (k # ks) t \<longleftrightarrow> (\<exists>u e v. t = u @ e # v \<and> k e \<and> has_in_order ks v)"
proof
  assume "has_in_order (k # ks) t"
  then show "\<exists>u e v. t = u @ e # v \<and> k e \<and> has_in_order ks v"
  proof (induction t)
    case (Cons e t)
    show ?case
    proof (cases "k e")
      case True
      with Cons.prems show ?thesis by (intro exI [of _ "[]"]) auto
    next
      case False
      with Cons obtain u e' v where "t = u @ e' # v \<and> k e' \<and> has_in_order ks v" by auto
      then show ?thesis by (intro exI [of _ "e # u"]) auto
    qed
  qed simp
next
  assume "\<exists>u e v. t = u @ e # v \<and> k e \<and> has_in_order ks v"
  then show "has_in_order (k # ks) t"
    by (auto intro: has_in_order_prepend)
qed

lemma has_in_order_more: "has_in_order ks t \<Longrightarrow> has_in_order ks (u @ t @ v)"
  using has_in_order_append [of "[]" u "ks @ []" "t @ v"] has_in_order_append [of ks t "[]" v] by simp

lemma mustD: "must ks m \<Longrightarrow> m h = (Inr x, h') \<Longrightarrow> \<exists>t. h' = h @ t \<and> has_in_order ks t"
  by (auto simp: must_def)

lemma must_emits: "emits P m \<Longrightarrow> must [] m"
  by (fastforce simp: must_def emits_def)

lemma must_bind: "must ks m \<Longrightarrow> (\<And>x. must ls (f x)) \<Longrightarrow> must (ks @ ls) (io_bind m f)"
  unfolding must_def io_bind_ok by (metis append.assoc has_in_order_append)

lemma must_seq: "must ks m \<Longrightarrow> must ls n \<Longrightarrow> must (ks @ ls) (io_seq m n)"
  by (simp add: io_seq_def must_bind)

lemma must_ctx: "must ks m \<Longrightarrow> must ks (io_ctx c m)"
  by (simp add: must_def)

lemma must_when: "must ks m \<Longrightarrow> must (if b then ks else []) (io_when b m)"
  by (auto simp: must_def io_when_def)

lemma has_in_order_mem: "has_in_order ks t \<Longrightarrow> k \<in> set ks \<Longrightarrow> \<exists>e \<in> set t. k e"
  by (induction ks t rule: has_in_order.induct) (auto split: if_splits)

lemma must_one: "must ks m \<Longrightarrow> k \<in> set ks \<Longrightarrow> must [k] m"
  unfolding must_def using has_in_order_mem
  by (metis (full_types) has_in_order.simps(1) has_in_order_Cons in_set_conv_decomp)

subsection \<open>What has to come before\<close>

text \<open>
  \<open>guarded k q t\<close>: every \<open>q\<close> entry of \<open>t\<close> has a \<open>k\<close> entry before it. \<open>guards k q m\<close> says so of every
  run of \<open>m\<close>, whatever its result.
\<close>

fun guarded :: "('h \<Rightarrow> bool) \<Rightarrow> ('h \<Rightarrow> bool) \<Rightarrow> 'h list \<Rightarrow> bool" where
  "guarded k q [] = True"
| "guarded k q (e # t) = (\<not> q e \<and> (k e \<or> guarded k q t))"

definition guards :: "('h \<Rightarrow> bool) \<Rightarrow> ('h \<Rightarrow> bool) \<Rightarrow> ('h list, 'a) io \<Rightarrow> bool" where
  "guards k q m \<longleftrightarrow> (\<forall>h r h'. m h = (r, h') \<longrightarrow> (\<exists>t. h' = h @ t \<and> guarded k q t))"

lemma guarded_iff:
  "guarded k q t \<longleftrightarrow> (\<forall>u e v. t = u @ e # v \<longrightarrow> q e \<longrightarrow> (\<exists>d \<in> set u. k d))"
proof (induction t)
  case (Cons x t)
  show ?case
  proof
    assume g: "guarded k q (x # t)"
    show "\<forall>u e v. x # t = u @ e # v \<longrightarrow> q e \<longrightarrow> (\<exists>d \<in> set u. k d)"
    proof (intro allI impI)
      fix u e v assume "x # t = u @ e # v" "q e"
      with g Cons.IH show "\<exists>d \<in> set u. k d" by (cases u) auto
    qed
  next
    assume r: "\<forall>u e v. x # t = u @ e # v \<longrightarrow> q e \<longrightarrow> (\<exists>d \<in> set u. k d)"
    have "\<not> q x" using r [rule_format, of "[]" x t] by auto
    moreover have "guarded k q t" if "\<not> k x"
      unfolding Cons.IH using r [rule_format, of "x # u" for u] that by fastforce
    ultimately show "guarded k q (x # t)" by auto
  qed
qed simp

lemma guarded_never: "\<forall>e \<in> set t. \<not> q e \<Longrightarrow> guarded k q t"
  by (induction t) auto

lemma guarded_append: "guarded k q (s @ t) \<longleftrightarrow> guarded k q s \<and> ((\<exists>e \<in> set s. k e) \<or> guarded k q t)"
  by (induction s) auto

lemma guardsD: "guards k q m \<Longrightarrow> m h = (r, h') \<Longrightarrow> \<exists>t. h' = h @ t \<and> guarded k q t"
  unfolding guards_def by blast

lemma guardsI: "(\<And>h r h'. m h = (r, h') \<Longrightarrow> \<exists>t. h' = h @ t \<and> guarded k q t) \<Longrightarrow> guards k q m"
  unfolding guards_def by blast

lemma guards_emits: "guards k q m \<Longrightarrow> emits (\<lambda>_. True) m"
  unfolding guards_def emits_def by blast

lemma guards_never: "emits (\<lambda>e. \<not> q e) m \<Longrightarrow> guards k q m"
  unfolding guards_def emits_def using guarded_never by metis

lemma guards_bind_skip: "emits (\<lambda>e. \<not> q e) m \<Longrightarrow> (\<And>x. guards k q (f x)) \<Longrightarrow> guards k q (io_bind m f)"
proof (rule guardsI)
  fix h r h'
  assume m: "emits (\<lambda>e. \<not> q e) m" and f: "\<And>x. guards k q (f x)" and "io_bind m f h = (r, h')"
  then consider e where "m h = (Inl e, h')" | x h1 where "m h = (Inr x, h1)" "f x h1 = (r, h')"
    by (auto simp: io_bind_cases)
  then show "\<exists>t. h' = h @ t \<and> guarded k q t"
  proof cases
    case 1
    then show ?thesis using guardsD [OF guards_never [OF m]] by blast
  next
    case 2
    obtain t1 where "h1 = h @ t1" "guarded k q t1" using guardsD [OF guards_never [OF m] 2(1)] by blast
    moreover obtain t2 where "h' = h1 @ t2" "guarded k q t2" using guardsD [OF f 2(2)] by blast
    ultimately show ?thesis by (auto simp: guarded_append)
  qed
qed

lemma guards_bind_first:
  "emits (\<lambda>e. \<not> q e) m \<Longrightarrow> must [k] m \<Longrightarrow> (\<And>x. emits P (f x)) \<Longrightarrow> guards k q (io_bind m f)"
proof (rule guardsI)
  fix h r h'
  assume m: "emits (\<lambda>e. \<not> q e) m" "must [k] m" and f: "\<And>x. emits P (f x)" and "io_bind m f h = (r, h')"
  then consider e where "m h = (Inl e, h')" | x h1 where "m h = (Inr x, h1)" "f x h1 = (r, h')"
    by (auto simp: io_bind_cases)
  then show "\<exists>t. h' = h @ t \<and> guarded k q t"
  proof cases
    case 1
    then show ?thesis using guardsD [OF guards_never [OF m(1)]] by blast
  next
    case 2
    obtain t1 where "h1 = h @ t1" "guarded k q t1" using guardsD [OF guards_never [OF m(1)] 2(1)] by blast
    moreover have "\<exists>e \<in> set t1. k e"
      using mustD [OF m(2) 2(1)] \<open>h1 = h @ t1\<close> by (auto simp: has_in_order_Cons)
    moreover obtain t2 where "h' = h1 @ t2" using emitsD [OF f 2(2)] by blast
    ultimately show ?thesis by (auto simp: guarded_append)
  qed
qed

lemma guards_seq_skip: "emits (\<lambda>e. \<not> q e) m \<Longrightarrow> guards k q n \<Longrightarrow> guards k q (io_seq m n)"
  by (simp add: io_seq_def guards_bind_skip)

lemma guards_seq_first: "emits (\<lambda>e. \<not> q e) m \<Longrightarrow> must [k] m \<Longrightarrow> emits P n \<Longrightarrow> guards k q (io_seq m n)"
  unfolding io_seq_def by (rule guards_bind_first)

lemma guards_ctx: "guards k q m \<Longrightarrow> guards k q (io_ctx c m)"
  unfolding guards_def io_ctx_cases by blast

text \<open>
  \<open>requires Q R m\<close>: whenever a run of \<open>m\<close> adds a \<open>Q\<close> entry \<open>e\<close>, the entries it added before satisfy
  \<open>R e\<close>. It generalises \<open>guards\<close> to conditions on the whole history before \<open>e\<close>.
\<close>

definition requires :: "('h \<Rightarrow> bool) \<Rightarrow> ('h \<Rightarrow> 'h list \<Rightarrow> bool) \<Rightarrow> ('h list, 'a) io \<Rightarrow> bool" where
  "requires Q R m \<longleftrightarrow> (\<forall>h r u e v. m h = (r, h @ u @ e # v) \<longrightarrow> Q e \<longrightarrow> R e u)"

lemma requiresD: "requires Q R m \<Longrightarrow> m h = (r, h @ u @ e # v) \<Longrightarrow> Q e \<Longrightarrow> R e u"
  unfolding requires_def by blast

lemma requires_never: "emits (\<lambda>e. \<not> Q e) m \<Longrightarrow> requires Q R m"
  unfolding requires_def using emitsD by fastforce

lemma requires_mono: "requires Q R m \<Longrightarrow> (\<And>e u. R e u \<Longrightarrow> S e u) \<Longrightarrow> requires Q S m"
  unfolding requires_def by blast

lemma requires_bind:
  assumes m: "emits (\<lambda>e. \<not> Q e) m" and f: "\<And>x. emits P (f x)"
    and s: "\<And>h x t. m h = (Inr x, h @ t) \<Longrightarrow> requires Q (\<lambda>e u. R e (t @ u)) (f x)"
  shows "requires Q R (io_bind m f)"
  unfolding requires_def
proof (intro allI impI)
  fix h r u e v
  assume run: "io_bind m f h = (r, h @ u @ e # v)" and e: "Q e"
  from bind_reach [OF run m _ e f] obtain x t1 t2 where
    1: "m h = (Inr x, h @ t1)" "f x (h @ t1) = (r, (h @ t1) @ t2)" "u @ e # v = t1 @ t2" by auto
  have "\<forall>d \<in> set t1. \<not> Q d" using emitsD [OF m 1(1)] by auto
  with e 1(3) obtain w where w: "u = t1 @ w" "t2 = w @ e # v"
    by (auto simp: append_eq_append_conv2 append_eq_Cons_conv Cons_eq_append_conv)
  with requiresD [OF s [OF 1(1)], of "h @ t1" r w e v] 1(2) e show "R e u" by simp
qed

lemma requires_seq:
  assumes "emits (\<lambda>e. \<not> Q e) m" "emits P n"
    and "\<And>h x t. m h = (Inr x, h @ t) \<Longrightarrow> requires Q (\<lambda>e u. R e (t @ u)) n"
  shows "requires Q R (io_seq m n)"
  using requires_bind [of Q m P "\<lambda>_. n" R] assms by (simp add: io_seq_def)

end
