(* ===== verification/Rust_Str.thy ===== *)
theory Rust_Str
  imports Prelude "HOL-Library.Char_ord"
begin

text \<open>
  The operations of Rust's \<open>str\<close> and of the integer parsers and printers that the program uses.
  A \<open>string\<close> here is the UTF-8 byte sequence of the Rust string, as \<open>str::as_bytes\<close> gives it; a
  literal of the source is written as its bytes. The lemmas are the round trips of printing and
  parsing and the algebra of prefixes, suffixes and separators the components need.
\<close>

type_synonym u8 = "8 word"
type_synonym u32 = "32 word"
type_synonym u64 = "64 word"

section \<open>Whitespace\<close>

text \<open>The UTF-8 encodings of the characters with the Unicode property \<open>White_Space\<close>.\<close>

definition whitespace :: "string list" where
  "whitespace =
     [[CHR 0x09], [CHR 0x0A], [CHR 0x0B], [CHR 0x0C], [CHR 0x0D], [CHR 0x20],
      [CHR 0xC2, CHR 0x85], [CHR 0xC2, CHR 0xA0], [CHR 0xE1, CHR 0x9A, CHR 0x80]] @
     map (\<lambda>c. [CHR 0xE2, CHR 0x80, c])
       [CHR 0x80, CHR 0x81, CHR 0x82, CHR 0x83, CHR 0x84, CHR 0x85, CHR 0x86, CHR 0x87, CHR 0x88,
        CHR 0x89, CHR 0x8A, CHR 0xA8, CHR 0xA9, CHR 0xAF] @
     [[CHR 0xE2, CHR 0x81, CHR 0x9F], [CHR 0xE3, CHR 0x80, CHR 0x80]]"

lemma whitespace_nonempty: "w \<in> set whitespace \<Longrightarrow> w \<noteq> []"
  by (auto simp: whitespace_def)

definition lead_ws :: "string \<Rightarrow> nat" where
  "lead_ws s = (case find (\<lambda>w. prefix w s) whitespace of None \<Rightarrow> 0 | Some w \<Rightarrow> length w)"

definition trail_ws :: "string \<Rightarrow> nat" where
  "trail_ws s = (case find (\<lambda>w. suffix w s) whitespace of None \<Rightarrow> 0 | Some w \<Rightarrow> length w)"

lemma lead_ws_pos: "lead_ws s \<noteq> 0 \<Longrightarrow> s \<noteq> []"
  using whitespace_nonempty
  by (fastforce simp: lead_ws_def find_Some_iff in_set_conv_nth split: option.splits)

lemma trail_ws_pos: "trail_ws s \<noteq> 0 \<Longrightarrow> s \<noteq> []"
  using whitespace_nonempty
  by (fastforce simp: trail_ws_def find_Some_iff in_set_conv_nth split: option.splits)

function trim_start :: "string \<Rightarrow> string" where
  "trim_start s = (if lead_ws s = 0 then s else trim_start (drop (lead_ws s) s))"
  by pat_completeness auto
termination
  by (relation "measure length") (use lead_ws_pos in auto)

function trim_end :: "string \<Rightarrow> string" where
  "trim_end s = (if trail_ws s = 0 then s else trim_end (take (length s - trail_ws s) s))"
  by pat_completeness auto
termination
  by (relation "measure length") (use trail_ws_pos in auto)

declare trim_start.simps [simp del] trim_end.simps [simp del]

definition trim :: "string \<Rightarrow> string" where
  "trim s = trim_end (trim_start s)"

text \<open>A string whose first and last bytes are printable ASCII is left alone by \<open>trim\<close>.\<close>

definition visible :: "char \<Rightarrow> bool" where
  "visible c \<longleftrightarrow> 33 \<le> (of_char c :: nat) \<and> (of_char c :: nat) \<le> 126"

lemma whitespace_ends: "w \<in> set whitespace \<Longrightarrow> \<not> visible (hd w) \<and> \<not> visible (last w)"
  by (auto simp: whitespace_def visible_def)

lemma lead_ws_visible: "visible (hd s) \<Longrightarrow> s \<noteq> [] \<Longrightarrow> lead_ws s = 0"
proof -
  assume v: "visible (hd s)" "s \<noteq> []"
  have "\<not> prefix w s" if "w \<in> set whitespace" for w
    using v whitespace_ends [OF that] whitespace_nonempty [OF that]
    by (cases w) (auto simp: prefix_def)
  then have "find (\<lambda>w. prefix w s) whitespace = None"
    by (simp add: find_None_iff)
  then show ?thesis by (simp add: lead_ws_def)
qed

lemma trail_ws_visible: "visible (last s) \<Longrightarrow> s \<noteq> [] \<Longrightarrow> trail_ws s = 0"
proof -
  assume v: "visible (last s)" "s \<noteq> []"
  have "\<not> suffix w s" if "w \<in> set whitespace" for w
    using v whitespace_ends [OF that] whitespace_nonempty [OF that]
    by (auto simp: suffix_def)
  then have "find (\<lambda>w. suffix w s) whitespace = None"
    by (simp add: find_None_iff)
  then show ?thesis by (simp add: trail_ws_def)
qed

lemma trim_visible [simp]:
  "s \<noteq> [] \<Longrightarrow> visible (hd s) \<Longrightarrow> visible (last s) \<Longrightarrow> trim s = s"
  by (simp add: trim_def trim_start.simps [of s] trim_end.simps [of s] lead_ws_visible trail_ws_visible)

lemma trim_start_Nil [simp]: "trim_start [] = []"
  using lead_ws_pos [of "[]"] by (subst trim_start.simps) auto

lemma trim_end_Nil [simp]: "trim_end [] = []"
  using trail_ws_pos [of "[]"] by (subst trim_end.simps) auto

lemma trim_Nil [simp]: "trim [] = []"
  by (simp add: trim_def)

text \<open>A line without its newline.\<close>

lemma trim_newline:
  assumes "s \<noteq> []" "visible (hd s)" "visible (last s)"
  shows "trim (s @ [CHR 0x0A]) = s"
proof -
  have f: "find (\<lambda>w. suffix w (s @ [CHR 0x0A])) whitespace = Some [CHR 0x0A]"
  proof -
    have "\<not> suffix [CHR 0x09] (s @ [CHR 0x0A])" "suffix [CHR 0x0A] (s @ [CHR 0x0A])"
      by (auto simp: suffix_def)
    then show ?thesis by (simp add: whitespace_def)
  qed
  then have "trail_ws (s @ [CHR 0x0A]) = 1" by (simp add: trail_ws_def)
  then have "trim_end (s @ [CHR 0x0A]) = s"
    using assms by (simp add: trim_end.simps [of "s @ [CHR 0x0A]"] trim_end.simps [of s] trail_ws_visible)
  moreover have "trim_start (s @ [CHR 0x0A]) = s @ [CHR 0x0A]"
    using assms by (simp add: trim_start.simps [of "s @ [CHR 0x0A]"] lead_ws_visible)
  ultimately show ?thesis by (simp add: trim_def)
qed

text \<open>A text in single quotes, as in the messages of the source.\<close>

definition squote :: "string \<Rightarrow> string" where
  "squote s = CHR 0x27 # s @ [CHR 0x27]"

section \<open>Prefixes, suffixes, separators\<close>

definition strip_prefix :: "string \<Rightarrow> string \<Rightarrow> string option" where
  "strip_prefix p s = (if prefix p s then Some (drop (length p) s) else None)"

definition strip_suffix :: "string \<Rightarrow> string \<Rightarrow> string option" where
  "strip_suffix p s = (if suffix p s then Some (take (length s - length p) s) else None)"

definition str_contains :: "string \<Rightarrow> string \<Rightarrow> bool" where
  "str_contains s p \<longleftrightarrow> sublist p s"

lemma strip_prefix_append [simp]: "strip_prefix p (p @ s) = Some s"
  by (simp add: strip_prefix_def)

lemma strip_suffix_append [simp]: "strip_suffix p (s @ p) = Some s"
  by (simp add: strip_suffix_def suffix_def)

lemma strip_prefix_Some: "strip_prefix p s = Some r \<longleftrightarrow> s = p @ r"
  by (auto simp: strip_prefix_def prefix_def)

lemma strip_suffix_Some: "strip_suffix p s = Some r \<longleftrightarrow> s = r @ p"
  by (auto simp: strip_suffix_def suffix_def)

lemma strip_suffix_None: "strip_suffix p s = None \<longleftrightarrow> \<not> suffix p s"
  by (simp add: strip_suffix_def)

lemma suffix_lastD: "suffix p s \<Longrightarrow> p \<noteq> [] \<Longrightarrow> last s = last p"
  by (auto simp: suffix_def)

lemma strip_suffix_other [simp]:
  "p \<noteq> [] \<Longrightarrow> u \<noteq> [] \<Longrightarrow> last p \<noteq> last u \<Longrightarrow> strip_suffix p (r @ u) = None"
  using suffix_lastD [of p "r @ u"] by (auto simp: strip_suffix_None)

lemma strip_suffix_same_length [simp]:
  "length p = length u \<Longrightarrow> p \<noteq> u \<Longrightarrow> strip_suffix p (r @ u) = None"
  by (auto simp: strip_suffix_None suffix_def)

text \<open>\<open>split(c)\<close> for a one-byte separator: always at least one part.\<close>

fun split_on :: "char \<Rightarrow> string \<Rightarrow> string list" where
  "split_on c [] = [[]]"
| "split_on c (x # xs) =
     (if x = c then [] # split_on c xs
      else case split_on c xs of [] \<Rightarrow> [[x]] | p # ps \<Rightarrow> (x # p) # ps)"

text \<open>The position of the first \<open>c\<close> (\<open>find(c)\<close>), as the text before and after it.\<close>

definition split_first :: "char \<Rightarrow> string \<Rightarrow> (string \<times> string) option" where
  "split_first c s =
     (if c \<in> set s then Some (takeWhile (\<lambda>x. x \<noteq> c) s, tl (dropWhile (\<lambda>x. x \<noteq> c) s)) else None)"

text \<open>\<open>splitn(2, c)\<close>.\<close>

definition splitn2 :: "char \<Rightarrow> string \<Rightarrow> string list" where
  "splitn2 c s = (case split_first c s of None \<Rightarrow> [s] | Some (a, b) \<Rightarrow> [a, b])"

lemma split_on_nonempty [simp]: "split_on c s \<noteq> []"
  by (induction s) (auto split: list.splits)

lemma split_on_absent: "c \<notin> set s \<Longrightarrow> split_on c s = [s]"
  by (induction s) auto

lemma split_on_append: "c \<notin> set a \<Longrightarrow> split_on c (a @ c # b) = a # split_on c b"
  by (induction a) auto

lemma split_on_join: "join [c] (split_on c s) = s"
proof (induction s)
  case (Cons x xs)
  then show ?case
    by (cases "split_on c xs"; cases "tl (split_on c xs)") auto
qed simp

lemma split_on_parts: "p \<in> set (split_on c s) \<Longrightarrow> c \<notin> set p"
  by (induction s arbitrary: p) (auto split: if_splits list.splits)

lemma length_split_on: "length (split_on c s) = Suc (count_list s c)"
  by (induction s) (auto split: list.splits)

lemma split_first_Some: "split_first c s = Some (a, b) \<longleftrightarrow> s = a @ c # b \<and> c \<notin> set a"
proof
  assume l: "split_first c s = Some (a, b)"
  then have m: "c \<in> set s" and a: "a = takeWhile (\<lambda>x. x \<noteq> c) s"
    and b: "b = tl (dropWhile (\<lambda>x. x \<noteq> c) s)"
    by (auto simp: split_first_def split: if_splits)
  from m have "dropWhile (\<lambda>x. x \<noteq> c) s \<noteq> []" by (auto simp: dropWhile_eq_Nil_conv)
  then have "dropWhile (\<lambda>x. x \<noteq> c) s = c # b"
    using hd_dropWhile [of "\<lambda>x. x \<noteq> c" s] b by (cases "dropWhile (\<lambda>x. x \<noteq> c) s") auto
  then have "s = a @ c # b" using a by (metis takeWhile_dropWhile_id)
  moreover have "c \<notin> set a" using a by (auto dest: set_takeWhileD)
  ultimately show "s = a @ c # b \<and> c \<notin> set a" ..
next
  assume r: "s = a @ c # b \<and> c \<notin> set a"
  then have "takeWhile (\<lambda>x. x \<noteq> c) s = a" "dropWhile (\<lambda>x. x \<noteq> c) s = c # b"
    by (auto simp: takeWhile_tail dropWhile_append3)
  with r show "split_first c s = Some (a, b)" by (simp add: split_first_def)
qed

lemma split_first_None: "split_first c s = None \<longleftrightarrow> c \<notin> set s"
  by (simp add: split_first_def)

section \<open>ASCII case\<close>

definition ascii_upper :: "char \<Rightarrow> char" where
  "ascii_upper c = (if CHR ''a'' \<le> c \<and> c \<le> CHR ''z'' then char_of (of_char c - (32 :: nat)) else c)"

definition ascii_lower :: "char \<Rightarrow> char" where
  "ascii_lower c = (if CHR ''A'' \<le> c \<and> c \<le> CHR ''Z'' then char_of (of_char c + (32 :: nat)) else c)"

definition to_ascii_uppercase :: "string \<Rightarrow> string" where
  "to_ascii_uppercase s = map ascii_upper s"

definition to_ascii_lowercase :: "string \<Rightarrow> string" where
  "to_ascii_lowercase s = map ascii_lower s"

section \<open>Decimal numbers\<close>

definition digit_char :: "nat \<Rightarrow> char" where
  "digit_char d = char_of (48 + d)"

definition digit_val :: "char \<Rightarrow> nat option" where
  "digit_val c = (if CHR ''0'' \<le> c \<and> c \<le> CHR ''9'' then Some (of_char c - 48) else None)"

fun show_nat :: "nat \<Rightarrow> string" where
  "show_nat n = (if n < 10 then [digit_char n] else show_nat (n div 10) @ [digit_char (n mod 10)])"

declare show_nat.simps [simp del]

definition show_int :: "int \<Rightarrow> string" where
  "show_int i = (if i < 0 then CHR ''-'' # show_nat (nat (- i)) else show_nat (nat i))"

definition show_word :: "'n::len word \<Rightarrow> string" where
  "show_word w = show_nat (unat w)"

text \<open>The format \<open>{:x}\<close>.\<close>

definition hex_char :: "nat \<Rightarrow> char" where
  "hex_char d = (if d < 10 then char_of (48 + d) else char_of (87 + d))"

fun show_hex :: "nat \<Rightarrow> string" where
  "show_hex n = (if n < 16 then [hex_char n] else show_hex (n div 16) @ [hex_char (n mod 16)])"

declare show_hex.simps [simp del]

text \<open>
  \<open>from_str\<close> of an unsigned integer type with the values below \<open>m\<close>: an empty string, a lone
  sign, a byte that is no digit and a value out of range are the three errors, the leftmost
  offending byte deciding.
\<close>

fun parse_digits :: "nat \<Rightarrow> nat \<Rightarrow> string \<Rightarrow> nat result" where
  "parse_digits m acc [] = Inr acc"
| "parse_digits m acc (c # cs) =
     (case digit_val c of
        None \<Rightarrow> bail ''invalid digit found in string''
      | Some d \<Rightarrow>
          if m \<le> acc * 10 + d then bail ''number too large to fit in target type''
          else parse_digits m (acc * 10 + d) cs)"

definition parse_uint :: "nat \<Rightarrow> string \<Rightarrow> nat result" where
  "parse_uint m s =
     (if s = [] then bail ''cannot parse integer from empty string''
      else if s = ''+'' \<or> s = ''-'' then bail ''invalid digit found in string''
      else parse_digits m 0 (if hd s = CHR ''+'' then tl s else s))"

definition parse_u64 :: "string \<Rightarrow> u64 result" where
  "parse_u64 s = res_bind (parse_uint (2 ^ 64) s) (\<lambda>n. Inr (of_nat n))"

lemma digit_char_simps [simp]:
  "digit_char 0 = CHR ''0''" "digit_char 1 = CHR ''1''" "digit_char 2 = CHR ''2''"
  "digit_char 3 = CHR ''3''" "digit_char 4 = CHR ''4''" "digit_char 5 = CHR ''5''"
  "digit_char 6 = CHR ''6''" "digit_char 7 = CHR ''7''" "digit_char 8 = CHR ''8''"
  "digit_char 9 = CHR ''9''" "digit_char (Suc 0) = CHR ''1''"
  by (simp_all add: digit_char_def char_of_def bit_0)

lemma digit_val_char [simp]: "d < 10 \<Longrightarrow> digit_val (digit_char d) = Some d"
  by (simp add: digit_val_def digit_char_def less_eq_char_def)

lemma visible_digit [simp]: "d < 10 \<Longrightarrow> visible (digit_char d)"
  by (simp add: visible_def digit_char_def)

lemma digit_char_neq: "d < 10 \<Longrightarrow> digit_char d \<noteq> CHR ''+'' \<and> digit_char d \<noteq> CHR ''-''"
  using digit_val_char [of d] by (auto simp: digit_val_def less_eq_char_def)

lemma show_nat_nonempty [simp]: "show_nat n \<noteq> []"
  by (subst show_nat.simps) simp

lemma show_nat_digits: "\<forall>c \<in> set (show_nat n). \<exists>d < 10. c = digit_char d"
proof (induction n rule: show_nat.induct)
  case (1 n)
  then show ?case
    by (subst show_nat.simps) (use mod_less_divisor [of 10 n] in \<open>auto intro: exI [of _ "n mod 10"]\<close>)
qed

lemma show_nat_hd: "\<exists>d < 10. hd (show_nat n) = digit_char d"
  using show_nat_digits [of n] hd_in_set [of "show_nat n"] by auto

lemma show_nat_last: "\<exists>d < 10. last (show_nat n) = digit_char d"
  using show_nat_digits [of n] last_in_set [of "show_nat n"] by auto

lemma parse_digits_append:
  "parse_digits m acc (xs @ ys) = res_bind (parse_digits m acc xs) (\<lambda>r. parse_digits m r ys)"
  by (induction xs arbitrary: acc) (auto simp: bail_def split: option.splits)

lemma parse_digits_show: "n < m \<Longrightarrow> parse_digits m 0 (show_nat n) = Inr n"
proof (induction n rule: show_nat.induct)
  case (1 n)
  show ?case
  proof (cases "n < 10")
    case True
    then show ?thesis using "1.prems" by (simp add: show_nat.simps [of n])
  next
    case False
    then have "parse_digits m 0 (show_nat (n div 10)) = Inr (n div 10)"
      using "1.IH" "1.prems" by simp
    moreover have "n div 10 * 10 + n mod 10 = n" by simp
    ultimately show ?thesis
      using False "1.prems" by (simp add: show_nat.simps [of n] parse_digits_append)
  qed
qed

lemma show_nat_unsigned: "hd (show_nat n) \<noteq> CHR ''+''" "hd (show_nat n) \<noteq> CHR ''-''"
  using show_nat_hd [of n] by (metis digit_char_neq)+

lemma parse_uint_show [simp]: "n < m \<Longrightarrow> parse_uint m (show_nat n) = Inr n"
  using show_nat_unsigned [of n] parse_digits_show [of n m]
  by (auto simp del: parse_digits.simps simp: parse_uint_def)

lemma parse_digits_bound: "parse_digits m acc s = Inr n \<Longrightarrow> acc < m \<Longrightarrow> n < m"
  by (induction s arbitrary: acc) (auto split: option.splits if_splits)

lemma parse_uint_bound: "parse_uint m s = Inr n \<Longrightarrow> 0 < m \<Longrightarrow> n < m"
  by (auto simp: parse_uint_def split: if_splits dest: parse_digits_bound)

lemma parse_u64_show [simp]: "n < 2 ^ 64 \<Longrightarrow> parse_u64 (show_nat n) = Inr (of_nat n)"
  by (simp add: parse_u64_def)

lemma parse_u64_word [simp]: "parse_u64 (show_word (w :: u64)) = Inr w"
proof -
  have "unat w < 2 ^ 64" using unsigned_less [of w] by simp
  then show ?thesis by (simp add: show_word_def)
qed

lemma parse_digits_invalid:
  "digit_val c = None \<Longrightarrow> \<not> is_ok (parse_digits m acc (xs @ c # ys))"
  by (induction xs arbitrary: acc) (auto split: option.splits)

lemma parse_uint_invalid:
  assumes "digit_val c = None" "c \<noteq> CHR ''+''"
  shows "\<not> is_ok (parse_uint m (xs @ c # ys))"
proof (cases xs)
  case Nil
  then show ?thesis using assms parse_digits_invalid [of c m 0 "[]" ys]
    by (auto simp: parse_uint_def)
next
  case (Cons x xs')
  then show ?thesis using assms parse_digits_invalid [of c m 0 xs ys] parse_digits_invalid [of c m 0 xs' ys]
    by (auto simp: parse_uint_def)
qed

lemma show_nat_inj [simp]: "show_nat a = show_nat b \<longleftrightarrow> a = b"
proof
  assume eq: "show_nat a = show_nat b"
  have "parse_uint (Suc (max a b)) (show_nat a) = Inr a"
    by (rule parse_uint_show) simp
  moreover have "parse_uint (Suc (max a b)) (show_nat b) = Inr b"
    by (rule parse_uint_show) simp
  ultimately show "a = b" using eq by (metis sum.inject(2))
qed simp

lemma show_nat_no [simp]: "digit_val c = None \<Longrightarrow> c \<notin> set (show_nat n)"
  using show_nat_digits [of n] by fastforce

lemma trim_show_nat [simp]: "trim (show_nat n) = show_nat n" "trim (show_nat n @ [CHR 0x0A]) = show_nat n"
proof -
  have "visible (hd (show_nat n))" "visible (last (show_nat n))"
    using show_nat_hd [of n] show_nat_last [of n] visible_digit by metis+
  then show "trim (show_nat n) = show_nat n" "trim (show_nat n @ [CHR 0x0A]) = show_nat n"
    by (simp_all add: trim_newline)
qed

end
