(* ===== verification/Rust_Path.thy ===== *)
theory Rust_Path
  imports Rust_Str
begin

text \<open>
  The operations of \<open>std::path::Path\<close> the program uses, on the byte string of a path: \<open>join\<close>,
  \<open>parent\<close>, \<open>file_name\<close>, and C strings. Joining an absolute path replaces the base.
\<close>

definition path_join :: "string \<Rightarrow> string \<Rightarrow> string" where
  "path_join a b =
     (if prefix ''/'' b then b
      else if a = [] \<or> last a = CHR ''/'' then a @ b
      else a @ ''/'' @ b)"

text \<open>Trailing separators and trailing \<open>.\<close> components do not count as components.\<close>

function trim_tail :: "string \<Rightarrow> string" where
  "trim_tail p =
     (if 1 < length p \<and> last p = CHR ''/'' then trim_tail (butlast p)
      else if suffix ''/.'' p then trim_tail (butlast p)
      else p)"
  by pat_completeness auto
termination
  by (relation "measure length") (auto dest!: suffix_length_le)

declare trim_tail.simps [simp del]

definition path_parent :: "string \<Rightarrow> string option" where
  "path_parent p =
     (let q = trim_tail p in
      if q = [] \<or> q = ''/'' then None
      else Some (trim_tail (rev (dropWhile (\<lambda>c. c \<noteq> CHR ''/'') (rev q)))))"

text \<open>\<open>CString::new\<close>.\<close>

definition cstring :: "string \<Rightarrow> string result" where
  "cstring s =
     (if CHR 0x00 \<in> set s
      then bail (''nul byte found in provided data at position: '' @
                 show_nat (length (takeWhile (\<lambda>c. c \<noteq> CHR 0x00) s)))
      else Inr s)"

lemma path_join_relative [simp]:
  "a \<noteq> [] \<Longrightarrow> last a \<noteq> CHR ''/'' \<Longrightarrow> \<not> prefix ''/'' b \<Longrightarrow> path_join a b = a @ ''/'' @ b"
  by (simp add: path_join_def)

lemma path_join_absolute: "path_join a (CHR ''/'' # b) = CHR ''/'' # b"
  by (simp add: path_join_def)

lemma cstring_ok [simp]: "cstring s = Inr t \<longleftrightarrow> t = s \<and> CHR 0x00 \<notin> set s"
  by (auto simp: cstring_def)

text \<open>A plain component: not empty, not \<open>.\<close> and without a separator.\<close>

definition plain_component :: "string \<Rightarrow> bool" where
  "plain_component c \<longleftrightarrow> c \<noteq> [] \<and> CHR ''/'' \<notin> set c \<and> c \<noteq> ''.''"

lemma trim_tail_plain:
  assumes "plain_component c"
  shows "trim_tail (d @ CHR ''/'' # c) = d @ CHR ''/'' # c"
proof -
  have "last (d @ CHR ''/'' # c) \<noteq> CHR ''/''"
  proof -
    have "c \<noteq> []" "CHR ''/'' \<notin> set c" using assms by (simp_all add: plain_component_def)
    then have "last c \<noteq> CHR ''/''" using last_in_set [of c] by metis
    with \<open>c \<noteq> []\<close> show ?thesis by simp
  qed
  moreover have "\<not> suffix ''/.'' (d @ CHR ''/'' # c)"
  proof
    assume "suffix ''/.'' (d @ CHR ''/'' # c)"
    then obtain x where x: "d @ CHR ''/'' # c = (x @ ''/'') @ ''.''" by (auto simp: suffix_def)
    show False
    proof (cases c rule: rev_cases)
      case (snoc c0 y)
      with x have "(d @ CHR ''/'' # c0) @ [y] = (x @ ''/'') @ [CHR ''.'']" by simp
      then have "d @ CHR ''/'' # c0 = x @ ''/''" "y = CHR ''.''"
        by (simp_all only: append1_eq_conv)
      with snoc assms show False
        by (cases c0 rule: rev_cases) (auto simp: plain_component_def)
    qed (use assms in \<open>simp add: plain_component_def\<close>)
  qed
  ultimately show ?thesis by (subst trim_tail.simps) auto
qed

end
