(* ===== verification/Events.thy ===== *)
theory Events
  imports Rust_Str "HOL-Library.Finite_Map"
begin

text \<open>
  The lifecycle events of \<open>src/events.rs\<close>: the event record, the two builders and the JSON form the
  serde attributes give it. \<open>Utc::now()\<close> is the clock of the environment: every builder takes the
  time of its call as its last argument. chrono's \<open>DateTime<Utc>\<close> is a type parameter of the record, and
  chrono's printing and parsing of it are parameters of the JSON form and of its reader.

  Lemmas: the wire names of the event types are distinct and readable back; given a clock whose texts
  can be read back, an event is recovered from its JSON form, and that form is well typed.
\<close>

section \<open>JSON values\<close>

text \<open>\<open>serde_json::Value\<close>. An object is a finite map from keys to values; a decimal fraction is
  its digits and the number of them after the point.\<close>

datatype json =
    JNull
  | JBool bool
  | JInt int
  | JDec int nat
  | JStr string
  | JArr "json list"
  | JObj "(string, json) fmap"

fun json_get :: "string \<Rightarrow> json \<Rightarrow> json option" where
  "json_get k (JObj m) = fmlookup m k"
| "json_get k _ = None"

fun json_as_str :: "json \<Rightarrow> string option" where
  "json_as_str (JStr s) = Some s"
| "json_as_str _ = None"

type_synonym i32 = "32 word"

definition fits_i32 :: "int \<Rightarrow> bool" where
  "fits_i32 i \<longleftrightarrow> - (2 ^ 31) \<le> i \<and> i < 2 ^ 31"

fun json_as_i32 :: "json \<Rightarrow> i32 option" where
  "json_as_i32 (JInt i) = (if fits_i32 i then Some (word_of_int i) else None)"
| "json_as_i32 _ = None"

lemma json_as_i32_sint [simp]: "json_as_i32 (JInt (sint (w :: i32))) = Some w"
  using sint_range_size [of w] by (simp add: fits_i32_def size_word_def)

definition jobj :: "(string \<times> json) list \<Rightarrow> json" where
  "jobj kvs = JObj (fmap_of_list kvs)"

lemma json_get_jobj [simp]: "json_get k (jobj kvs) = map_of kvs k"
  by (simp add: jobj_def fmlookup_of_list)

text \<open>A field with \<open>skip_serializing_if = "Option::is_none"\<close>.\<close>

definition opt_field :: "string \<Rightarrow> ('a \<Rightarrow> json) \<Rightarrow> 'a option \<Rightarrow> (string \<times> json) list" where
  "opt_field k f v = (case v of None \<Rightarrow> [] | Some x \<Rightarrow> [(k, f x)])"

lemma map_of_opt_field [simp]:
  "map_of (opt_field k f v @ rest) k' =
     (if k = k' then (case v of None \<Rightarrow> map_of rest k' | Some x \<Rightarrow> Some (f x)) else map_of rest k')"
  "map_of (opt_field k f v) k' = (if k = k' then map_option f v else None)"
  by (auto simp: opt_field_def split: option.splits)

section \<open>Event types\<close>

datatype event_type =
    RunCreated | SeedLoaded | NsCreated | MountDone | CgroupApplied | IdmapApplied | CapsDropped
  | SeccompEnabled | ProcessStart | ProcessOutput | ProcessExit | ProcessFailed
  | PodNetReady | ContainerStart | ContainerExit | PodHealth | PodExit | Metric
  | ContainerForked | ExecFailed | SignalForward | PodStopRequested | PodTimeout | OciImport
  | MountOverlayDone | MountOverlaySkipped

text \<open>The names under \<open>rename_all = "SCREAMING_SNAKE_CASE"\<close>.\<close>

definition event_type_names :: "(event_type \<times> string) list" where
  "event_type_names =
     [(RunCreated, ''RUN_CREATED''), (SeedLoaded, ''SEED_LOADED''), (NsCreated, ''NS_CREATED''),
      (MountDone, ''MOUNT_DONE''), (CgroupApplied, ''CGROUP_APPLIED''),
      (IdmapApplied, ''IDMAP_APPLIED''), (CapsDropped, ''CAPS_DROPPED''),
      (SeccompEnabled, ''SECCOMP_ENABLED''), (ProcessStart, ''PROCESS_START''),
      (ProcessOutput, ''PROCESS_OUTPUT''), (ProcessExit, ''PROCESS_EXIT''),
      (ProcessFailed, ''PROCESS_FAILED''), (PodNetReady, ''POD_NET_READY''),
      (ContainerStart, ''CONTAINER_START''), (ContainerExit, ''CONTAINER_EXIT''),
      (PodHealth, ''POD_HEALTH''), (PodExit, ''POD_EXIT''), (Metric, ''METRIC''),
      (ContainerForked, ''CONTAINER_FORKED''), (ExecFailed, ''EXEC_FAILED''),
      (SignalForward, ''SIGNAL_FORWARD''), (PodStopRequested, ''POD_STOP_REQUESTED''),
      (PodTimeout, ''POD_TIMEOUT''), (OciImport, ''OCI_IMPORT''),
      (MountOverlayDone, ''MOUNT_OVERLAY_DONE''), (MountOverlaySkipped, ''MOUNT_OVERLAY_SKIPPED'')]"

definition event_type_name :: "event_type \<Rightarrow> string" where
  "event_type_name t = the (map_of event_type_names t)"

definition event_type_of_name :: "string \<Rightarrow> event_type option" where
  "event_type_of_name s = map_of (map (\<lambda>(t, n). (n, t)) event_type_names) s"

lemma event_type_of_name_name [simp]: "event_type_of_name (event_type_name t) = Some t"
  by (cases t) (simp_all add: event_type_of_name_def event_type_name_def event_type_names_def)

datatype log_level = Debug | Info | Warn | Error

fun log_level_name :: "log_level \<Rightarrow> string" where
  "log_level_name Debug = ''debug''"
| "log_level_name Info = ''info''"
| "log_level_name Warn = ''warn''"
| "log_level_name Error = ''error''"

definition log_level_of_name :: "string \<Rightarrow> log_level option" where
  "log_level_of_name s = find (\<lambda>l. log_level_name l = s) [Debug, Info, Warn, Error]"

lemma log_level_of_name_name [simp]: "log_level_of_name (log_level_name l) = Some l"
  by (cases l) (simp_all add: log_level_of_name_def)

section \<open>Events\<close>

text \<open>\<open>'ts\<close> is \<open>DateTime<Utc>\<close>.\<close>

record 'ts event =
  ev_ts :: 'ts
  ev_level :: log_level
  ev_run :: string
  ev_seed :: "string option"
  ev_garden :: "string option"
  ev_container :: "string option"
  ev_event :: event_type
  ev_msg :: "string option"
  ev_code :: "i32 option"
  ev_error :: "string option"
  ev_data :: "json option"

definition event_new :: "string \<Rightarrow> string \<Rightarrow> event_type \<Rightarrow> 'ts \<Rightarrow> 'ts event" where
  "event_new run_id seed_id t ts =
     \<lparr>ev_ts = ts, ev_level = Info, ev_run = run_id, ev_seed = Some seed_id, ev_garden = None,
      ev_container = None, ev_event = t, ev_msg = None, ev_code = None, ev_error = None,
      ev_data = None\<rparr>"

definition event_new_garden :: "string \<Rightarrow> string \<Rightarrow> event_type \<Rightarrow> 'ts \<Rightarrow> 'ts event" where
  "event_new_garden run_id garden_id t ts =
     \<lparr>ev_ts = ts, ev_level = Info, ev_run = run_id, ev_seed = None, ev_garden = Some garden_id,
      ev_container = None, ev_event = t, ev_msg = None, ev_code = None, ev_error = None,
      ev_data = None\<rparr>"

definition event_new_container :: "string \<Rightarrow> string \<Rightarrow> string \<Rightarrow> event_type \<Rightarrow> 'ts \<Rightarrow> 'ts event" where
  "event_new_container run_id garden_id container_name t ts =
     \<lparr>ev_ts = ts, ev_level = Info, ev_run = run_id, ev_seed = None, ev_garden = Some garden_id,
      ev_container = Some container_name, ev_event = t, ev_msg = None, ev_code = None,
      ev_error = None, ev_data = None\<rparr>"

definition with_level :: "log_level \<Rightarrow> 'ts event \<Rightarrow> 'ts event" where
  "with_level l e = e\<lparr>ev_level := l\<rparr>"

definition with_msg :: "string \<Rightarrow> 'ts event \<Rightarrow> 'ts event" where
  "with_msg m e = e\<lparr>ev_msg := Some m\<rparr>"

definition with_code :: "i32 \<Rightarrow> 'ts event \<Rightarrow> 'ts event" where
  "with_code c e = e\<lparr>ev_code := Some c\<rparr>"

definition with_error :: "string \<Rightarrow> 'ts event \<Rightarrow> 'ts event" where
  "with_error m e = e\<lparr>ev_error := Some m\<rparr>"

definition with_data :: "json \<Rightarrow> 'ts event \<Rightarrow> 'ts event" where
  "with_data d e = e\<lparr>ev_data := Some d\<rparr>"

text \<open>The JSON form, given chrono's text of a time.\<close>

definition event_to_json :: "('ts \<Rightarrow> string) \<Rightarrow> 'ts event \<Rightarrow> json" where
  "event_to_json show_ts e = jobj
     ([(''ts'', JStr (show_ts (ev_ts e))), (''level'', JStr (log_level_name (ev_level e))),
       (''run'', JStr (ev_run e))] @
      opt_field ''seed'' JStr (ev_seed e) @
      opt_field ''garden'' JStr (ev_garden e) @
      opt_field ''container'' JStr (ev_container e) @
      [(''event'', JStr (event_type_name (ev_event e)))] @
      opt_field ''msg'' JStr (ev_msg e) @
      opt_field ''code'' (\<lambda>c. JInt (sint c)) (ev_code e) @
      opt_field ''error'' JStr (ev_error e) @
      opt_field ''data'' id (ev_data e))"

text \<open>
  The derived \<open>Deserialize\<close>: a required field must be present and of its type; an optional one may
  be absent or null. (It also reads a struct from an array and a variant from an object with one entry;
  the program writes neither, and they are left out.)
\<close>

definition json_req :: "(json \<Rightarrow> 'a option) \<Rightarrow> string \<Rightarrow> json \<Rightarrow> 'a option" where
  "json_req f k j = Option.bind (json_get k j) f"

definition json_opt :: "(json \<Rightarrow> 'a option) \<Rightarrow> string \<Rightarrow> json \<Rightarrow> 'a option option" where
  "json_opt f k j = (case json_get k j of
       None \<Rightarrow> Some None
     | Some v \<Rightarrow> if v = JNull then Some None else map_option Some (f v))"

definition event_of_json :: "(string \<Rightarrow> 'ts option) \<Rightarrow> json \<Rightarrow> 'ts event option" where
  "event_of_json read_ts j =
     Option.bind (json_req (\<lambda>v. Option.bind (json_as_str v) read_ts) ''ts'' j) (\<lambda>ts.
     Option.bind (json_req (\<lambda>v. Option.bind (json_as_str v) log_level_of_name) ''level'' j) (\<lambda>level.
     Option.bind (json_req json_as_str ''run'' j) (\<lambda>run.
     Option.bind (json_opt json_as_str ''seed'' j) (\<lambda>seed.
     Option.bind (json_opt json_as_str ''garden'' j) (\<lambda>garden.
     Option.bind (json_opt json_as_str ''container'' j) (\<lambda>container.
     Option.bind (json_req (\<lambda>v. Option.bind (json_as_str v) event_type_of_name) ''event'' j) (\<lambda>t.
     Option.bind (json_opt json_as_str ''msg'' j) (\<lambda>msg.
     Option.bind (json_opt json_as_i32 ''code'' j) (\<lambda>code.
     Option.bind (json_opt json_as_str ''error'' j) (\<lambda>err.
     Option.bind (json_opt Some ''data'' j) (\<lambda>data.
       Some \<lparr>ev_ts = ts, ev_level = level, ev_run = run, ev_seed = seed, ev_garden = garden,
             ev_container = container, ev_event = t, ev_msg = msg, ev_code = code,
             ev_error = err, ev_data = data\<rparr>)))))))))))"

section \<open>Builders\<close>

record event_builder =
  eb_run_id :: string
  eb_seed_id :: string

definition build :: "event_builder \<Rightarrow> event_type \<Rightarrow> 'ts \<Rightarrow> 'ts event" where
  "build b t ts = event_new (eb_run_id b) (eb_seed_id b) t ts"

definition run_created :: "event_builder \<Rightarrow> 'ts \<Rightarrow> 'ts event" where
  "run_created b ts = build b RunCreated ts"

definition seed_loaded :: "event_builder \<Rightarrow> 'ts \<Rightarrow> 'ts event" where
  "seed_loaded b ts = build b SeedLoaded ts"

definition ns_created :: "event_builder \<Rightarrow> string \<Rightarrow> 'ts \<Rightarrow> 'ts event" where
  "ns_created b msg ts = with_msg msg (build b NsCreated ts)"

definition mount_done :: "event_builder \<Rightarrow> string \<Rightarrow> 'ts \<Rightarrow> 'ts event" where
  "mount_done b msg ts = with_msg msg (build b MountDone ts)"

definition cgroup_applied :: "event_builder \<Rightarrow> 'ts \<Rightarrow> 'ts event" where
  "cgroup_applied b ts = build b CgroupApplied ts"

definition idmap_applied :: "event_builder \<Rightarrow> 'ts \<Rightarrow> 'ts event" where
  "idmap_applied b ts = build b IdmapApplied ts"

definition caps_dropped :: "event_builder \<Rightarrow> 'ts \<Rightarrow> 'ts event" where
  "caps_dropped b ts = build b CapsDropped ts"

definition seccomp_enabled :: "event_builder \<Rightarrow> 'ts \<Rightarrow> 'ts event" where
  "seccomp_enabled b ts = build b SeccompEnabled ts"

definition process_start :: "event_builder \<Rightarrow> int \<Rightarrow> 'ts \<Rightarrow> 'ts event" where
  "process_start b pid ts =
     with_msg (''Process started with PID '' @ show_int pid) (build b ProcessStart ts)"

text \<open>An exit code is an \<open>i32\<close>; the programs hand it over as the integer the kernel reported.\<close>

definition process_exit :: "event_builder \<Rightarrow> int \<Rightarrow> 'ts \<Rightarrow> 'ts event" where
  "process_exit b code ts =
     (let c = word_of_int code in
      with_msg (''Process exited with code '' @ show_int (sint c)) (with_code c (build b ProcessExit ts)))"

definition process_failed :: "event_builder \<Rightarrow> string \<Rightarrow> 'ts \<Rightarrow> 'ts event" where
  "process_failed b err ts = with_error err (with_level Error (build b ProcessFailed ts))"

record garden_event_builder =
  gb_run_id :: string
  gb_garden_id :: string

definition gbuild :: "garden_event_builder \<Rightarrow> event_type \<Rightarrow> 'ts \<Rightarrow> 'ts event" where
  "gbuild b t ts = event_new_garden (gb_run_id b) (gb_garden_id b) t ts"

definition build_container :: "garden_event_builder \<Rightarrow> string \<Rightarrow> event_type \<Rightarrow> 'ts \<Rightarrow> 'ts event" where
  "build_container b name t ts = event_new_container (gb_run_id b) (gb_garden_id b) name t ts"

definition pod_net_ready :: "garden_event_builder \<Rightarrow> string \<Rightarrow> string \<Rightarrow> 'ts \<Rightarrow> 'ts event" where
  "pod_net_ready b bridge ip ts =
     with_data (jobj [(''bridge'', JStr bridge), (''ip'', JStr ip)])
       (with_msg (''Network ready: bridge='' @ bridge @ '', ip='' @ ip) (gbuild b PodNetReady ts))"

definition container_start :: "garden_event_builder \<Rightarrow> string \<Rightarrow> int \<Rightarrow> 'ts \<Rightarrow> 'ts event" where
  "container_start b name pid ts =
     with_data (jobj [(''pid'', JInt pid)])
       (with_msg (''Container '' @ name @ '' started with PID '' @ show_int pid)
         (build_container b name ContainerStart ts))"

definition container_exit :: "garden_event_builder \<Rightarrow> string \<Rightarrow> int \<Rightarrow> 'ts \<Rightarrow> 'ts event" where
  "container_exit b name code ts =
     (let c = word_of_int code in
      with_msg (''Container '' @ name @ '' exited with code '' @ show_int (sint c))
        (with_code c (build_container b name ContainerExit ts)))"

definition pod_health :: "garden_event_builder \<Rightarrow> string \<Rightarrow> 'ts \<Rightarrow> 'ts event" where
  "pod_health b status ts =
     with_data (jobj [(''status'', JStr status)])
       (with_msg (''Pod health: '' @ status) (gbuild b PodHealth ts))"

definition pod_exit :: "garden_event_builder \<Rightarrow> string \<Rightarrow> 'ts \<Rightarrow> 'ts event" where
  "pod_exit b status ts =
     with_data (jobj [(''status'', JStr status)])
       (with_msg (''Pod exited: '' @ status) (gbuild b PodExit ts))"

definition container_forked :: "garden_event_builder \<Rightarrow> string \<Rightarrow> int \<Rightarrow> 'ts \<Rightarrow> 'ts event" where
  "container_forked b name pid ts =
     with_data (jobj [(''pid'', JInt pid)])
       (with_msg (''Container '' @ name @ '' forked with PID '' @ show_int pid)
         (build_container b name ContainerForked ts))"

definition exec_failed :: "garden_event_builder \<Rightarrow> string \<Rightarrow> string \<Rightarrow> 'ts \<Rightarrow> 'ts event" where
  "exec_failed b name errno ts =
     with_data (jobj [(''errno'', JStr errno)])
       (with_error (''exec failed: '' @ errno)
         (with_level Error (build_container b name ExecFailed ts)))"

definition signal_forward :: "garden_event_builder \<Rightarrow> string \<Rightarrow> string \<Rightarrow> 'ts \<Rightarrow> 'ts event" where
  "signal_forward b signal name ts =
     with_data (jobj [(''signal'', JStr signal)])
       (with_msg (''Forwarding signal '' @ signal @ '' to container '' @ name)
         (build_container b name SignalForward ts))"

definition pod_stop_requested :: "garden_event_builder \<Rightarrow> 'ts \<Rightarrow> 'ts event" where
  "pod_stop_requested b ts = with_msg ''Pod stop requested'' (gbuild b PodStopRequested ts)"

definition pod_timeout :: "garden_event_builder \<Rightarrow> nat \<Rightarrow> 'ts \<Rightarrow> 'ts event" where
  "pod_timeout b timeout_ms ts =
     with_data (jobj [(''timeout_ms'', JInt (int timeout_ms))])
       (with_msg (''Pod timeout after '' @ show_nat timeout_ms @ ''ms'')
         (with_level Warn (gbuild b PodTimeout ts)))"

definition oci_import :: "garden_event_builder \<Rightarrow> string \<Rightarrow> nat \<Rightarrow> 'ts \<Rightarrow> 'ts event" where
  "oci_import b digest layers ts =
     with_data (jobj [(''digest'', JStr digest), (''layers'', JInt (int layers))])
       (with_msg (''Imported OCI image: '' @ digest @ '' ('' @ show_nat layers @ '' layers)'')
         (gbuild b OciImport ts))"

definition mount_overlay_done :: "garden_event_builder \<Rightarrow> nat \<Rightarrow> string \<Rightarrow> 'ts \<Rightarrow> 'ts event" where
  "mount_overlay_done b lowers upper ts =
     with_data (jobj [(''lowers'', JInt (int lowers)), (''upper'', JStr upper)])
       (with_msg (''OverlayFS mounted: '' @ show_nat lowers @ '' lower layers, upper: '' @ upper)
         (gbuild b MountOverlayDone ts))"

definition mount_overlay_skipped :: "garden_event_builder \<Rightarrow> string \<Rightarrow> 'ts \<Rightarrow> 'ts event" where
  "mount_overlay_skipped b reason ts =
     with_data (jobj [(''reason'', JStr reason)])
       (with_msg (''OverlayFS skipped: '' @ reason)
         (with_level Warn (gbuild b MountOverlaySkipped ts)))"

section \<open>Properties\<close>

lemma event_json_fields:
  "json_get ''ts'' (event_to_json show_ts e) = Some (JStr (show_ts (ev_ts e)))"
  "json_get ''level'' (event_to_json show_ts e) = Some (JStr (log_level_name (ev_level e)))"
  "json_get ''run'' (event_to_json show_ts e) = Some (JStr (ev_run e))"
  "json_get ''seed'' (event_to_json show_ts e) = map_option JStr (ev_seed e)"
  "json_get ''garden'' (event_to_json show_ts e) = map_option JStr (ev_garden e)"
  "json_get ''container'' (event_to_json show_ts e) = map_option JStr (ev_container e)"
  "json_get ''event'' (event_to_json show_ts e) = Some (JStr (event_type_name (ev_event e)))"
  "json_get ''msg'' (event_to_json show_ts e) = map_option JStr (ev_msg e)"
  "json_get ''code'' (event_to_json show_ts e) = map_option (\<lambda>c. JInt (sint c)) (ev_code e)"
  "json_get ''error'' (event_to_json show_ts e) = map_option JStr (ev_error e)"
  "json_get ''data'' (event_to_json show_ts e) = ev_data e"
  by (simp_all add: event_to_json_def option.map_id del: map_of_append split: option.splits)

lemma opt_Some:
  "json_get k j = map_option JStr v \<Longrightarrow> json_opt json_as_str k j = Some v"
  "json_get k j = map_option (\<lambda>c. JInt (sint c)) w \<Longrightarrow> json_opt json_as_i32 k j = Some w"
  by (cases v; simp add: json_opt_def) (cases w; simp add: json_opt_def del: json_as_i32.simps)

text \<open>C27: With a clock whose printed times can be read back, every event is recovered from the JSON the store is given:
  its time, level, names and code all survive. Only a data field that is an explicit null does not: it is
  read as no data.\<close>
theorem event_json_roundtrip:
  assumes "\<forall>t. read_ts (show_ts t) = Some t"
  shows "event_of_json read_ts (event_to_json show_ts e) =
     Some (if ev_data e = Some JNull then e\<lparr>ev_data := None\<rparr> else e)"
proof -
  note f = event_json_fields [of show_ts e]
  have d: "json_opt Some ''data'' (event_to_json show_ts e) =
      Some (if ev_data e = Some JNull then None else ev_data e)"
    by (simp add: json_opt_def f split: option.splits)
  show ?thesis
    unfolding event_of_json_def
    by (simp add: assms json_req_def f d opt_Some(1) [OF f(4)] opt_Some(1) [OF f(5)] opt_Some(1) [OF f(6)]
        opt_Some(1) [OF f(8)] opt_Some(2) [OF f(9)] opt_Some(1) [OF f(10)])
qed

text \<open>A clock for the examples: nanoseconds after noon of one day, as RFC 3339 text.\<close>

definition noon_text :: "u64 \<Rightarrow> string" where
  "noon_text ns = ''2025-10-28T12:00:00.'' @ show_word ns @ ''Z''"

definition noon_time :: "string \<Rightarrow> u64 option" where
  "noon_time s = Option.bind (strip_prefix ''2025-10-28T12:00:00.'' s) (\<lambda>r.
     Option.bind (strip_suffix ''Z'' r) (\<lambda>digits. case parse_u64 digits of Inr ns \<Rightarrow> Some ns | Inl _ \<Rightarrow> None))"

lemma noon_read: "noon_time (noon_text ns) = Some ns"
proof -
  have "strip_prefix ''2025-10-28T12:00:00.'' (noon_text ns) = Some (show_word ns @ ''Z'')"
    by (simp only: noon_text_def strip_prefix_append)
  then show ?thesis by (simp add: noon_time_def)
qed

theorem event_json_roundtrip_witness:
  "event_of_json noon_time (event_to_json noon_text (process_exit \<lparr>eb_run_id = ''r1'', eb_seed_id = ''s1''\<rparr> 137 42)) =
     Some (process_exit \<lparr>eb_run_id = ''r1'', eb_seed_id = ''s1''\<rparr> 137 42)"
  by (subst event_json_roundtrip)
    (simp_all add: noon_read process_exit_def with_msg_def with_code_def build_def event_new_def Let_def)

section \<open>The JSON type of an event\<close>

datatype json_type = TText | TTime | TI32 | TOneOf "string list" | TValue

fun has_type :: "(string \<Rightarrow> bool) \<Rightarrow> json_type \<Rightarrow> json \<Rightarrow> bool" where
  "has_type is_ts TText v = (json_as_str v \<noteq> None)"
| "has_type is_ts TTime v = (case json_as_str v of Some s \<Rightarrow> is_ts s | None \<Rightarrow> False)"
| "has_type is_ts TI32 v = (json_as_i32 v \<noteq> None)"
| "has_type is_ts (TOneOf names) v = (case json_as_str v of Some s \<Rightarrow> s \<in> set names | None \<Rightarrow> False)"
| "has_type is_ts TValue v = True"

text \<open>The fields: whether each is required, and its type. An optional one may be null.\<close>

definition event_fields :: "(string \<times> bool \<times> json_type) list" where
  "event_fields =
     [(''ts'', True, TTime), (''level'', True, TOneOf (map log_level_name [Debug, Info, Warn, Error])),
      (''run'', True, TText), (''seed'', False, TText), (''garden'', False, TText), (''container'', False, TText),
      (''event'', True, TOneOf (map snd event_type_names)), (''msg'', False, TText), (''code'', False, TI32),
      (''error'', False, TText), (''data'', False, TValue)]"

definition field_ok :: "(string \<Rightarrow> bool) \<Rightarrow> json \<Rightarrow> string \<times> bool \<times> json_type \<Rightarrow> bool" where
  "field_ok is_ts j f = (case f of (k, req, ty) \<Rightarrow>
     (case json_get k j of None \<Rightarrow> \<not> req | Some v \<Rightarrow> has_type is_ts ty v \<or> \<not> req \<and> v = JNull))"

definition event_typed :: "(string \<Rightarrow> bool) \<Rightarrow> json \<Rightarrow> bool" where
  "event_typed is_ts j \<longleftrightarrow> list_all (field_ok is_ts j) event_fields"

lemma field_ok_read:
  "field_ok is_ts j (k, True, TText) \<Longrightarrow> \<exists>v. json_req json_as_str k j = Some v"
  "field_ok is_ts j (k, False, TText) \<Longrightarrow> \<exists>v. json_opt json_as_str k j = Some v"
  "field_ok is_ts j (k, False, TI32) \<Longrightarrow> \<exists>v. json_opt json_as_i32 k j = Some v"
  "field_ok is_ts j (k, False, TValue) \<Longrightarrow> \<exists>v. json_opt Some k j = Some v"
  by (auto simp: field_ok_def json_req_def json_opt_def split: option.splits)

lemma named_read:
  "s \<in> set (map log_level_name [Debug, Info, Warn, Error]) \<Longrightarrow> \<exists>l. log_level_of_name s = Some l"
  "s \<in> set (map snd event_type_names) \<Longrightarrow> \<exists>t. event_type_of_name s = Some t"
  by (auto simp: log_level_of_name_def event_type_of_name_def event_type_names_def)

lemma field_ok_named:
  assumes "field_ok is_ts j (k, True, TOneOf names)" "\<And>s. s \<in> set names \<Longrightarrow> \<exists>x. f s = Some x"
  shows "\<exists>v. json_req (\<lambda>v. Option.bind (json_as_str v) f) k j = Some v"
  using assms by (auto simp: field_ok_def json_req_def split: option.splits)

lemma field_ok_time:
  assumes "field_ok (\<lambda>s. f s \<noteq> None) j (k, True, TTime)"
  shows "\<exists>v. json_req (\<lambda>v. Option.bind (json_as_str v) f) k j = Some v"
  using assms by (auto simp: field_ok_def json_req_def split: option.splits)

lemma typed_read: "event_typed (\<lambda>s. read_ts s \<noteq> None) j \<Longrightarrow> event_of_json read_ts j \<noteq> None"
proof -
  let ?ok = "field_ok (\<lambda>s. read_ts s \<noteq> None) j"
  assume "event_typed (\<lambda>s. read_ts s \<noteq> None) j"
  then have F: "?ok (''ts'', True, TTime)" "?ok (''run'', True, TText)" "?ok (''seed'', False, TText)"
    "?ok (''garden'', False, TText)" "?ok (''container'', False, TText)" "?ok (''msg'', False, TText)"
    "?ok (''code'', False, TI32)" "?ok (''error'', False, TText)" "?ok (''data'', False, TValue)"
    "?ok (''level'', True, TOneOf (map log_level_name [Debug, Info, Warn, Error]))"
    "?ok (''event'', True, TOneOf (map snd event_type_names))"
    by (simp_all add: event_typed_def event_fields_def)
  from field_ok_time [OF F(1)] field_ok_read(1) [OF F(2)] field_ok_read(2) [OF F(3)] field_ok_read(2) [OF F(4)]
    field_ok_read(2) [OF F(5)] field_ok_read(2) [OF F(6)] field_ok_read(3) [OF F(7)] field_ok_read(2) [OF F(8)]
    field_ok_read(4) [OF F(9)] field_ok_named [where f = log_level_of_name, OF F(10) named_read(1)]
    field_ok_named [where f = event_type_of_name, OF F(11) named_read(2)]
  show ?thesis by (auto simp: event_of_json_def)
qed

text \<open>C28: With a clock whose printed times can be read, the JSON of an event is well typed: every required field is
  there, a time, a text or one of the names of its enumeration, and every optional one is of its type; and
  every well-typed JSON value, its time one the clock's reader takes, is read as an event.\<close>
theorem event_json_typed:
  assumes "\<forall>t. read_ts (show_ts t) \<noteq> None"
  shows "event_typed (\<lambda>s. read_ts s \<noteq> None) (event_to_json show_ts e) \<and>
     {j. event_typed (\<lambda>s. read_ts s \<noteq> None) j} \<subseteq> {j. event_of_json read_ts j \<noteq> None}"
proof
  have names: "log_level_name l \<in> set (map log_level_name [Debug, Info, Warn, Error])"
    "event_type_name t \<in> set (map snd event_type_names)" for l t
    by (cases l; simp) (cases t; simp add: event_type_name_def event_type_names_def)
  show "event_typed (\<lambda>s. read_ts s \<noteq> None) (event_to_json show_ts e)"
    using assms names(1) [of "ev_level e"] names(2) [of "ev_event e"]
    by (simp add: event_typed_def event_fields_def field_ok_def event_json_fields del: json_as_i32.simps split: option.splits)
  show "{j. event_typed (\<lambda>s. read_ts s \<noteq> None) j} \<subseteq> {j. event_of_json read_ts j \<noteq> None}" using typed_read by blast
qed

theorem event_json_typed_witness:
  "event_typed (\<lambda>s. noon_time s \<noteq> None)
     (event_to_json noon_text (process_exit \<lparr>eb_run_id = ''r1'', eb_seed_id = ''s1''\<rparr> 137 42))"
  by (rule conjunct1 [OF event_json_typed]) (simp add: noon_read)

end
