(* ===== verification/Store_Iface.thy ===== *)
theory Store_Iface
  imports Events
begin

text \<open>
  The \<open>Store\<close> trait of \<open>src/store/mod.rs\<close>. A trait object is a record of its methods, each a
  state-and-error function of the implementation's own state; \<open>store_do\<close> dispatches a call as data.

  The locale \<open>audit_store\<close> is the contract the runner and the supervisor rely on: an accepted call
  adds its records to the end of the journal, a refused one leaves the journal alone. Its lemmas
  (calls in order, nothing lost, nothing rewritten) are proved once and used through the
  interpretations in \<open>Store_Memory\<close> and \<open>Store_Liminal\<close>.
\<close>

section \<open>The trait\<close>

record seed_record =
  sr_id :: string
  sr_name :: string
  sr_manifest_yaml :: string
  sr_created_at :: string

datatype run_status = RunInit | RunRunning | RunExited int | RunFailed string

record 's store_ops =
  st_upsert_seed :: "seed_record \<Rightarrow> ('s, unit) io"
  st_create_run :: "string \<Rightarrow> string \<Rightarrow> string \<Rightarrow> ('s, unit) io"
  st_append_event :: "string \<Rightarrow> json \<Rightarrow> ('s, unit) io"
  st_update_run_status :: "string \<Rightarrow> run_status \<Rightarrow> string option \<Rightarrow> ('s, unit) io"
  st_append_metrics :: "string \<Rightarrow> string \<Rightarrow> json \<Rightarrow> ('s, unit) io"

text \<open>The default implementation of \<open>append_metrics\<close>.\<close>

definition default_append_metrics :: "string \<Rightarrow> string \<Rightarrow> json \<Rightarrow> ('s, unit) io" where
  "default_append_metrics run_id container metrics = io_return ()"

datatype store_call =
    UpsertSeed seed_record
  | CreateRun string string string
  | AppendEvent string json
  | UpdateRunStatus string run_status "string option"

fun store_do :: "'s store_ops \<Rightarrow> store_call \<Rightarrow> ('s, unit) io" where
  "store_do ops (UpsertSeed s) = st_upsert_seed ops s"
| "store_do ops (CreateRun run_id seed_id start_ts) = st_create_run ops run_id seed_id start_ts"
| "store_do ops (AppendEvent run_id event) = st_append_event ops run_id event"
| "store_do ops (UpdateRunStatus run_id status end_ts) = st_update_run_status ops run_id status end_ts"

section \<open>Store kinds\<close>

datatype store_kind = MemoryKind | LiminalKind

text \<open>
  \<open>to_lowercase\<close> is the Unicode one; no character outside ASCII has one of the letters of the three
  names as its lower case, so comparing the ASCII lower case decides the same match.
\<close>

definition store_kind_from_str :: "string \<Rightarrow> store_kind result" where
  "store_kind_from_str s =
     (let l = to_ascii_lowercase s in
      if l = ''mem'' \<or> l = ''memory'' then Inr MemoryKind
      else if l = ''liminal'' then Inr LiminalKind
      else bail (''Unknown store kind: '' @ s))"

section \<open>The contract\<close>

text \<open>A sequence of calls, each result looked at by nobody: the state it leaves and the accepted
  calls.\<close>

fun store_run :: "'s store_ops \<Rightarrow> store_call list \<Rightarrow> 's \<Rightarrow> store_call list \<times> 's" where
  "store_run ops [] s = ([], s)"
| "store_run ops (c # cs) s =
     (case store_do ops c s of
        (Inr _, s1) \<Rightarrow> (case store_run ops cs s1 of (acc, s2) \<Rightarrow> (c # acc, s2))
      | (Inl _, s1) \<Rightarrow> store_run ops cs s1)"

locale audit_store =
  fixes ops :: "'s store_ops"
    and journal :: "'s \<Rightarrow> 'r list"
    and enc :: "store_call \<Rightarrow> 'r list"
  assumes accepted: "store_do ops c s = (Inr u, s') \<Longrightarrow> journal s' = journal s @ enc c"
    and refused: "store_do ops c s = (Inl e, s') \<Longrightarrow> journal s' = journal s"
begin

lemma journal_extends: "store_do ops c s = (r, s') \<Longrightarrow> prefix (journal s) (journal s')"
  using accepted refused by (cases r) auto

lemma journal_run:
  "store_run ops cs s = (acc, s') \<Longrightarrow> journal s' = journal s @ concat (map enc acc)"
proof (induction cs arbitrary: s acc s')
  case (Cons c cs)
  then show ?case
    by (cases "store_do ops c s"; cases "fst (store_do ops c s)")
      (auto split: prod.splits dest: accepted refused)
qed simp

lemma run_accepts_subsequence: "store_run ops cs s = (acc, s') \<Longrightarrow> subseq acc cs"
proof (induction cs arbitrary: s acc s')
  case (Cons c cs)
  then show ?case
    by (cases "store_do ops c s"; cases "fst (store_do ops c s)") (auto split: prod.splits)
qed simp

end

end
