(* ===== verification/Sys.thy ===== *)
theory Sys
  imports Rust_Path Store_Iface
begin

text \<open>
  The outside world of the program: the kernel, the file system, the store, the clock and the other
  end of the control socket. Each call the program makes is a value of \<open>call\<close>, each answer a value
  of \<open>reply\<close>, and a task carries the \<open>history\<close> of what it asked and was told. An \<open>env\<close> is any
  function from the history and the next call to the reply: an arbitrary, adaptive and possibly
  hostile world. What a theorem needs of the world beyond that is a hypothesis of the theorem.

  \<open>sys\<close> makes one call. A reply \<open>RKilled\<close> means that the kernel ended the calling task in this call;
  a reply of the wrong shape is read as an error.

  \<open>store_calls\<close> and \<open>backed_by\<close> tie the store calls of a history to an implementation of the store.
\<close>

section \<open>Calls and replies\<close>

datatype filter_action = KillProcess | ErrnoEPERM

record cap_word =
  cw_effective :: u32
  cw_permitted :: u32
  cw_inheritable :: u32

datatype wait_status =
    Exited int int
  | Signaled int int
  | Stopped int int
  | Continued int
  | StillAlive
  | OtherStatus

datatype end_of_pair = SupervisorEnd | ChildEnd

datatype file_call =
    ReadLink string
  | ReadToString string
  | WriteFile string string
  | PathExists string
  | CreateDir string
  | CreateDirAll string
  | RemoveDir string
  | RemoveDirAll string
  | OpenFile string
  | Metadata string
  | SetPermissions string nat
  | ReadDir string
  | IsDir string
  | UnpackTar string bool string
  | TarNext string
  | TarEntryPath string
  | TarUnpackIn string string

datatype task_call =
    GetUid | GetGid | GetPid
  | SetUid u32 | SetGid u32
  | SetCurrentDir string
  | SetEnv string string
  | SetHostname string
  | SetNoNewPrivs
  | Execv string "string list"

text \<open>Calls only pod supervisors and their containers make.\<close>

datatype pod_call =
    SetSubreaper
  | SetPdeathsig int
  | SetSid
  | SetnsNet
  | Fork
  | InstantNow
  | SleepMs nat
  | RunCommand string "string list"
  | ExitProcess int

text \<open>Calls only the isolation probe makes.\<close>

datatype probe_call =
    UnshareMountNs
  | PrGetNoNewPrivs
  | PrGetSeccomp
  | SocketInet
  | CloseFd int

text \<open>Calls only the metrics server makes; an accepted connection has a number.\<close>

datatype tcp_call =
    TcpBind string
  | TcpAccept
  | SpawnHandler int
  | TcpRead int
  | TcpWrite int string

datatype mount_call =
    Mount "string option" string "string option" "string list"
  | MountData "string option" string "string option" string
  | Umount string
  | Umount2 string
  | PivotRoot string string
  | Chroot string

datatype cap_call =
    Capget
  | Capset "cap_word \<times> cap_word"
  | CapbsetRead u32
  | CapbsetDrop u32
  | AmbientIsSet u32
  | AmbientLower u32

datatype proc_call =
    SocketPair
  | SetCloexec end_of_pair
  | Clone "string list"
  | Kill int int
  | WaitPid int bool

text \<open>The two ends of the control socket.\<close>

datatype ctl_call =
    CtlWrite string
  | CtlShutdownWrite
  | CtlReadLine
  | CtlReadByte
  | CtlClose
  | CtlClosePeer

datatype call =
    File file_call
  | Task task_call
  | Mnt mount_call
  | Cap cap_call
  | InstallFilter "string list" filter_action
  | Proc proc_call
  | Ctl ctl_call
  | Pod pod_call
  | Probe probe_call
  | Tcp tcp_call
  | StoreCall store_call
  | UtcNow

text \<open>What iterating over a directory yields: an entry with its name and whether it is a directory, or an error.\<close>

datatype dir_entry = DirEntry string bool | EntryErr string | EntryTypeErr string

datatype reply =
    ROk
  | RErr string
  | REintr
  | REchild
  | RBool bool
  | RInt int
  | RStr string
  | RCaps u32 "cap_word \<times> cap_word"
  | RWait wait_status
  | ROutput bool string
  | RDir "dir_entry list"
  | RKilled

type_synonym history = "(call \<times> reply) list"
type_synonym env = "history \<Rightarrow> call \<Rightarrow> reply"

definition sys :: "env \<Rightarrow> call \<Rightarrow> (history, reply) io" where
  "sys env c h =
     (let r = env h c in (if r = RKilled then Inl Killed else Inr r, h @ [(c, r)]))"

text \<open>The text of \<open>io::Error::last_os_error()\<close> after a failed call.\<close>

fun os_error :: "reply \<Rightarrow> string" where
  "os_error (RErr m) = m"
| "os_error REintr = ''Interrupted system call (os error 4)''"
| "os_error REchild = ''No child processes (os error 10)''"
| "os_error _ = ''Success (os error 0)''"

fun as_unit :: "reply \<Rightarrow> unit result" where
  "as_unit ROk = Inr ()"
| "as_unit r = bail (os_error r)"

fun as_str :: "reply \<Rightarrow> string result" where
  "as_str (RStr s) = Inr s"
| "as_str r = bail (os_error r)"

fun as_int :: "reply \<Rightarrow> int result" where
  "as_int (RInt i) = Inr i"
| "as_int r = bail (os_error r)"

fun as_bool :: "reply \<Rightarrow> bool" where
  "as_bool (RBool b) = b"
| "as_bool _ = False"

text \<open>A call that returns nothing, a text, a number.\<close>

definition sys_unit :: "env \<Rightarrow> call \<Rightarrow> (history, unit) io" where
  "sys_unit env c = io_bind (sys env c) (\<lambda>r. io_lift (as_unit r))"

definition sys_str :: "env \<Rightarrow> call \<Rightarrow> (history, string) io" where
  "sys_str env c = io_bind (sys env c) (\<lambda>r. io_lift (as_str r))"

definition sys_int :: "env \<Rightarrow> call \<Rightarrow> (history, int) io" where
  "sys_int env c = io_bind (sys env c) (\<lambda>r. io_lift (as_int r))"

text \<open>\<open>Path::exists\<close> and the getters of ids cannot fail.\<close>

definition sys_exists :: "env \<Rightarrow> string \<Rightarrow> (history, bool) io" where
  "sys_exists env p = io_bind (sys env (File (PathExists p))) (\<lambda>r. io_return (as_bool r))"

fun reply_id :: "reply \<Rightarrow> int" where
  "reply_id (RInt i) = i"
| "reply_id _ = 0"

definition sys_id :: "env \<Rightarrow> call \<Rightarrow> (history, int) io" where
  "sys_id env c = io_bind (sys env c) (\<lambda>r. io_return (reply_id r))"

text \<open>A call whose failure is reported by \<open>bail!\<close> with the text of the error after a message.\<close>

definition sys_or_bail :: "env \<Rightarrow> call \<Rightarrow> string \<Rightarrow> (history, unit) io" where
  "sys_or_bail env c msg =
     io_bind (sys env c) (\<lambda>r. if r = ROk then io_return () else io_bail (msg @ os_error r))"

text \<open>\<open>Utc::now()\<close>, answered with the text the program prints the time as: chrono's \<open>to_rfc3339\<close>, or in an event its
  serde form. The time of such an event is therefore the text of its JSON form.\<close>

definition now_rfc3339 :: "env \<Rightarrow> (history, string) io" where
  "now_rfc3339 env = io_bind (sys env UtcNow) (\<lambda>r. io_return (case r of RStr s \<Rightarrow> s | _ \<Rightarrow> []))"

abbreviation event_json :: "string event \<Rightarrow> json" where
  "event_json e \<equiv> event_to_json (\<lambda>ts. ts) e"

definition store :: "env \<Rightarrow> store_call \<Rightarrow> (history, unit) io" where
  "store env c = sys_unit env (StoreCall c)"

section \<open>Histories of the primitives\<close>

lemma sys_trace: "sys env c h = (r, h') \<Longrightarrow> h' = h @ [(c, env h c)]"
  by (auto simp: sys_def Let_def)

lemma sys_ok: "sys env c h = (Inr r, h') \<longleftrightarrow> r = env h c \<and> r \<noteq> RKilled \<and> h' = h @ [(c, r)]"
  by (auto simp: sys_def Let_def)

lemma as_unit_ok [simp]: "as_unit r = Inr u \<longleftrightarrow> r = ROk" "Inr u = as_unit r \<longleftrightarrow> r = ROk"
  by (cases r; auto simp: bail_def)+

lemma as_str_ok [simp]: "as_str r = Inr s \<longleftrightarrow> r = RStr s" "Inr s = as_str r \<longleftrightarrow> r = RStr s"
  by (cases r; auto simp: bail_def)+

lemma as_int_ok [simp]: "as_int r = Inr i \<longleftrightarrow> r = RInt i" "Inr i = as_int r \<longleftrightarrow> r = RInt i"
  by (cases r; auto simp: bail_def)+

lemma sys_unit_ok: "sys_unit env c h = (Inr u, h') \<longleftrightarrow> env h c = ROk \<and> h' = h @ [(c, ROk)]"
  by (auto simp: sys_unit_def io_bind_ok sys_ok)

lemma sys_unit_err: "sys_unit env c h = (Inl e, h') \<Longrightarrow> env h c \<noteq> ROk \<and> h' = h @ [(c, env h c)]"
  by (auto simp: sys_unit_def io_bind_cases sys_def Let_def split: if_splits)

lemma sys_str_ok: "sys_str env c h = (Inr s, h') \<longleftrightarrow> env h c = RStr s \<and> h' = h @ [(c, RStr s)]"
  by (auto simp: sys_str_def io_bind_ok sys_ok)

lemma sys_int_ok: "sys_int env c h = (Inr i, h') \<longleftrightarrow> env h c = RInt i \<and> h' = h @ [(c, RInt i)]"
  by (auto simp: sys_int_def io_bind_ok sys_ok)

lemma sys_or_bail_ok: "sys_or_bail env c msg h = (Inr u, h') \<longleftrightarrow> env h c = ROk \<and> h' = h @ [(c, ROk)]"
  by (auto simp: sys_or_bail_def io_bind_ok sys_ok)

lemma emits_sys [emits_intros]: "(\<And>r. P (c, r)) \<Longrightarrow> emits P (sys env c)"
  by (rule emitsI) (auto dest: sys_trace)

lemma emits_sys_unit [emits_intros]: "(\<And>r. P (c, r)) \<Longrightarrow> emits P (sys_unit env c)"
  and emits_sys_str [emits_intros]: "(\<And>r. P (c, r)) \<Longrightarrow> emits P (sys_str env c)"
  and emits_sys_int [emits_intros]: "(\<And>r. P (c, r)) \<Longrightarrow> emits P (sys_int env c)"
  and emits_sys_id [emits_intros]: "(\<And>r. P (c, r)) \<Longrightarrow> emits P (sys_id env c)"
  and emits_sys_or_bail [emits_intros]: "(\<And>r. P (c, r)) \<Longrightarrow> emits P (sys_or_bail env c msg)"
  unfolding sys_unit_def sys_str_def sys_int_def sys_id_def sys_or_bail_def
  by (auto intro!: emits_intros)

lemma emits_sys_exists [emits_intros]: "(\<And>r. P (File (PathExists p), r)) \<Longrightarrow> emits P (sys_exists env p)"
  unfolding sys_exists_def by (auto intro!: emits_intros)

lemma emits_now [emits_intros]: "(\<And>r. P (UtcNow, r)) \<Longrightarrow> emits P (now_rfc3339 env)"
  unfolding now_rfc3339_def by (auto intro!: emits_intros)

lemma emits_store [emits_intros]: "(\<And>r. P (StoreCall c, r)) \<Longrightarrow> emits P (store env c)"
  unfolding store_def by (auto intro!: emits_intros)

lemma must_sys_unit: "must [\<lambda>e. e = (c, ROk)] (sys_unit env c)"
  by (auto simp: must_def sys_unit_ok)

lemma must_sys_or_bail: "must [\<lambda>e. e = (c, ROk)] (sys_or_bail env c msg)"
  by (auto simp: must_def sys_or_bail_ok)

section \<open>The store behind the calls\<close>

text \<open>The store calls of a history, and those among them that were accepted.\<close>

fun store_calls :: "history \<Rightarrow> store_call list" where
  "store_calls [] = []"
| "store_calls ((StoreCall c, r) # h) = c # store_calls h"
| "store_calls (_ # h) = store_calls h"

fun accepted_calls :: "history \<Rightarrow> store_call list" where
  "accepted_calls [] = []"
| "accepted_calls ((StoreCall c, r) # h) = (if r = ROk then c # accepted_calls h else accepted_calls h)"
| "accepted_calls (_ # h) = accepted_calls h"

lemma store_calls_append [simp]: "store_calls (h @ t) = store_calls h @ store_calls t"
  by (induction h rule: store_calls.induct) auto

lemma accepted_calls_append [simp]: "accepted_calls (h @ t) = accepted_calls h @ accepted_calls t"
  by (induction h rule: accepted_calls.induct) auto

lemma accepted_calls_iff: "c \<in> set (accepted_calls h) \<longleftrightarrow> (StoreCall c, ROk) \<in> set h"
  by (induction h rule: accepted_calls.induct) auto

text \<open>An environment whose store is the implementation \<open>ops\<close>, started in \<open>s0\<close>.\<close>

definition backed_by :: "'s store_ops \<Rightarrow> 's \<Rightarrow> env \<Rightarrow> bool" where
  "backed_by ops s0 env \<longleftrightarrow>
     (\<forall>h c. env h (StoreCall c) = ROk \<longleftrightarrow>
            is_ok (fst (store_do ops c (snd (store_run ops (store_calls h) s0)))))"

end
