(* ===== verification/Caps.thy ===== *)
theory Caps
  imports Sys
begin

unbundle bit_operations_syntax

text \<open>
  The capability policy of \<open>src/isolate/caps.rs\<close>: parsing of the names, the preflight, the drop from
  the bounding and ambient sets, one \<open>capset\<close>, and the verification of what the kernel then reports.

  Lemmas: the bit operations on the two 32-bit words, what holds of any kernel's answers after a
  success, what the calls before any call that changes capabilities have established, and the result on a
  kernel that answers as documented.
\<close>

section \<open>Constants and the data of capget\<close>

definition linux_capability_version_3 :: u32 where
  "linux_capability_version_3 = 0x20080522"

definition cap_words :: u32 where
  "cap_words = 2"

definition cap_setpcap :: u32 where
  "cap_setpcap = 8"

text \<open>The array \<open>[UserCapData; CAP_WORDS]\<close>.\<close>

type_synonym cap_data = "cap_word \<times> cap_word"

definition data_at :: "cap_data \<Rightarrow> u32 \<Rightarrow> cap_word" where
  "data_at d w = (if w = 0 then fst d else snd d)"

definition data_upd :: "cap_data \<Rightarrow> u32 \<Rightarrow> cap_word \<Rightarrow> cap_data" where
  "data_upd d w x = (if w = 0 then (x, snd d) else (fst d, x))"

record capability_spec =
  cs_canonical :: string
  cs_number :: u32

record capability_state =
  st_effective :: bool
  st_permitted :: bool
  st_inheritable :: bool
  st_bounding :: bool
  st_ambient :: bool

section \<open>Names and bits\<close>

definition cap_names :: "(string \<times> u32) list" where
  "cap_names =
  [(''CAP_CHOWN'', 0), (''CAP_DAC_OVERRIDE'', 1), (''CAP_DAC_READ_SEARCH'', 2),
   (''CAP_FOWNER'', 3), (''CAP_FSETID'', 4), (''CAP_KILL'', 5),
   (''CAP_SETGID'', 6), (''CAP_SETUID'', 7), (''CAP_SETPCAP'', 8),
   (''CAP_LINUX_IMMUTABLE'', 9), (''CAP_NET_BIND_SERVICE'', 10), (''CAP_NET_BROADCAST'', 11),
   (''CAP_NET_ADMIN'', 12), (''CAP_NET_RAW'', 13), (''CAP_IPC_LOCK'', 14),
   (''CAP_IPC_OWNER'', 15), (''CAP_SYS_MODULE'', 16), (''CAP_SYS_RAWIO'', 17),
   (''CAP_SYS_CHROOT'', 18), (''CAP_SYS_PTRACE'', 19), (''CAP_SYS_PACCT'', 20),
   (''CAP_SYS_ADMIN'', 21), (''CAP_SYS_BOOT'', 22), (''CAP_SYS_NICE'', 23),
   (''CAP_SYS_RESOURCE'', 24), (''CAP_SYS_TIME'', 25), (''CAP_SYS_TTY_CONFIG'', 26),
   (''CAP_MKNOD'', 27), (''CAP_LEASE'', 28), (''CAP_AUDIT_WRITE'', 29),
   (''CAP_AUDIT_CONTROL'', 30), (''CAP_SETFCAP'', 31), (''CAP_MAC_OVERRIDE'', 32),
   (''CAP_MAC_ADMIN'', 33), (''CAP_SYSLOG'', 34), (''CAP_WAKE_ALARM'', 35),
   (''CAP_BLOCK_SUSPEND'', 36), (''CAP_AUDIT_READ'', 37), (''CAP_PERFMON'', 38),
   (''CAP_BPF'', 39), (''CAP_CHECKPOINT_RESTORE'', 40)]"

definition cap_name_to_num :: "string \<Rightarrow> u32 option" where
  "cap_name_to_num name = map_of cap_names name"

definition parse_capability :: "string \<Rightarrow> capability_spec result" where
  "parse_capability raw =
     (let trimmed = trim raw in
      if trimmed = [] then bail ''Capability name cannot be empty''
      else
        let upper = to_ascii_uppercase trimmed;
            canonical = (if prefix ''CAP_'' upper then upper else ''CAP_'' @ upper)
        in res_bind (opt_ctx (''Unknown capability name: '' @ raw) (cap_name_to_num canonical))
             (\<lambda>number. Inr \<lparr>cs_canonical = canonical, cs_number = number\<rparr>))"

definition bit_position :: "u32 \<Rightarrow> (u32 \<times> u32) result" where
  "bit_position cap =
     (let word = cap div 32 in
      if cap_words \<le> word
      then bail (''Capability '' @ show_word cap @ '' exceeds supported capability ABI width'')
      else Inr (word, push_bit (unat (cap mod 32)) 1))"

definition has_set_bit :: "(cap_word \<Rightarrow> u32) \<Rightarrow> cap_data \<Rightarrow> u32 \<Rightarrow> bool result" where
  "has_set_bit sel d cap =
     res_bind (bit_position cap) (\<lambda>(word, mask). Inr (sel (data_at d word) AND mask \<noteq> 0))"

definition has_effective :: "cap_data \<Rightarrow> u32 \<Rightarrow> bool" where
  "has_effective d cap = (case has_set_bit cw_effective d cap of Inr b \<Rightarrow> b | Inl _ \<Rightarrow> False)"

definition clear_capability_bits :: "cap_data \<Rightarrow> u32 \<Rightarrow> cap_data result" where
  "clear_capability_bits d cap =
     res_bind (bit_position cap) (\<lambda>(word, mask).
       let x = data_at d word in
       Inr (data_upd d word
         \<lparr>cw_effective = cw_effective x AND NOT mask,
          cw_permitted = cw_permitted x AND NOT mask,
          cw_inheritable = cw_inheritable x AND NOT mask\<rparr>))"

fun clear_all :: "cap_data \<Rightarrow> u32 list \<Rightarrow> cap_data result" where
  "clear_all d [] = Inr d"
| "clear_all d (cap # caps) = res_bind (clear_capability_bits d cap) (\<lambda>d'. clear_all d' caps)"

section \<open>The system calls\<close>

definition read_cap_last_cap :: "env \<Rightarrow> (history, u32) io" where
  "read_cap_last_cap env =
     io_bind (io_ctx ''Failed to read /proc/sys/kernel/cap_last_cap''
                (sys_str env (File (ReadToString ''/proc/sys/kernel/cap_last_cap'')))) (\<lambda>raw.
       io_ctx ''Invalid /proc/sys/kernel/cap_last_cap value''
         (io_lift (res_bind (parse_uint (2 ^ 32) (trim raw)) (\<lambda>n. Inr (of_nat n)))))"

definition capget_current :: "env \<Rightarrow> (history, cap_data) io" where
  "capget_current env =
     io_bind (sys env (Cap Capget)) (\<lambda>r.
       case r of
         RCaps version d \<Rightarrow>
           if version \<noteq> linux_capability_version_3
           then io_bail (''Kernel returned unexpected capability ABI version: 0x'' @ show_hex (unat version))
           else io_return d
       | _ \<Rightarrow> io_bail (''capget failed: '' @ os_error r))"

definition capset_current :: "env \<Rightarrow> cap_data \<Rightarrow> (history, unit) io" where
  "capset_current env d = sys_or_bail env (Cap (Capset d)) ''capset failed: ''"

definition read_flag :: "env \<Rightarrow> cap_call \<Rightarrow> string \<Rightarrow> u32 \<Rightarrow> (history, bool) io" where
  "read_flag env c op cap =
     io_bind (sys env (Cap c)) (\<lambda>r.
       if r = RInt 0 then io_return False
       else if r = RInt 1 then io_return True
       else io_bail (op @ ''('' @ show_word cap @ '') failed: '' @ os_error r))"

definition read_bounding :: "env \<Rightarrow> u32 \<Rightarrow> (history, bool) io" where
  "read_bounding env cap = read_flag env (CapbsetRead cap) ''PR_CAPBSET_READ'' cap"

definition drop_bounding :: "env \<Rightarrow> u32 \<Rightarrow> (history, unit) io" where
  "drop_bounding env cap =
     sys_or_bail env (Cap (CapbsetDrop cap)) (''PR_CAPBSET_DROP('' @ show_word cap @ '') failed: '')"

definition read_ambient :: "env \<Rightarrow> u32 \<Rightarrow> (history, bool) io" where
  "read_ambient env cap = read_flag env (AmbientIsSet cap) ''PR_CAP_AMBIENT_IS_SET'' cap"

definition lower_ambient :: "env \<Rightarrow> u32 \<Rightarrow> (history, unit) io" where
  "lower_ambient env cap =
     sys_or_bail env (Cap (AmbientLower cap)) (''PR_CAP_AMBIENT_LOWER('' @ show_word cap @ '') failed: '')"

definition read_state :: "env \<Rightarrow> cap_data \<Rightarrow> u32 \<Rightarrow> (history, capability_state) io" where
  "read_state env d cap =
     io_bind (io_lift (has_set_bit cw_effective d cap)) (\<lambda>e.
     io_bind (io_lift (has_set_bit cw_permitted d cap)) (\<lambda>p.
     io_bind (io_lift (has_set_bit cw_inheritable d cap)) (\<lambda>i.
     io_bind (read_bounding env cap) (\<lambda>b.
     io_bind (read_ambient env cap) (\<lambda>a.
     io_return \<lparr>st_effective = e, st_permitted = p, st_inheritable = i,
                st_bounding = b, st_ambient = a\<rparr>)))))"

section \<open>The policy\<close>

text \<open>Parsing and validation of the whole policy; the set is kept as its sorted list of members.\<close>

fun collect_requested :: "u32 \<Rightarrow> u32 list \<Rightarrow> string list \<Rightarrow> u32 list result" where
  "collect_requested last_cap requested [] = Inr requested"
| "collect_requested last_cap requested (raw # raws) =
     res_bind (parse_capability raw) (\<lambda>spec.
       if last_cap < cs_number spec
       then bail (''Capability '' @ cs_canonical spec @ '' ('' @ show_word (cs_number spec) @
                  '') is not supported by this kernel (cap_last_cap='' @ show_word last_cap @ '')'')
       else collect_requested last_cap (insort_insert (cs_number spec) requested) raws)"

definition show_flag :: "bool \<Rightarrow> string" where
  "show_flag b = (if b then ''true'' else ''false'')"

definition show_capability_state :: "capability_state \<Rightarrow> string" where
  "show_capability_state s =
     ''CapabilityState { effective: '' @ show_flag (st_effective s) @
     '', permitted: '' @ show_flag (st_permitted s) @
     '', inheritable: '' @ show_flag (st_inheritable s) @
     '', bounding: '' @ show_flag (st_bounding s) @
     '', ambient: '' @ show_flag (st_ambient s) @ '' }''"

definition drop_bounding_if_set :: "env \<Rightarrow> u32 \<Rightarrow> (history, unit) io" where
  "drop_bounding_if_set env cap =
     io_bind (read_bounding env cap) (\<lambda>present.
       io_when present (io_ctx (''Failed to drop capability '' @ show_word cap @ '' from bounding set'')
         (drop_bounding env cap)))"

definition lower_ambient_if_set :: "env \<Rightarrow> u32 \<Rightarrow> (history, unit) io" where
  "lower_ambient_if_set env cap =
     io_bind (read_ambient env cap) (\<lambda>present.
       io_when present (io_ctx (''Failed to lower ambient capability '' @ show_word cap)
         (lower_ambient env cap)))"

definition verify_dropped :: "env \<Rightarrow> cap_data \<Rightarrow> u32 \<Rightarrow> (history, unit) io" where
  "verify_dropped env verified cap =
     io_bind (read_state env verified cap) (\<lambda>after.
       if st_effective after \<or> st_permitted after \<or> st_inheritable after \<or>
          st_bounding after \<or> st_ambient after
       then io_bail (''Capability '' @ show_word cap @ '' remained present after enforcement: '' @
                     show_capability_state after)
       else io_return ())"

text \<open>The changes and their verification, after the preflight.\<close>

definition apply_drop :: "env \<Rightarrow> cap_data \<Rightarrow> u32 list \<Rightarrow> (history, unit) io" where
  "apply_drop env d requested =
     io_bind (io_collect (read_state env d) requested) (\<lambda>before.
     io_seq (io_each (drop_bounding_if_set env) requested)
     (io_seq (io_each (lower_ambient_if_set env) requested)
     (io_bind (io_lift (clear_all d requested)) (\<lambda>d'.
     io_seq (capset_current env d')
     (io_bind (capget_current env) (\<lambda>verified.
     io_each (verify_dropped env verified) requested))))))"

definition drop_if_permitted :: "env \<Rightarrow> cap_data \<Rightarrow> u32 list \<Rightarrow> bool list \<Rightarrow> (history, unit) io" where
  "drop_if_permitted env d requested present =
     (let needs_bounding_drop = (True \<in> set present) in
      if needs_bounding_drop \<and> \<not> has_effective d cap_setpcap
      then io_bail ''Capability policy requires bounding-set changes but CAP_SETPCAP is not effective; refusing partial enforcement''
      else apply_drop env d requested)"

definition enforce_drop :: "env \<Rightarrow> u32 list \<Rightarrow> (history, unit) io" where
  "enforce_drop env requested =
     io_bind (capget_current env) (\<lambda>d.
     io_bind (io_collect (read_bounding env) requested) (drop_if_permitted env d requested))"

definition drop_capabilities :: "env \<Rightarrow> string list \<Rightarrow> (history, unit) io" where
  "drop_capabilities env caps_to_drop =
     (if caps_to_drop = [] then io_return ()
      else
        io_bind (read_cap_last_cap env) (\<lambda>last_cap.
        io_bind (io_lift (collect_requested last_cap [] caps_to_drop)) (enforce_drop env)))"

section \<open>Bits\<close>

definition cap_in :: "(cap_word \<Rightarrow> u32) \<Rightarrow> cap_data \<Rightarrow> u32 \<Rightarrow> bool" where
  "cap_in sel d cap \<longleftrightarrow> cap < 64 \<and> bit (sel (data_at d (cap div 32))) (unat (cap mod 32))"

lemma word_count: "cap_words \<le> cap div 32 \<longleftrightarrow> \<not> cap < (64 :: u32)"
  by (simp add: cap_words_def word_le_nat_alt word_less_nat_alt unat_div) linarith

lemma bit_position_ok:
  "bit_position cap = Inr (w, m) \<longleftrightarrow> cap < 64 \<and> w = cap div 32 \<and> m = 2 ^ unat (cap mod 32)"
  by (auto simp: bit_position_def Let_def word_count push_bit_of_1)

lemma bit_position_err: "\<not> cap < 64 \<Longrightarrow> \<exists>e. bit_position cap = Inl e"
  by (auto simp: bit_position_def Let_def word_count bail_def)

lemma has_set_bit_ok: "has_set_bit sel d cap = Inr b \<longleftrightarrow> cap < 64 \<and> b = cap_in sel d cap"
  by (auto simp: has_set_bit_def cap_in_def bit_position_ok and_exp_eq_0_iff_not_bit)

lemma has_effective_iff [simp]: "has_effective d cap = cap_in cw_effective d cap"
proof (cases "cap < 64")
  case True
  then have "has_set_bit cw_effective d cap = Inr (cap_in cw_effective d cap)" by (simp add: has_set_bit_ok)
  then show ?thesis by (simp add: has_effective_def)
next
  case False
  then obtain e where "bit_position cap = Inl e" using bit_position_err by auto
  with False show ?thesis by (simp add: has_effective_def has_set_bit_def cap_in_def)
qed

lemma same_bit: "(a :: u32) div 32 = b div 32 \<Longrightarrow> unat (a mod 32) = unat (b mod 32) \<Longrightarrow> a = b"
  by (metis div_mult_mod_eq word_unat_eq_iff)

lemma data_sides: "c < 64 \<Longrightarrow> (c :: u32) div 32 = 0 \<or> c div 32 = 1"
proof -
  assume "c < 64"
  then have "unat (c div 32) < 2" by (simp add: word_less_nat_alt unat_div)
  then have "unat (c div 32) = 0 \<or> unat (c div 32) = 1" by linarith
  then show ?thesis by (metis unat_0 unat_1 word_unat_eq_iff)
qed

lemma low_bit: "unat (c mod 32 :: u32) < 32"
  by (simp add: unat_mod)

lemma clear_bits_exact:
  assumes "cap < 64"
  obtains d' where "clear_capability_bits d cap = Inr d'"
    "\<And>c. cap_in cw_effective d' c \<longleftrightarrow> cap_in cw_effective d c \<and> c \<noteq> cap"
    "\<And>c. cap_in cw_permitted d' c \<longleftrightarrow> cap_in cw_permitted d c \<and> c \<noteq> cap"
    "\<And>c. cap_in cw_inheritable d' c \<longleftrightarrow> cap_in cw_inheritable d c \<and> c \<noteq> cap"
proof -
  let ?m = "2 ^ unat (cap mod 32) :: u32" and ?x = "data_at d (cap div 32)"
  let ?d' = "data_upd d (cap div 32)
         \<lparr>cw_effective = cw_effective ?x AND NOT ?m, cw_permitted = cw_permitted ?x AND NOT ?m,
          cw_inheritable = cw_inheritable ?x AND NOT ?m\<rparr>"
  have bp: "bit_position cap = Inr (cap div 32, ?m)" using assms by (simp add: bit_position_ok)
  have "clear_capability_bits d cap = Inr ?d'"
    by (simp add: clear_capability_bits_def bp Let_def)
  moreover have "cap_in sel ?d' c \<longleftrightarrow> cap_in sel d c \<and> c \<noteq> cap"
    if "sel = cw_effective \<or> sel = cw_permitted \<or> sel = cw_inheritable" for sel c
  proof (cases "c < 64")
    case True
    have m: "bit ?m (unat (c mod 32)) \<longleftrightarrow> unat (c mod 32) = unat (cap mod 32)"
      using low_bit [of cap] by (auto simp: bit_exp_iff)
    show ?thesis
      using data_sides [OF True] data_sides [OF assms] low_bit [of c] that m same_bit [of c cap]
      by (auto simp: cap_in_def data_at_def data_upd_def bit_and_iff bit_not_iff)
  qed (simp add: cap_in_def)
  ultimately show ?thesis using that by blast
qed

lemma clear_all_exact:
  assumes "\<forall>c \<in> set caps. c < 64"
  shows "\<exists>d'. clear_all d caps = Inr d' \<and>
    (\<forall>c. cap_in cw_effective d' c \<longleftrightarrow> cap_in cw_effective d c \<and> c \<notin> set caps) \<and>
    (\<forall>c. cap_in cw_permitted d' c \<longleftrightarrow> cap_in cw_permitted d c \<and> c \<notin> set caps) \<and>
    (\<forall>c. cap_in cw_inheritable d' c \<longleftrightarrow> cap_in cw_inheritable d c \<and> c \<notin> set caps)"
  using assms
proof (induction caps arbitrary: d)
  case (Cons cap caps)
  then have "cap < 64" by simp
  from clear_bits_exact [OF this, of d] obtain d1 where d1: "clear_capability_bits d cap = Inr d1"
    "\<And>c. cap_in cw_effective d1 c \<longleftrightarrow> cap_in cw_effective d c \<and> c \<noteq> cap"
    "\<And>c. cap_in cw_permitted d1 c \<longleftrightarrow> cap_in cw_permitted d c \<and> c \<noteq> cap"
    "\<And>c. cap_in cw_inheritable d1 c \<longleftrightarrow> cap_in cw_inheritable d c \<and> c \<noteq> cap" by blast
  with Cons.IH [of d1] Cons.prems show ?case by auto
qed simp

section \<open>Any kernel\<close>

fun mutates :: "call \<times> reply \<Rightarrow> bool" where
  "mutates (Cap (Capset d), r) = True"
| "mutates (Cap (CapbsetDrop c), r) = True"
| "mutates (Cap (AmbientLower c), r) = True"
| "mutates _ = False"

definition reads_zero :: "u32 \<Rightarrow> history \<Rightarrow> bool" where
  "reads_zero c t \<longleftrightarrow> (Cap (CapbsetRead c), RInt 0) \<in> set t \<and> (Cap (AmbientIsSet c), RInt 0) \<in> set t"

lemma read_flag_ok:
  "read_flag env c op cap h = (Inr b, h') \<longleftrightarrow>
     (\<exists>n. env h (Cap c) = RInt n \<and> n = (if b then 1 else 0) \<and> h' = h @ [(Cap c, RInt n)])"
  by (auto simp: read_flag_def io_bind_ok sys_ok split: if_splits)

lemma capget_ok:
  "capget_current env h = (Inr d, h') \<longleftrightarrow>
     env h (Cap Capget) = RCaps linux_capability_version_3 d \<and>
     h' = h @ [(Cap Capget, RCaps linux_capability_version_3 d)]"
  by (auto simp: capget_current_def io_bind_ok sys_ok split: reply.splits if_splits)

lemma emits_read_flag [emits_intros]: "(\<And>r. P (Cap c, r)) \<Longrightarrow> emits P (read_flag env c op cap)"
  unfolding read_flag_def by (auto intro!: emits_intros)

lemma emits_capget [emits_intros]: "(\<And>r. P (Cap Capget, r)) \<Longrightarrow> emits P (capget_current env)"
  unfolding capget_current_def by (auto intro!: emits_intros split: reply.splits)

lemma emits_read_state [emits_intros]:
  "(\<And>r. P (Cap (CapbsetRead c), r)) \<Longrightarrow> (\<And>r. P (Cap (AmbientIsSet c), r)) \<Longrightarrow> emits P (read_state env d c)"
  unfolding read_state_def read_bounding_def read_ambient_def by (auto intro!: emits_intros)

lemma emits_verify [emits_intros]:
  "(\<And>r. P (Cap (CapbsetRead c), r)) \<Longrightarrow> (\<And>r. P (Cap (AmbientIsSet c), r)) \<Longrightarrow> emits P (verify_dropped env d c)"
  unfolding verify_dropped_def by (auto intro!: emits_intros)

lemma read_state_ok:
  assumes "read_state env d c h = (Inr s, h')"
  shows "\<exists>t. h' = h @ t \<and> c < 64 \<and> st_effective s = cap_in cw_effective d c \<and>
    st_permitted s = cap_in cw_permitted d c \<and> st_inheritable s = cap_in cw_inheritable d c \<and>
    (Cap (CapbsetRead c), RInt (if st_bounding s then 1 else 0)) \<in> set t \<and>
    (Cap (AmbientIsSet c), RInt (if st_ambient s then 1 else 0)) \<in> set t"
  using assms
  by (auto simp: read_state_def io_bind_ok has_set_bit_ok read_bounding_def read_ambient_def
      read_flag_ok)

lemma verify_dropped_ok:
  assumes "verify_dropped env d c h = (Inr (), h')"
  shows "\<exists>t. h' = h @ t \<and> \<not> cap_in cw_effective d c \<and> \<not> cap_in cw_permitted d c \<and>
    \<not> cap_in cw_inheritable d c \<and> reads_zero c t"
proof -
  from assms obtain s where "read_state env d c h = (Inr s, h')" and
    "\<not> st_effective s" "\<not> st_permitted s" "\<not> st_inheritable s" "\<not> st_bounding s" "\<not> st_ambient s"
    by (auto simp: verify_dropped_def io_bind_ok split: if_splits)
  with read_state_ok [OF this(1)] show ?thesis by (auto simp: reads_zero_def)
qed

lemma emits_collect_bounding: "emits (\<lambda>e. \<not> mutates e) (io_collect (read_bounding env) cs)"
  unfolding read_bounding_def by (intro emits_intros) simp

lemma emits_drop_if_permitted: "emits (\<lambda>_. True) (drop_if_permitted env d requested present)"
  unfolding drop_if_permitted_def apply_drop_def Let_def drop_bounding_if_set_def
    lower_ambient_if_set_def read_bounding_def read_ambient_def drop_bounding_def lower_ambient_def
    capset_current_def
  by (intro emits_intros) simp_all

lemma emits_preflight:
  "emits (\<lambda>_. True) (io_bind (io_collect (read_bounding env) cs) (drop_if_permitted env d cs))"
  by (intro emits_bind emits_drop_if_permitted emits_mono [OF emits_collect_bounding]) simp

lemma emits_enforce: "emits (\<lambda>_. True) (enforce_drop env requested)"
  unfolding enforce_drop_def by (intro emits_bind emits_preflight emits_capget) simp

lemma verify_all_ok:
  assumes "io_each (verify_dropped env d) cs h = (Inr (), h')"
  shows "\<exists>t. h' = h @ t \<and> (\<forall>e \<in> set t. \<not> mutates e) \<and>
    (\<forall>c \<in> set cs. \<not> cap_in cw_effective d c \<and> \<not> cap_in cw_permitted d c \<and>
       \<not> cap_in cw_inheritable d c \<and> reads_zero c t)"
proof -
  have "\<And>c. emits (\<lambda>e. \<not> mutates e) (verify_dropped env d c)" by (intro emits_intros) simp_all
  from io_each_ok [OF assms this] obtain t where t: "h' = h @ t" "\<forall>e \<in> set t. \<not> mutates e"
    "\<forall>c \<in> set cs. \<exists>h1 t1. verify_dropped env d c h1 = (Inr (), h1 @ t1) \<and> set t1 \<subseteq> set t" by blast
  have "\<not> cap_in cw_effective d c \<and> \<not> cap_in cw_permitted d c \<and> \<not> cap_in cw_inheritable d c \<and>
      reads_zero c t" if "c \<in> set cs" for c
    using t(3) that verify_dropped_ok by (fastforce simp: reads_zero_def)
  with t show ?thesis by blast
qed

lemma enforce_ok:
  assumes "enforce_drop env rq h = (Inr (), h')"
  shows "\<exists>u v d. h' = h @ u @ (Cap Capget, RCaps linux_capability_version_3 d) # v \<and>
    (\<forall>e \<in> set v. \<not> mutates e) \<and>
    (\<forall>c \<in> set rq. \<not> cap_in cw_effective d c \<and> \<not> cap_in cw_permitted d c \<and>
       \<not> cap_in cw_inheritable d c \<and> reads_zero c v)"
proof -
  from assms obtain d0 h0 present h1 before h2 h3 h4 d' h5 verified h6
    where steps: "capget_current env h = (Inr d0, h0)"
      "io_collect (read_bounding env) rq h0 = (Inr present, h1)"
      "io_collect (read_state env d0) rq h1 = (Inr before, h2)"
      "io_each (drop_bounding_if_set env) rq h2 = (Inr (), h3)"
      "io_each (lower_ambient_if_set env) rq h3 = (Inr (), h4)"
      "capset_current env d' h4 = (Inr (), h5)"
      "capget_current env h5 = (Inr verified, h6)"
      "io_each (verify_dropped env verified) rq h6 = (Inr (), h')"
    by (auto simp: enforce_drop_def drop_if_permitted_def apply_drop_def io_bind_ok io_seq_ok Let_def
        split: if_splits)
  have ex: "\<exists>t. b = a @ t" if "emits (\<lambda>_. True) m" "m a = (r, b)" for m :: "(history, 'b) io" and a r b
    using emits_grows [OF that] .
  have "\<exists>t. h5 = h @ t"
  proof -
    obtain t0 where "h0 = h @ t0" using emits_grows [OF emits_capget steps(1)] by blast
    moreover obtain t1 where "h1 = h0 @ t1"
      using emits_grows [OF emits_collect_bounding steps(2)] by blast
    moreover have "emits (\<lambda>_. True) (io_collect (read_state env d0) rq)" by (intro emits_intros) simp_all
    from emits_grows [OF this steps(3)] obtain t2 where "h2 = h1 @ t2" by blast
    moreover have "emits (\<lambda>_. True) (io_each (drop_bounding_if_set env) rq)"
      unfolding drop_bounding_if_set_def read_bounding_def drop_bounding_def by (intro emits_intros) simp_all
    from emits_grows [OF this steps(4)] obtain t3 where "h3 = h2 @ t3" by blast
    moreover have "emits (\<lambda>_. True) (io_each (lower_ambient_if_set env) rq)"
      unfolding lower_ambient_if_set_def read_ambient_def lower_ambient_def by (intro emits_intros) simp_all
    from emits_grows [OF this steps(5)] obtain t4 where "h4 = h3 @ t4" by blast
    moreover obtain t5 where "h5 = h4 @ t5"
      using steps(6) by (auto simp: capset_current_def sys_or_bail_ok)
    ultimately show ?thesis by auto
  qed
  then obtain u where u: "h5 = h @ u" by blast
  from steps(7) have h6: "h6 = h5 @ [(Cap Capget, RCaps linux_capability_version_3 verified)]"
    by (simp add: capget_ok)
  from verify_all_ok [OF steps(8)] obtain v where "h' = h6 @ v" "\<forall>e \<in> set v. \<not> mutates e"
    "\<forall>c \<in> set rq. \<not> cap_in cw_effective verified c \<and> \<not> cap_in cw_permitted verified c \<and>
       \<not> cap_in cw_inheritable verified c \<and> reads_zero c v" by blast
  with u h6 show ?thesis by (intro exI [of _ u] exI [of _ v] exI [of _ verified]) simp
qed

text \<open>The numbers a policy names.\<close>

definition requested_caps :: "string list \<Rightarrow> u32 set" where
  "requested_caps raws = {n. \<exists>raw \<in> set raws. \<exists>s. parse_capability raw = Inr s \<and> n = cs_number s}"

lemma set_collect_requested:
  "collect_requested last_cap rq raws = Inr rq' \<Longrightarrow>
     set rq' = set rq \<union> requested_caps raws \<and>
     (\<forall>raw \<in> set raws. \<exists>s. parse_capability raw = Inr s \<and> cs_number s \<le> last_cap)"
proof (induction last_cap rq raws rule: collect_requested.induct)
  case (2 last_cap rq raw raws)
  then obtain s where s: "parse_capability raw = Inr s" "\<not> last_cap < cs_number s"
    and rest: "collect_requested last_cap (insort_insert (cs_number s) rq) raws = Inr rq'"
    by (auto split: if_splits)
  from "2.IH" [OF s(2) rest] s show ?case
    by (auto simp: requested_caps_def set_insort_insert not_less)
qed (simp add: requested_caps_def)

text \<open>C14: When the capability policy reports success, then whatever the kernel answered before, the
  last \<open>capget\<close> and the reads after it show every requested capability absent from the effective,
  permitted, inheritable, bounding and ambient sets, and nothing that changes capabilities comes
  after that \<open>capget\<close>.\<close>
theorem drop_capabilities_verified:
  assumes "drop_capabilities env caps h = (Inr (), h')" "caps \<noteq> []"
  shows "\<exists>u v d. h' = h @ u @ (Cap Capget, RCaps linux_capability_version_3 d) # v \<and>
    (\<forall>e \<in> set v. \<not> mutates e) \<and>
    (\<forall>raw \<in> set caps. is_ok (parse_capability raw)) \<and>
    (\<forall>c \<in> requested_caps caps. \<not> cap_in cw_effective d c \<and> \<not> cap_in cw_permitted d c \<and>
       \<not> cap_in cw_inheritable d c \<and> reads_zero c v)"
proof -
  from assms obtain last_cap h0 rq where r: "read_cap_last_cap env h = (Inr last_cap, h0)"
    "collect_requested last_cap [] caps = Inr rq" "enforce_drop env rq h0 = (Inr (), h')"
    by (auto simp: drop_capabilities_def io_bind_ok)
  from r(1) obtain t0 where "h0 = h @ t0"
    by (auto simp: read_cap_last_cap_def io_bind_ok sys_str_ok)
  moreover from enforce_ok [OF r(3)] obtain u v d where
    "h' = h0 @ u @ (Cap Capget, RCaps linux_capability_version_3 d) # v"
    "\<forall>e \<in> set v. \<not> mutates e"
    "\<forall>c \<in> set rq. \<not> cap_in cw_effective d c \<and> \<not> cap_in cw_permitted d c \<and>
       \<not> cap_in cw_inheritable d c \<and> reads_zero c v" by blast
  moreover note set_collect_requested [OF r(2)]
  ultimately show ?thesis
    by (intro exI [of _ "t0 @ u"] exI [of _ v] exI [of _ d]) (auto simp: is_ok_iff)
qed

lemma collect_bounding_ok:
  assumes "io_collect (read_bounding env) cs h = (Inr present, h')"
  shows "\<exists>t. h' = h @ t \<and>
    (True \<notin> set present \<longrightarrow> (\<forall>c \<in> set cs. (Cap (CapbsetRead c), RInt 0) \<in> set t))"
  using assms
proof (induction cs arbitrary: h present)
  case (Cons c cs)
  then obtain b h1 bs where 1: "read_bounding env c h = (Inr b, h1)"
    "io_collect (read_bounding env) cs h1 = (Inr bs, h')" "present = b # bs"
    by (auto simp: io_bind_ok)
  from 1(1) have "h1 = h @ [(Cap (CapbsetRead c), RInt (if b then 1 else 0))]"
    by (auto simp: read_bounding_def read_flag_ok)
  with Cons.IH [OF 1(2)] 1(3) show ?case by (cases b) auto
qed simp

text \<open>What the preflight has established, in the calls made before the first change: the kernel's last capability was
  read, \<open>capget\<close> answered \<open>d\<close>, and what follows is \<open>b\<close>.\<close>

definition preflight_done :: "string list \<Rightarrow> history \<Rightarrow> bool" where
  "preflight_done caps u \<longleftrightarrow> (\<exists>raw n d b.
     u = (File (ReadToString ''/proc/sys/kernel/cap_last_cap''), RStr raw) #
         (Cap Capget, RCaps linux_capability_version_3 d) # b \<and>
     parse_uint (2 ^ 32) (trim raw) = Inr n \<and>
     (\<forall>name \<in> set caps. \<exists>s. parse_capability name = Inr s \<and> cs_number s \<le> of_nat n) \<and>
     (cap_in cw_effective d cap_setpcap \<or> (\<forall>c \<in> requested_caps caps. (Cap (CapbsetRead c), RInt 0) \<in> set b)))"

lemma requires_permitted:
  assumes "cap_in cw_effective d cap_setpcap \<or> True \<notin> set present \<Longrightarrow> \<forall>e u. R e u"
  shows "requires mutates R (drop_if_permitted env d rq present)"
proof (cases "cap_in cw_effective d cap_setpcap \<or> True \<notin> set present")
  case True
  with assms show ?thesis by (simp add: requires_def)
next
  case False
  then have "emits (\<lambda>e. \<not> mutates e) (drop_if_permitted env d rq present)"
    by (auto simp: drop_if_permitted_def Let_def intro: emits_intros)
  then show ?thesis by (rule requires_never)
qed

lemma requires_enforce:
  assumes "\<And>d b e u. cap_in cw_effective d cap_setpcap \<or> (\<forall>c \<in> set rq. (Cap (CapbsetRead c), RInt 0) \<in> set b) \<Longrightarrow>
     R e ((Cap Capget, RCaps linux_capability_version_3 d) # b @ u)"
  shows "requires mutates R (enforce_drop env rq)"
  unfolding enforce_drop_def
proof (rule requires_bind [OF _ emits_preflight])
  show "emits (\<lambda>e. \<not> mutates e) (capget_current env)" by (intro emits_intros) simp
  fix h d t assume "capget_current env h = (Inr d, h @ t)"
  then have t: "t = [(Cap Capget, RCaps linux_capability_version_3 d)]" by (simp add: capget_ok)
  show "requires mutates (\<lambda>e u. R e (t @ u)) (io_bind (io_collect (read_bounding env) rq) (drop_if_permitted env d rq))"
  proof (rule requires_bind [OF emits_collect_bounding emits_drop_if_permitted], rule requires_permitted)
    fix h1 present b
    assume "io_collect (read_bounding env) rq h1 = (Inr present, h1 @ b)"
      "cap_in cw_effective d cap_setpcap \<or> True \<notin> set present"
    then have "cap_in cw_effective d cap_setpcap \<or> (\<forall>c \<in> set rq. (Cap (CapbsetRead c), RInt 0) \<in> set b)"
      using collect_bounding_ok by fastforce
    with assms t show "\<forall>e u. R e (t @ b @ u)" by simp
  qed
qed

lemma read_cap_last_cap_ok:
  "read_cap_last_cap env h = (Inr last_cap, h') \<Longrightarrow>
     \<exists>raw n. h' = h @ [(File (ReadToString ''/proc/sys/kernel/cap_last_cap''), RStr raw)] \<and>
       parse_uint (2 ^ 32) (trim raw) = Inr n \<and> last_cap = of_nat n"
  by (auto simp: read_cap_last_cap_def io_bind_ok sys_str_ok simp del: power_numeral)

lemma requires_preflight: "requires mutates (\<lambda>_. preflight_done caps) (drop_capabilities env caps)"
proof (cases "caps = []")
  case True
  then show ?thesis by (simp add: drop_capabilities_def requires_never emits_return)
next
  case False
  have "requires mutates (\<lambda>_. preflight_done caps) (io_bind (read_cap_last_cap env) (\<lambda>last_cap.
      io_bind (io_lift (collect_requested last_cap [] caps)) (enforce_drop env)))"
  proof (rule requires_bind [OF _ emits_bind [OF emits_lift emits_enforce]])
    show "emits (\<lambda>e. \<not> mutates e) (read_cap_last_cap env)" unfolding read_cap_last_cap_def by (intro emits_intros) simp
    fix h last_cap t assume "read_cap_last_cap env h = (Inr last_cap, h @ t)"
    from read_cap_last_cap_ok [OF this] obtain raw n where
      t: "t = [(File (ReadToString ''/proc/sys/kernel/cap_last_cap''), RStr raw)]" "parse_uint (2 ^ 32) (trim raw) = Inr n"
        "last_cap = of_nat n" by auto
    show "requires mutates (\<lambda>_ u. preflight_done caps (t @ u)) (io_bind (io_lift (collect_requested last_cap [] caps)) (enforce_drop env))"
    proof (rule requires_bind [OF emits_lift emits_enforce])
      fix h1 rq and t1 :: history assume "io_lift (collect_requested last_cap [] caps) h1 = (Inr rq, h1 @ t1)"
      then have rq: "collect_requested last_cap [] caps = Inr rq" and "t1 = []" by auto
      then show "requires mutates (\<lambda>_ u. preflight_done caps (t @ t1 @ u)) (enforce_drop env rq)"
        using set_collect_requested [OF rq] t unfolding preflight_done_def by (intro requires_enforce) fastforce
    qed
  qed
  with False show ?thesis by (simp add: drop_capabilities_def)
qed

text \<open>C15: Whenever a call that changes capabilities is made, the calls before it began with reading the number of the
  kernel's last capability and the task's sets; every name of the policy is known and not above that last
  capability, and either the sets show \<open>CAP_SETPCAP\<close> effective or every requested capability was, before this call,
  read as absent from the bounding set. A policy that cannot be enforced is refused before anything irreversible.\<close>
theorem drop_capabilities_preflight:
  assumes "drop_capabilities env caps h = (r, h @ u @ e # v)" "mutates e"
  shows "\<exists>raw n d b.
     u = (File (ReadToString ''/proc/sys/kernel/cap_last_cap''), RStr raw) #
         (Cap Capget, RCaps linux_capability_version_3 d) # b \<and>
     parse_uint (2 ^ 32) (trim raw) = Inr n \<and>
     (\<forall>name \<in> set caps. \<exists>s. parse_capability name = Inr s \<and> cs_number s \<le> of_nat n) \<and>
     (cap_in cw_effective d cap_setpcap \<or> (\<forall>c \<in> requested_caps caps. (Cap (CapbsetRead c), RInt 0) \<in> set b))"
  using requiresD [OF requires_preflight assms] unfolding preflight_done_def .

section \<open>The steps of a success\<close>

text \<open>None of the capabilities \<open>cs\<close> is in one of the three sets of \<open>d\<close>.\<close>

definition lacks :: "u32 set \<Rightarrow> cap_data \<Rightarrow> bool" where
  "lacks cs d \<longleftrightarrow> (\<forall>c \<in> cs. \<not> cap_in cw_effective d c \<and> \<not> cap_in cw_permitted d c \<and> \<not> cap_in cw_inheritable d c)"

fun caps_cleared :: "u32 set \<Rightarrow> call \<times> reply \<Rightarrow> bool" where
  "caps_cleared cs (Cap (Capset d), r) \<longleftrightarrow> r = ROk \<and> lacks cs d"
| "caps_cleared cs e \<longleftrightarrow> False"

fun caps_gone :: "u32 set \<Rightarrow> call \<times> reply \<Rightarrow> bool" where
  "caps_gone cs (Cap Capget, RCaps version d) \<longleftrightarrow> version = linux_capability_version_3 \<and> lacks cs d"
| "caps_gone cs e \<longleftrightarrow> False"

lemma clear_all_range: "clear_all d caps = Inr d' \<Longrightarrow> \<forall>c \<in> set caps. c < 64"
proof (induction d caps rule: clear_all.induct)
  case (2 d cap caps)
  then obtain d1 where d1: "clear_capability_bits d cap = Inr d1" "clear_all d1 caps = Inr d'" by auto
  from d1(1) have "cap < 64" by (auto simp: clear_capability_bits_def bit_position_ok)
  with "2.IH" [OF d1(2)] show ?case by simp
qed simp

lemma clear_all_lacks: "clear_all d caps = Inr d' \<Longrightarrow> lacks (set caps) d'"
  using clear_all_exact [OF clear_all_range, of d caps d' d] by (auto simp: lacks_def)

lemma must_clear:
  "must [caps_cleared (set cs), caps_gone (set cs)] (io_bind (io_lift (clear_all d cs)) (\<lambda>d'.
     io_seq (capset_current env d')
     (io_bind (capget_current env) (\<lambda>verified. io_each (verify_dropped env verified) cs))))"
  unfolding must_def
proof (intro allI impI)
  fix h x h'
  assume "io_bind (io_lift (clear_all d cs)) (\<lambda>d'. io_seq (capset_current env d')
     (io_bind (capget_current env) (\<lambda>verified. io_each (verify_dropped env verified) cs))) h = (Inr x, h')"
  then obtain d' v where "clear_all d cs = Inr d'"
    and each: "io_each (verify_dropped env v) cs (h @ [(Cap (Capset d'), ROk), (Cap Capget, RCaps linux_capability_version_3 v)]) = (Inr (), h')"
    by (auto simp: io_bind_ok io_seq_ok capset_current_def sys_or_bail_ok capget_ok)
  with verify_all_ok [OF each] clear_all_lacks [of d cs d']
  show "\<exists>t. h' = h @ t \<and> has_in_order [caps_cleared (set cs), caps_gone (set cs)] t"
    by (auto simp: lacks_def)
qed

lemma must_skip: "emits (\<lambda>_. True) m \<Longrightarrow> (\<And>x. must ls (f x)) \<Longrightarrow> must ls (io_bind m f)"
  using must_bind [OF must_emits, of "\<lambda>_. True" m ls f] by simp

lemma must_apply_drop: "must [caps_cleared (set cs), caps_gone (set cs)] (apply_drop env d cs)"
  unfolding apply_drop_def io_seq_def [of "io_each _ _"]
  by (intro must_skip must_clear)
    (auto simp: drop_bounding_if_set_def lower_ambient_if_set_def read_bounding_def read_ambient_def
      drop_bounding_def lower_ambient_def intro!: emits_intros)

lemma must_enforce: "must [caps_cleared (set cs), caps_gone (set cs)] (enforce_drop env cs)"
proof -
  have "must [caps_cleared (set cs), caps_gone (set cs)] (drop_if_permitted env d cs p)" for d p
    unfolding drop_if_permitted_def Let_def using must_apply_drop by (auto simp: must_def)
  then show ?thesis
    unfolding enforce_drop_def
    by (intro must_skip emits_capget emits_mono [OF emits_collect_bounding]) simp_all
qed

lemma must_drop_capabilities:
  "must (if caps = [] then [] else [caps_cleared (requested_caps caps), caps_gone (requested_caps caps)])
     (drop_capabilities env caps)"
proof (cases "caps = []")
  case False
  have "must [caps_cleared (requested_caps caps), caps_gone (requested_caps caps)]
      (io_bind (io_lift (collect_requested last_cap [] caps)) (enforce_drop env))" for last_cap
  proof (cases "collect_requested last_cap [] caps")
    case (Inr rq)
    with set_collect_requested [OF Inr] must_enforce [of rq env] show ?thesis by (simp add: io_bind_def io_lift_def)
  qed (simp add: must_def io_bind_def io_lift_def)
  moreover have "emits (\<lambda>_. True) (read_cap_last_cap env)" unfolding read_cap_last_cap_def by (intro emits_intros) simp
  ultimately show ?thesis unfolding drop_capabilities_def if_not_P [OF False] by (rule must_skip [rotated])
qed (auto simp: drop_capabilities_def must_def)

section \<open>A kernel that answers as documented\<close>

text \<open>The capability sets of the calling task, and how the calls change them.\<close>

record kernel_caps =
  kc_data :: cap_data
  kc_bounding :: "u32 list"
  kc_ambient :: "u32 list"

fun kc_step :: "kernel_caps \<Rightarrow> call \<times> reply \<Rightarrow> kernel_caps" where
  "kc_step k (Cap (Capset d), ROk) =
     k\<lparr>kc_data := d,
       kc_ambient := filter (\<lambda>c. cap_in cw_permitted d c \<and> cap_in cw_inheritable d c) (kc_ambient k)\<rparr>"
| "kc_step k (Cap (CapbsetDrop c), ROk) = k\<lparr>kc_bounding := removeAll c (kc_bounding k)\<rparr>"
| "kc_step k (Cap (AmbientLower c), ROk) = k\<lparr>kc_ambient := removeAll c (kc_ambient k)\<rparr>"
| "kc_step k _ = k"

definition kc_after :: "kernel_caps \<Rightarrow> history \<Rightarrow> kernel_caps" where
  "kc_after k t = foldl kc_step k t"

definition caps_leq :: "cap_data \<Rightarrow> cap_data \<Rightarrow> bool" where
  "caps_leq d' d \<longleftrightarrow> (\<forall>c.
     (cap_in cw_effective d' c \<longrightarrow> cap_in cw_permitted d' c) \<and>
     (cap_in cw_permitted d' c \<longrightarrow> cap_in cw_permitted d c) \<and>
     (cap_in cw_inheritable d' c \<longrightarrow> cap_in cw_inheritable d c))"

definition kc_wf :: "kernel_caps \<Rightarrow> bool" where
  "kc_wf k \<longleftrightarrow> caps_leq (kc_data k) (kc_data k) \<and>
     (\<forall>c \<in> set (kc_ambient k). cap_in cw_permitted (kc_data k) c \<and> cap_in cw_inheritable (kc_data k) c)"

text \<open>
  The answers documented in \<open>capabilities(7)\<close>, \<open>capget(2)\<close> and \<open>prctl(2)\<close>, from the history \<open>h\<close> on,
  whose sets are \<open>k\<close>: reads report the sets, dropping from the bounding set needs \<open>CAP_SETPCAP\<close>,
  ambient bits can always be lowered and \<open>capset\<close> may always take capabilities away.
\<close>

definition documented_caps :: "env \<Rightarrow> history \<Rightarrow> kernel_caps \<Rightarrow> u32 \<Rightarrow> bool" where
  "documented_caps env h0 k0 last_cap \<longleftrightarrow> (\<forall>t. let h = h0 @ t; k = kc_after k0 t in
     env h (File (ReadToString ''/proc/sys/kernel/cap_last_cap'')) = RStr (show_word last_cap @ [CHR 0x0A]) \<and>
     env h (Cap Capget) = RCaps linux_capability_version_3 (kc_data k) \<and>
     (\<forall>c \<le> last_cap.
        env h (Cap (CapbsetRead c)) = RInt (if c \<in> set (kc_bounding k) then 1 else 0) \<and>
        env h (Cap (AmbientIsSet c)) = RInt (if c \<in> set (kc_ambient k) then 1 else 0) \<and>
        env h (Cap (AmbientLower c)) = ROk \<and>
        (cap_in cw_effective (kc_data k) cap_setpcap \<longrightarrow> env h (Cap (CapbsetDrop c)) = ROk)) \<and>
     (\<forall>d. caps_leq d (kc_data k) \<longrightarrow> env h (Cap (Capset d)) = ROk))"

lemma kc_after_Nil [simp]: "kc_after k [] = k"
  and kc_after_Cons [simp]: "kc_after k (e # t) = kc_after (kc_step k e) t"
  and kc_after_append: "kc_after k (s @ t) = kc_after (kc_after k s) t"
  by (simp_all add: kc_after_def)

lemma documented_shift: "documented_caps env h k l \<Longrightarrow> documented_caps env (h @ t) (kc_after k t) l"
  unfolding documented_caps_def Let_def by (metis append.assoc kc_after_append)

lemma documented_now:
  assumes "documented_caps env h k l"
  shows "env h (Cap Capget) = RCaps linux_capability_version_3 (kc_data k)"
    "env h (File (ReadToString ''/proc/sys/kernel/cap_last_cap'')) = RStr (show_word l @ [CHR 0x0A])"
    "c \<le> l \<Longrightarrow> env h (Cap (CapbsetRead c)) = RInt (if c \<in> set (kc_bounding k) then 1 else 0)"
    "c \<le> l \<Longrightarrow> env h (Cap (AmbientIsSet c)) = RInt (if c \<in> set (kc_ambient k) then 1 else 0)"
    "c \<le> l \<Longrightarrow> env h (Cap (AmbientLower c)) = ROk"
    "c \<le> l \<Longrightarrow> cap_in cw_effective (kc_data k) cap_setpcap \<Longrightarrow> env h (Cap (CapbsetDrop c)) = ROk"
    "caps_leq d (kc_data k) \<Longrightarrow> env h (Cap (Capset d)) = ROk"
  using assms [unfolded documented_caps_def Let_def, rule_format, of "[]"]
  by (cases d; simp)+

text \<open>A phase that succeeds and moves the kernel from \<open>k\<close> to \<open>k'\<close>.\<close>

definition moves :: "env \<Rightarrow> (history, 'a) io \<Rightarrow> history \<Rightarrow> kernel_caps \<Rightarrow> 'a \<Rightarrow> kernel_caps \<Rightarrow> bool" where
  "moves env m h k x k' \<longleftrightarrow> (\<exists>t. m h = (Inr x, h @ t) \<and> kc_after k t = k')"

lemma moves_documented:
  "moves env m h k x k' \<Longrightarrow> documented_caps env h k l \<Longrightarrow> \<exists>t. documented_caps env (h @ t) k' l"
  unfolding moves_def using documented_shift by blast

lemma moves_bind:
  assumes "moves env m h k x k1" "documented_caps env h k l"
    and "\<And>t. documented_caps env (h @ t) k1 l \<Longrightarrow> moves env (f x) (h @ t) k1 y k'"
  shows "moves env (io_bind m f) h k y k'"
proof -
  from assms(1) obtain t where t: "m h = (Inr x, h @ t)" "kc_after k t = k1" by (auto simp: moves_def)
  with documented_shift [OF assms(2), of t] have "documented_caps env (h @ t) k1 l" by simp
  from assms(3) [OF this] obtain t' where "f x (h @ t) = (Inr y, (h @ t) @ t')" "kc_after k1 t' = k'"
    by (auto simp: moves_def)
  with t show ?thesis unfolding moves_def io_bind_ok
    by (intro exI [of _ "t @ t'"]) (auto simp: kc_after_append)
qed

lemma moves_seq:
  assumes "moves env m h k x k1" "documented_caps env h k l"
    and "\<And>t. documented_caps env (h @ t) k1 l \<Longrightarrow> moves env n (h @ t) k1 y k'"
  shows "moves env (io_seq m n) h k y k'"
  using moves_bind [of env m h k x k1 l "\<lambda>_. n" y k'] assms by (simp add: io_seq_def)

lemma moves_return [simp]: "moves env (io_return x) h k x k"
  by (simp add: moves_def)

lemma moves_collect:
  assumes "documented_caps env h k l"
    and "\<And>c t. c \<in> set cs \<Longrightarrow> documented_caps env (h @ t) k l \<Longrightarrow> moves env (f c) (h @ t) k (g c) k"
  shows "moves env (io_collect f cs) h k (map g cs) k"
  using assms
proof (induction cs arbitrary: h)
  case (Cons c cs)
  have 1: "moves env (f c) h k (g c) k" using Cons.prems(2) [of c "[]"] Cons.prems(1) by simp
  have 2: "moves env (io_collect f cs) (h @ t) k (map g cs) k" if "documented_caps env (h @ t) k l" for t
    using Cons.IH [OF that] Cons.prems(2) [of _ "t @ t'" for t'] by simp
  have "moves env (io_bind (io_collect f cs) (\<lambda>ys. io_return (g c # ys))) (h @ t) k (g c # map g cs) k"
    if "documented_caps env (h @ t) k l" for t
    by (rule moves_bind [OF 2 [OF that] that]) simp
  then show ?case
    unfolding io_collect.simps list.map by (rule moves_bind [OF 1 Cons.prems(1)])
qed simp

lemma moves_each:
  assumes "documented_caps env h k l" "\<And>c k t. c \<in> set cs \<Longrightarrow> I k \<Longrightarrow> documented_caps env (h @ t) k l \<Longrightarrow>
      moves env (f c) (h @ t) k () (g c k) \<and> I (g c k)" "I k"
  shows "moves env (io_each f cs) h k () (fold g cs k) \<and> I (fold g cs k)"
  using assms
proof (induction cs arbitrary: h k)
  case (Cons c cs)
  from Cons.prems(2) [of c k "[]"] Cons.prems(1,3)
  have 1: "moves env (f c) h k () (g c k)" "I (g c k)" by simp_all
  have 2: "moves env (io_each f cs) (h @ t) (g c k) () (fold g cs (g c k)) \<and> I (fold g cs (g c k))"
    if "documented_caps env (h @ t) (g c k) l" for t
    using Cons.IH [OF that] Cons.prems(2) [of _ _ "t @ t'" for t'] 1(2) by simp
  then have "moves env (io_each f (c # cs)) h k () (fold g (c # cs) k)"
    by (auto intro: moves_seq [OF 1(1) Cons.prems(1)])
  moreover obtain t where "documented_caps env (h @ t) (g c k) l"
    using moves_documented [OF 1(1) Cons.prems(1)] by blast
  ultimately show ?case using 2 by auto
qed simp

lemma read_bounding_doc:
  "documented_caps env h k l \<Longrightarrow> c \<le> l \<Longrightarrow>
     moves env (read_bounding env c) h k (c \<in> set (kc_bounding k)) k"
  by (auto simp: moves_def read_bounding_def read_flag_ok documented_now(3))

lemma read_ambient_doc:
  "documented_caps env h k l \<Longrightarrow> c \<le> l \<Longrightarrow>
     moves env (read_ambient env c) h k (c \<in> set (kc_ambient k)) k"
  by (auto simp: moves_def read_ambient_def read_flag_ok documented_now(4))

definition state_of :: "cap_data \<Rightarrow> kernel_caps \<Rightarrow> u32 \<Rightarrow> capability_state" where
  "state_of d k c = \<lparr>st_effective = cap_in cw_effective d c, st_permitted = cap_in cw_permitted d c,
     st_inheritable = cap_in cw_inheritable d c, st_bounding = (c \<in> set (kc_bounding k)),
     st_ambient = (c \<in> set (kc_ambient k))\<rparr>"

lemma moves_lift: "moves env (io_lift (Inr x)) h k x k"
  by (simp add: moves_def)

lemma read_state_doc:
  assumes "documented_caps env h k l" "c \<le> l" "c < 64"
  shows "moves env (read_state env d c) h k (state_of d k c) k"
proof -
  have b: "has_set_bit sel d c = Inr (cap_in sel d c)" for sel using assms(3) by (simp add: has_set_bit_ok)
  have "moves env (io_bind (read_bounding env c) (\<lambda>b. io_bind (read_ambient env c) (\<lambda>a.
      io_return \<lparr>st_effective = cap_in cw_effective d c, st_permitted = cap_in cw_permitted d c,
        st_inheritable = cap_in cw_inheritable d c, st_bounding = b, st_ambient = a\<rparr>))) h k
      (state_of d k c) k"
    by (rule moves_bind [OF read_bounding_doc [OF assms(1,2)] assms(1)],
        rule moves_bind [OF read_ambient_doc _], assumption, rule assms(2), assumption)
      (simp add: state_of_def)
  then show ?thesis
    unfolding read_state_def b by (simp add: io_bind_def io_lift_def moves_def)
qed

lemma drop_bounding_doc:
  assumes "documented_caps env h k l" "c \<le> l"
    and "c \<in> set (kc_bounding k) \<Longrightarrow> cap_in cw_effective (kc_data k) cap_setpcap"
  shows "moves env (drop_bounding_if_set env c) h k () (k\<lparr>kc_bounding := removeAll c (kc_bounding k)\<rparr>)"
proof (cases "c \<in> set (kc_bounding k)")
  case True
  have "moves env (io_ctx msg (drop_bounding env c)) (h @ t) k () (k\<lparr>kc_bounding := removeAll c (kc_bounding k)\<rparr>)"
    if "documented_caps env (h @ t) k l" for msg t
    using documented_now(6) [OF that assms(2) assms(3) [OF True]]
    by (auto simp: moves_def drop_bounding_def sys_or_bail_ok)
  then show ?thesis
    unfolding drop_bounding_if_set_def
    by (intro moves_bind [OF read_bounding_doc [OF assms(1,2)] assms(1)]) (simp add: True io_when_def)
next
  case False
  then have "k\<lparr>kc_bounding := removeAll c (kc_bounding k)\<rparr> = k" by simp
  then show ?thesis
    unfolding drop_bounding_if_set_def
    by (intro moves_bind [OF read_bounding_doc [OF assms(1,2)] assms(1)]) (simp add: False io_when_def)
qed

lemma lower_ambient_doc:
  assumes "documented_caps env h k l" "c \<le> l"
  shows "moves env (lower_ambient_if_set env c) h k () (k\<lparr>kc_ambient := removeAll c (kc_ambient k)\<rparr>)"
proof (cases "c \<in> set (kc_ambient k)")
  case True
  have "moves env (io_ctx msg (lower_ambient env c)) (h @ t) k () (k\<lparr>kc_ambient := removeAll c (kc_ambient k)\<rparr>)"
    if "documented_caps env (h @ t) k l" for msg t
    using documented_now(5) [OF that assms(2)]
    by (auto simp: moves_def lower_ambient_def sys_or_bail_ok)
  then show ?thesis
    unfolding lower_ambient_if_set_def
    by (intro moves_bind [OF read_ambient_doc [OF assms(1,2)] assms(1)]) (simp add: True io_when_def)
next
  case False
  then have "k\<lparr>kc_ambient := removeAll c (kc_ambient k)\<rparr> = k" by simp
  then show ?thesis
    unfolding lower_ambient_if_set_def
    by (intro moves_bind [OF read_ambient_doc [OF assms(1,2)] assms(1)]) (simp add: False io_when_def)
qed

lemma fold_bounding:
  "fold (\<lambda>c k. k\<lparr>kc_bounding := removeAll c (kc_bounding k)\<rparr>) cs k =
     k\<lparr>kc_bounding := filter (\<lambda>c. c \<notin> set cs) (kc_bounding k)\<rparr>"
  by (induction cs arbitrary: k) (auto simp: removeAll_filter_not_eq intro!: kernel_caps.equality filter_cong)

lemma fold_ambient:
  "fold (\<lambda>c k. k\<lparr>kc_ambient := removeAll c (kc_ambient k)\<rparr>) cs k =
     k\<lparr>kc_ambient := filter (\<lambda>c. c \<notin> set cs) (kc_ambient k)\<rparr>"
  by (induction cs arbitrary: k) (auto simp: removeAll_filter_not_eq intro!: kernel_caps.equality filter_cong)

lemma verify_doc:
  assumes "documented_caps env h k l" "c \<le> l" "c < 64" "c \<notin> set (kc_bounding k)" "c \<notin> set (kc_ambient k)"
    and "\<not> cap_in cw_effective d c" "\<not> cap_in cw_permitted d c" "\<not> cap_in cw_inheritable d c"
  shows "moves env (verify_dropped env d c) h k () k"
  unfolding verify_dropped_def
  by (rule moves_bind [OF read_state_doc [OF assms(1-3)] assms(1)])
    (use assms in \<open>simp add: state_of_def\<close>)

lemma parse_number: "parse_capability raw = Inr s \<Longrightarrow> cs_number s \<le> 40"
proof -
  assume "parse_capability raw = Inr s"
  then obtain name where "cap_name_to_num name = Some (cs_number s)"
    by (auto simp: parse_capability_def Let_def split: if_splits)
  then have "cs_number s \<in> set (map snd cap_names)"
    by (force simp: cap_name_to_num_def dest: map_of_SomeD)
  moreover have "\<forall>n \<in> set (map snd cap_names). n \<le> 40" by (simp add: cap_names_def)
  ultimately show ?thesis by blast
qed

lemma collect_requested_total:
  "\<forall>raw \<in> set raws. \<exists>s. parse_capability raw = Inr s \<and> cs_number s \<le> last_cap \<Longrightarrow>
     \<exists>rq'. collect_requested last_cap rq raws = Inr rq'"
proof (induction raws arbitrary: rq)
  case (Cons raw raws)
  then obtain s where s: "parse_capability raw = Inr s" "cs_number s \<le> last_cap" by auto
  from Cons.IH [of "insort_insert (cs_number s) rq"] Cons.prems
  obtain rq' where "collect_requested last_cap (insort_insert (cs_number s) rq) raws = Inr rq'" by auto
  with s have "collect_requested last_cap rq (raw # raws) = Inr rq'" by (auto simp: not_less)
  then show ?case ..
qed simp

lemma read_cap_last_cap_doc:
  "documented_caps env h k l \<Longrightarrow> moves env (read_cap_last_cap env) h k l k"
proof -
  assume d: "documented_caps env h k l"
  have "trim (show_word l @ [CHR 0x0A]) = show_nat (unat l)" by (simp add: show_word_def)
  moreover have "unat l < 2 ^ 32" using unsigned_less [of l] by simp
  ultimately show ?thesis
    using documented_now(2) [OF d]
    by (auto simp: moves_def read_cap_last_cap_def io_bind_ok sys_str_ok)
qed

text \<open>The kernel's sets with the capabilities \<open>cs\<close> taken away.\<close>

definition caps_removed :: "u32 set \<Rightarrow> kernel_caps \<Rightarrow> kernel_caps \<Rightarrow> bool" where
  "caps_removed cs k k' \<longleftrightarrow>
     (\<forall>c. cap_in cw_effective (kc_data k') c \<longleftrightarrow> cap_in cw_effective (kc_data k) c \<and> c \<notin> cs) \<and>
     (\<forall>c. cap_in cw_permitted (kc_data k') c \<longleftrightarrow> cap_in cw_permitted (kc_data k) c \<and> c \<notin> cs) \<and>
     (\<forall>c. cap_in cw_inheritable (kc_data k') c \<longleftrightarrow> cap_in cw_inheritable (kc_data k) c \<and> c \<notin> cs) \<and>
     set (kc_bounding k') = set (kc_bounding k) - cs \<and> set (kc_ambient k') = set (kc_ambient k) - cs"

lemma drop_all_bounding_doc:
  assumes "documented_caps env h k l" "\<forall>c \<in> set cs. c \<le> l"
    and "cap_in cw_effective (kc_data k) cap_setpcap \<or> set cs \<inter> set (kc_bounding k) = {}"
  shows "moves env (io_each (drop_bounding_if_set env) cs) h k ()
     (k\<lparr>kc_bounding := filter (\<lambda>c. c \<notin> set cs) (kc_bounding k)\<rparr>)"
  using moves_each [OF assms(1), where I = "\<lambda>k'. kc_data k' = kc_data k \<and> set (kc_bounding k') \<subseteq> set (kc_bounding k)"
      and f = "drop_bounding_if_set env" and cs = cs
      and g = "\<lambda>c k. k\<lparr>kc_bounding := removeAll c (kc_bounding k)\<rparr>"]
    drop_bounding_doc assms(2,3) unfolding fold_bounding by fastforce

lemma lower_all_ambient_doc:
  assumes "documented_caps env h k l" "\<forall>c \<in> set cs. c \<le> l"
  shows "moves env (io_each (lower_ambient_if_set env) cs) h k ()
     (k\<lparr>kc_ambient := filter (\<lambda>c. c \<notin> set cs) (kc_ambient k)\<rparr>)"
  using moves_each [OF assms(1), where I = "\<lambda>_. True" and f = "lower_ambient_if_set env" and cs = cs
      and g = "\<lambda>c k. k\<lparr>kc_ambient := removeAll c (kc_ambient k)\<rparr>"]
    lower_ambient_doc assms(2) unfolding fold_ambient by auto

lemma verify_all_doc:
  assumes "documented_caps env h k l"
    and "\<forall>c \<in> set cs. c \<le> l \<and> c < 64 \<and> c \<notin> set (kc_bounding k) \<and> c \<notin> set (kc_ambient k) \<and>
      \<not> cap_in cw_effective d c \<and> \<not> cap_in cw_permitted d c \<and> \<not> cap_in cw_inheritable d c"
  shows "moves env (io_each (verify_dropped env d) cs) h k () k"
proof -
  have *: "moves env (verify_dropped env d c) (h @ t) k' () ((\<lambda>c k. k) c k') \<and> (\<lambda>c k. k) c k' = k"
    if "c \<in> set cs" "k' = k" "documented_caps env (h @ t) k' l" for c k' t
    using verify_doc [OF that(3)] that(1,2) assms(2) by auto
  have "moves env (io_each (verify_dropped env d) cs) h k () (fold (\<lambda>c k. k) cs k) \<and> fold (\<lambda>c k. k) cs k = k"
    by (rule moves_each [OF assms(1) *]) simp_all
  then show ?thesis by (metis (no_types, lifting))
qed

lemma apply_drop_doc:
  assumes doc: "documented_caps env h k l" and wf: "kc_wf k"
    and rng: "\<forall>c \<in> set cs. c \<le> l \<and> c < 64"
    and auth: "cap_in cw_effective (kc_data k) cap_setpcap \<or> set cs \<inter> set (kc_bounding k) = {}"
  shows "\<exists>k'. moves env (apply_drop env (kc_data k) cs) h k () k' \<and> caps_removed (set cs) k k'"
proof -
  let ?d = "kc_data k"
  define k1 where "k1 = k\<lparr>kc_bounding := filter (\<lambda>c. c \<notin> set cs) (kc_bounding k)\<rparr>"
  define k2 where "k2 = k1\<lparr>kc_ambient := filter (\<lambda>c. c \<notin> set cs) (kc_ambient k1)\<rparr>"
  obtain d' where d': "clear_all ?d cs = Inr d'"
    and e: "\<And>c. cap_in cw_effective d' c \<longleftrightarrow> cap_in cw_effective ?d c \<and> c \<notin> set cs"
    and p: "\<And>c. cap_in cw_permitted d' c \<longleftrightarrow> cap_in cw_permitted ?d c \<and> c \<notin> set cs"
    and i: "\<And>c. cap_in cw_inheritable d' c \<longleftrightarrow> cap_in cw_inheritable ?d c \<and> c \<notin> set cs"
    using clear_all_exact [of cs ?d] rng by blast
  define k3 where "k3 = kc_step k2 (Cap (Capset d'), ROk)"
  have k2: "kc_data k2 = ?d" "set (kc_bounding k2) = set (kc_bounding k) - set cs"
    "set (kc_ambient k2) = set (kc_ambient k) - set cs"
    by (auto simp: k1_def k2_def)
  have leq: "caps_leq d' (kc_data k2)"
    using wf e p i by (auto simp: k2 kc_wf_def caps_leq_def)
  have k3: "kc_data k3 = d'" "set (kc_bounding k3) = set (kc_bounding k) - set cs"
    "set (kc_ambient k3) = set (kc_ambient k) - set cs"
    using wf p i k2 by (cases d'; auto simp: kc_wf_def k3_def)+
  have 1: "moves env (io_collect (read_state env ?d) cs) h k (map (state_of ?d k) cs) k"
    by (rule moves_collect [OF doc]) (use rng read_state_doc in blast)
  have 2: "moves env (io_each (drop_bounding_if_set env) cs) (h @ t) k () k1"
    if "documented_caps env (h @ t) k l" for t
    unfolding k1_def by (rule drop_all_bounding_doc [OF that _ auth]) (use rng in blast)
  have 3: "moves env (io_each (lower_ambient_if_set env) cs) h' k1 () k2"
    if "documented_caps env h' k1 l" for h'
    unfolding k2_def by (rule lower_all_ambient_doc [OF that]) (use rng in blast)
  have 4: "moves env (capset_current env d') h' k2 () k3" if "documented_caps env h' k2 l" for h'
    using documented_now(7) [OF that leq]
    by (auto simp: moves_def capset_current_def sys_or_bail_ok k3_def)
  have 5: "moves env (capget_current env) h' k3 d' k3" if "documented_caps env h' k3 l" for h'
    using documented_now(1) [OF that] by (auto simp: moves_def capget_ok k3(1))
  have 6: "moves env (io_each (verify_dropped env d') cs) h' k3 () k3"
    if "documented_caps env h' k3 l" for h'
    by (rule verify_all_doc [OF that]) (use rng k3 e p i in auto)
  have 7: "moves env (io_lift (clear_all ?d cs)) h' k2 d' k2" for h'
    by (simp add: d' moves_lift)
  have "moves env (apply_drop env ?d cs) h k () k3"
    unfolding apply_drop_def
    by (rule moves_bind [OF 1 doc], rule moves_seq [OF 2], assumption+, rule moves_seq [OF 3], assumption+,
        rule moves_bind [OF 7], assumption, rule moves_seq [OF 4], assumption+,
        rule moves_bind [OF 5], assumption+, rule 6)
  moreover have "caps_removed (set cs) k k3"
    using e p i k3 by (simp add: caps_removed_def)
  ultimately show ?thesis by blast
qed

lemma collected_range:
  assumes "\<forall>raw \<in> set caps. \<exists>s. parse_capability raw = Inr s \<and> cs_number s \<le> last_cap" "set cs = requested_caps caps"
  shows "\<forall>c \<in> set cs. c \<le> last_cap \<and> c < 64"
proof
  fix c assume "c \<in> set cs"
  then obtain raw s where "raw \<in> set caps" "parse_capability raw = Inr s" and c: "c = cs_number s"
    using assms(2) by (auto simp: requested_caps_def)
  with assms(1) parse_number have "cs_number s \<le> 40 \<and> cs_number s \<le> last_cap" by fastforce
  with c have "c \<le> 40" "c \<le> last_cap" by simp_all
  then show "c \<le> last_cap \<and> c < 64" by (auto intro: le_less_trans [of _ 40])
qed

lemma enforce_drop_doc:
  assumes doc: "documented_caps env h k l" and wf: "kc_wf k" and rng: "\<forall>c \<in> set cs. c \<le> l \<and> c < 64"
    and auth: "cap_in cw_effective (kc_data k) cap_setpcap \<or> set cs \<inter> set (kc_bounding k) = {}"
  shows "\<exists>k'. moves env (enforce_drop env cs) h k () k' \<and> caps_removed (set cs) k k'"
proof -
  let ?present = "map (\<lambda>c. c \<in> set (kc_bounding k)) cs"
  let ?h1 = "h @ [(Cap Capget, RCaps linux_capability_version_3 (kc_data k))]"
  have 1: "capget_current env h = (Inr (kc_data k), ?h1)"
    using documented_now(1) [OF doc] by (simp add: capget_ok)
  have d1: "documented_caps env ?h1 k l"
    using documented_shift [OF doc, of "[(Cap Capget, RCaps linux_capability_version_3 (kc_data k))]"] by simp
  have "moves env (io_collect (read_bounding env) cs) ?h1 k ?present k"
    by (rule moves_collect [OF d1]) (use rng read_bounding_doc in blast)
  then obtain t2 where 2: "io_collect (read_bounding env) cs ?h1 = (Inr ?present, ?h1 @ t2)" "kc_after k t2 = k"
    by (auto simp: moves_def)
  with documented_shift [OF d1, of t2] have d2: "documented_caps env (?h1 @ t2) k l" by simp
  from apply_drop_doc [OF d2 wf rng auth] obtain k' t3 where
    3: "apply_drop env (kc_data k) cs (?h1 @ t2) = (Inr (), (?h1 @ t2) @ t3)" "kc_after k t3 = k'" "caps_removed (set cs) k k'"
    unfolding moves_def by blast
  have "drop_if_permitted env (kc_data k) cs ?present = apply_drop env (kc_data k) cs"
    using auth by (auto simp: drop_if_permitted_def Let_def)
  with 1 2(1) 3(1) have "enforce_drop env cs h = (Inr (), (?h1 @ t2) @ t3)"
    by (simp add: enforce_drop_def io_bind_ok del: split_paired_Ex)
  moreover have "kc_after k ([(Cap Capget, RCaps linux_capability_version_3 (kc_data k))] @ t2 @ t3) = k'"
    using 2 3 by (simp add: kc_after_append)
  ultimately show ?thesis using 3(3) unfolding moves_def by (metis append.assoc)
qed

lemma drop_capabilities_doc:
  assumes doc: "documented_caps env h k last_cap" and wf: "kc_wf k"
    and known: "\<forall>raw \<in> set caps. \<exists>s. parse_capability raw = Inr s \<and> cs_number s \<le> last_cap"
    and auth: "cap_in cw_effective (kc_data k) cap_setpcap \<or> requested_caps caps \<inter> set (kc_bounding k) = {}"
  shows "\<exists>t. drop_capabilities env caps h = (Inr (), h @ t) \<and>
             caps_removed (requested_caps caps) k (kc_after k t)"
proof (cases "caps = []")
  case True
  then show ?thesis
    by (intro exI [of _ "[]"]) (simp add: drop_capabilities_def caps_removed_def requested_caps_def)
next
  case False
  obtain cs where cs: "collect_requested last_cap [] caps = Inr cs"
    using collect_requested_total [OF known] by blast
  then have set_cs: "set cs = requested_caps caps" using set_collect_requested [OF cs] by simp
  obtain t0 where 1: "read_cap_last_cap env h = (Inr last_cap, h @ t0)" "kc_after k t0 = k"
    using read_cap_last_cap_doc [OF doc] by (auto simp: moves_def)
  then have d1: "documented_caps env (h @ t0) k last_cap"
    using documented_shift [OF doc, of t0] by simp
  from enforce_drop_doc [OF d1 wf collected_range [OF known set_cs] auth [folded set_cs]] obtain t1 where
    2: "enforce_drop env cs (h @ t0) = (Inr (), (h @ t0) @ t1)" "caps_removed (set cs) k (kc_after k t1)"
    by (auto simp: moves_def)
  with False 1 cs have "drop_capabilities env caps h = (Inr (), h @ (t0 @ t1))"
    by (simp add: drop_capabilities_def io_bind_ok io_lift_def)
  moreover have "kc_after k (t0 @ t1) = kc_after k t1" using 1(2) by (simp add: kc_after_append)
  ultimately show ?thesis using 2(2) set_cs by (intro exI [of _ "t0 @ t1"]) simp
qed

text \<open>C16: On a kernel that answers as documented, a policy of known and supported names succeeds for a
  caller that holds \<open>CAP_SETPCAP\<close>, and takes exactly the named capabilities from the effective,
  permitted, inheritable, bounding and ambient sets: every other capability stays as it was.\<close>
theorem drop_capabilities_documented:
  assumes doc: "documented_caps env h k last_cap" and wf: "kc_wf k"
    and known: "\<forall>raw \<in> set caps. \<exists>s. parse_capability raw = Inr s \<and> cs_number s \<le> last_cap"
    and auth: "cap_in cw_effective (kc_data k) cap_setpcap \<or> requested_caps caps \<inter> set (kc_bounding k) = {}"
  shows "\<exists>t. drop_capabilities env caps h = (Inr (), h @ t) \<and>
             caps_removed (requested_caps caps) k (kc_after k t)"
  using assms by (rule drop_capabilities_doc)

text \<open>A kernel of this kind, as a function, for the examples.\<close>

definition demo_word :: cap_word where
  "demo_word = \<lparr>cw_effective = 0xFFFFFFFF, cw_permitted = 0xFFFFFFFF, cw_inheritable = 0\<rparr>"

definition demo_caps :: kernel_caps where
  "demo_caps = \<lparr>kc_data = (demo_word, demo_word), kc_bounding = [8, 12, 21], kc_ambient = []\<rparr>"

fun demo_kernel :: env where
  "demo_kernel h (File (ReadToString _)) = RStr (show_word (40 :: u32) @ [CHR 0x0A])"
| "demo_kernel h (Cap Capget) = RCaps linux_capability_version_3 (kc_data (kc_after demo_caps h))"
| "demo_kernel h (Cap (CapbsetRead c)) = RInt (if c \<in> set (kc_bounding (kc_after demo_caps h)) then 1 else 0)"
| "demo_kernel h (Cap (AmbientIsSet c)) = RInt (if c \<in> set (kc_ambient (kc_after demo_caps h)) then 1 else 0)"
| "demo_kernel h _ = ROk"

lemma demo_documented: "documented_caps demo_kernel [] demo_caps 40"
  by (simp add: documented_caps_def Let_def)

lemma demo_wf: "kc_wf demo_caps"
  by (simp add: kc_wf_def demo_caps_def caps_leq_def cap_in_def data_at_def demo_word_def)

lemma parse_sys_admin:
  "parse_capability ''sys_admin'' = Inr \<lparr>cs_canonical = ''CAP_SYS_ADMIN'', cs_number = 21\<rparr>"
proof -
  have "trim ''sys_admin'' = ''sys_admin''" by (rule trim_visible) (simp_all add: visible_def)
  moreover have "to_ascii_uppercase ''sys_admin'' = ''SYS_ADMIN''" by code_simp
  moreover have "cap_name_to_num ''CAP_SYS_ADMIN'' = Some 21" by code_simp
  ultimately show ?thesis by (simp add: parse_capability_def)
qed

lemma requested_sys_admin: "requested_caps [''sys_admin''] = {21}"
  by (auto simp: requested_caps_def parse_sys_admin)

theorem drop_capabilities_documented_witness:
  "\<exists>t. drop_capabilities demo_kernel [''sys_admin''] [] = (Inr (), [] @ t) \<and>
     caps_removed {21} demo_caps (kc_after demo_caps t)"
proof -
  have "cap_in cw_effective (kc_data demo_caps) cap_setpcap" by code_simp
  then show ?thesis
    using drop_capabilities_documented [OF demo_documented demo_wf, of "[''sys_admin'']"]
    by (auto simp: parse_sys_admin requested_sys_admin)
qed

lemma unchanged_after: "\<forall>e \<in> set t. \<not> mutates e \<Longrightarrow> kc_after k t = k"
proof (induction t)
  case (Cons e t)
  then have "\<not> mutates e" by simp
  then have "kc_step k e = k" by (cases "(k, e)" rule: kc_step.cases) auto
  with Cons show ?case by simp
qed simp

lemma demo_run:
  obtains t where "drop_capabilities demo_kernel [''sys_admin''] [] = (Inr (), [] @ t)"
    "caps_removed {21} demo_caps (kc_after demo_caps t)"
proof -
  have "cap_in cw_effective (kc_data demo_caps) cap_setpcap" by code_simp
  then show ?thesis
    using drop_capabilities_doc [OF demo_documented demo_wf, of "[''sys_admin'']"] that
    by (auto simp: parse_sys_admin requested_sys_admin)
qed

theorem drop_capabilities_verified_witness:
  "\<exists>u v d. [] @ u @ (Cap Capget, RCaps linux_capability_version_3 d) # v =
       snd (drop_capabilities demo_kernel [''sys_admin''] []) \<and>
     \<not> cap_in cw_effective d 21 \<and> reads_zero 21 v"
proof -
  obtain t where t: "drop_capabilities demo_kernel [''sys_admin''] [] = (Inr (), [] @ t)" by (rule demo_run)
  from drop_capabilities_verified [OF t] show ?thesis
    using t by (auto simp: requested_sys_admin simp del: split_paired_Ex)
qed

theorem drop_capabilities_preflight_witness:
  "\<exists>t u e v d b. drop_capabilities demo_kernel [''sys_admin''] [] = (Inr (), t) \<and> t = u @ e # v \<and> mutates e \<and>
     u = (File (ReadToString ''/proc/sys/kernel/cap_last_cap''), RStr (show_word (40 :: u32) @ [CHR 0x0A])) #
         (Cap Capget, RCaps linux_capability_version_3 d) # b"
proof -
  let ?read = "File (ReadToString ''/proc/sys/kernel/cap_last_cap'')"
  obtain t where t: "drop_capabilities demo_kernel [''sys_admin''] [] = (Inr (), [] @ t)"
    and k: "caps_removed {21} demo_caps (kc_after demo_caps t)" by (rule demo_run)
  have "21 \<in> set (kc_bounding demo_caps)" by (simp add: demo_caps_def)
  then have "\<not> caps_removed {21} demo_caps demo_caps" by (auto simp: caps_removed_def)
  with k unchanged_after [of t demo_caps] obtain e where e: "e \<in> set t" "mutates e" by metis
  from e(1) obtain u v where uv: "t = u @ e # v" by (auto simp: in_set_conv_decomp)
  with t have run: "drop_capabilities demo_kernel [''sys_admin''] [] = (Inr (), [] @ u @ e # v)" by simp
  have P: "\<exists>raw d b. u = (?read, RStr raw) # (Cap Capget, RCaps linux_capability_version_3 d) # b"
    using drop_capabilities_preflight [OF run e(2)] by blast
  then obtain raw d b where u: "u = (?read, RStr raw) # (Cap Capget, RCaps linux_capability_version_3 d) # b" by blast
  have "raw = show_word (40 :: u32) @ [CHR 0x0A]"
  proof -
    have "\<exists>t. snd (drop_capabilities demo_kernel [''sys_admin''] []) = (?read, RStr (show_word (40 :: u32) @ [CHR 0x0A])) # t"
    proof -
      let ?h = "[(?read, RStr (show_word (40 :: u32) @ [CHR 0x0A]))]"
      have "snd (read_cap_last_cap demo_kernel []) = ?h"
        by (simp add: read_cap_last_cap_def sys_str_def sys_def io_bind_def io_ctx_def io_lift_def Let_def split: prod.splits sum.splits)
      moreover obtain l h1 where "read_cap_last_cap demo_kernel [] = (Inr l, h1)"
        using t by (auto simp: drop_capabilities_def io_bind_ok)
      ultimately have "io_bind (io_lift (collect_requested l [] [''sys_admin''])) (enforce_drop demo_kernel) ?h = (Inr (), t)"
        using t by (simp add: drop_capabilities_def io_bind_def)
      from emits_grows [OF emits_bind [OF emits_lift emits_enforce] this] t show ?thesis by auto
    qed
    with run u show ?thesis by simp
  qed
  with u uv t e show ?thesis by (intro exI [of _ t] exI [of _ u] exI [of _ e] exI [of _ v] exI [of _ d] exI [of _ b]) simp
qed

end
