(* ===== verification/Seccomp.thy ===== *)
theory Seccomp
  imports Sys
begin

text \<open>
  The seccomp profiles of \<open>src/isolate/seccomp.rs\<close>. A system call number \<open>SYS_name\<close> of the target is
  written by its name; the filter compiler \<open>seccompiler\<close> is outside the repository, so a built
  program is its list of allowed calls and its action for every other call, and \<open>compile\<close> says
  whether building it succeeds on this machine.

  Lemmas: which profile allows what, and unknown names installing nothing. The end of the theory says what an
  installed filter does to later calls, as the manual page documents it.
\<close>

section \<open>Profiles\<close>

definition strict_syscalls :: "string list" where
  "strict_syscalls =
  [''read'', ''write'', ''exit'', ''exit_group'', ''rt_sigreturn'', ''futex'', ''brk'', ''mmap'',
   ''mprotect'', ''munmap'', ''close'']"

definition minimal_profile_syscalls :: "string list" where
  "minimal_profile_syscalls =
  [''read'', ''write'', ''pread64'', ''pwrite64'', ''readv'', ''writev'', ''open'', ''openat'',
   ''close'', ''stat'', ''fstat'', ''lstat'', ''lseek'', ''access'', ''faccessat'', ''brk'',
   ''mmap'', ''mprotect'', ''munmap'', ''mremap'', ''madvise'', ''clone'', ''fork'', ''vfork'',
   ''execve'', ''execveat'', ''wait4'', ''waitid'', ''exit'', ''exit_group'', ''getpid'',
   ''getppid'', ''gettid'', ''getuid'', ''getgid'', ''geteuid'', ''getegid'', ''getpgrp'',
   ''setsid'', ''setpgid'', ''rt_sigaction'', ''rt_sigprocmask'', ''rt_sigreturn'',
   ''rt_sigsuspend'', ''kill'', ''tgkill'', ''getcwd'', ''chdir'', ''mkdir'', ''rmdir'',
   ''unlink'', ''unlinkat'', ''rename'', ''renameat'', ''renameat2'', ''link'', ''symlink'',
   ''readlink'', ''chmod'', ''fchmod'', ''chown'', ''fchown'', ''lchown'', ''getdents'',
   ''getdents64'', ''truncate'', ''ftruncate'', ''fsync'', ''fdatasync'', ''dup'', ''dup2'',
   ''dup3'', ''fcntl'', ''ioctl'', ''pipe'', ''pipe2'', ''clock_gettime'', ''clock_nanosleep'',
   ''nanosleep'', ''gettimeofday'', ''time'', ''futex'', ''set_robust_list'', ''get_robust_list'',
   ''arch_prctl'', ''prctl'', ''set_tid_address'', ''uname'', ''sysinfo'', ''getrlimit'',
   ''setrlimit'', ''prlimit64'', ''getrusage'', ''umask'', ''poll'', ''ppoll'', ''select'',
   ''pselect6'', ''epoll_create'', ''epoll_create1'', ''epoll_ctl'', ''epoll_wait'',
   ''epoll_pwait'', ''eventfd'', ''eventfd2'', ''timerfd_create'', ''timerfd_settime'',
   ''timerfd_gettime'', ''signalfd'', ''signalfd4'', ''inotify_init'', ''inotify_init1'',
   ''inotify_add_watch'', ''inotify_rm_watch'', ''memfd_create'', ''copy_file_range'']"

definition minimal_syscall_list :: "string list" where
  "minimal_syscall_list =
  [''read'', ''write'', ''pread64'', ''pwrite64'', ''readv'', ''writev'', ''open'', ''openat'',
   ''close'', ''stat'', ''fstat'', ''lstat'', ''lseek'', ''access'', ''faccessat'', ''brk'',
   ''mmap'', ''mprotect'', ''munmap'', ''mremap'', ''madvise'', ''clone'', ''fork'', ''vfork'',
   ''execve'', ''execveat'', ''wait4'', ''waitid'', ''exit'', ''exit_group'', ''getpid'',
   ''getppid'', ''gettid'', ''getuid'', ''getgid'', ''geteuid'', ''getegid'', ''getpgrp'',
   ''setsid'', ''setpgid'', ''rt_sigaction'', ''rt_sigprocmask'', ''rt_sigreturn'',
   ''rt_sigsuspend'', ''kill'', ''tgkill'', ''getcwd'', ''chdir'', ''mkdir'', ''rmdir'',
   ''unlink'', ''unlinkat'', ''rename'', ''renameat'', ''renameat2'', ''link'', ''symlink'',
   ''readlink'', ''chmod'', ''fchmod'', ''chown'', ''fchown'', ''lchown'', ''getdents'',
   ''getdents64'', ''truncate'', ''ftruncate'', ''fsync'', ''fdatasync'', ''dup'', ''dup2'',
   ''dup3'', ''fcntl'', ''ioctl'', ''pipe'', ''pipe2'', ''clock_gettime'', ''clock_nanosleep'',
   ''nanosleep'', ''gettimeofday'', ''time'', ''futex'', ''set_robust_list'', ''get_robust_list'',
   ''arch_prctl'', ''prctl'', ''set_tid_address'', ''uname'', ''sysinfo'', ''getrlimit'',
   ''setrlimit'', ''prlimit64'', ''getrusage'', ''umask'', ''poll'', ''ppoll'', ''select'',
   ''pselect6'', ''epoll_create'', ''epoll_create1'', ''epoll_ctl'', ''epoll_wait'',
   ''epoll_pwait'', ''eventfd'', ''eventfd2'', ''timerfd_create'', ''timerfd_settime'',
   ''timerfd_gettime'', ''signalfd'', ''signalfd4'', ''inotify_init'', ''inotify_init1'',
   ''inotify_add_watch'', ''inotify_rm_watch'', ''memfd_create'', ''copy_file_range'']"

definition network_syscalls :: "string list" where
  "network_syscalls =
  [''socket'', ''connect'', ''accept'', ''accept4'', ''bind'', ''listen'', ''getsockname'',
   ''getpeername'', ''socketpair'', ''setsockopt'', ''getsockopt'', ''sendto'', ''recvfrom'',
   ''sendmsg'', ''recvmsg'', ''sendfile'', ''shutdown'', ''sendmmsg'', ''recvmmsg'']"

record bpf_program =
  bpf_allowed :: "string list"
  bpf_otherwise :: filter_action

definition build_allow_list ::
    "(bpf_program \<Rightarrow> unit result) \<Rightarrow> string list \<Rightarrow> filter_action \<Rightarrow> bpf_program result" where
  "build_allow_list compile syscalls default_action =
     (let p = \<lparr>bpf_allowed = syscalls, bpf_otherwise = default_action\<rparr>
      in res_bind (compile p) (\<lambda>_. Inr p))"

definition build_strict :: "(bpf_program \<Rightarrow> unit result) \<Rightarrow> bpf_program result" where
  "build_strict compile = build_allow_list compile strict_syscalls KillProcess"

definition build_minimal :: "(bpf_program \<Rightarrow> unit result) \<Rightarrow> bpf_program result" where
  "build_minimal compile = build_allow_list compile minimal_profile_syscalls ErrnoEPERM"

definition build_default :: "(bpf_program \<Rightarrow> unit result) \<Rightarrow> bpf_program result" where
  "build_default compile = build_allow_list compile (minimal_syscall_list @ network_syscalls) ErrnoEPERM"

definition build_profile :: "(bpf_program \<Rightarrow> unit result) \<Rightarrow> string \<Rightarrow> bpf_program result" where
  "build_profile compile profile =
     (if profile = ''strict'' then build_strict compile
      else if profile = ''minimal'' then build_minimal compile
      else if profile = ''default'' then build_default compile
      else bail (''Unknown seccomp profile '' @ squote profile @
                 ''; supported profiles are: strict, minimal, default''))"

definition apply_seccomp :: "(bpf_program \<Rightarrow> unit result) \<Rightarrow> env \<Rightarrow> string \<Rightarrow> (history, unit) io" where
  "apply_seccomp compile env profile =
     io_bind (io_lift (build_profile compile profile)) (\<lambda>program.
       io_ctx (''Failed to apply seccomp profile '' @ squote profile)
         (sys_unit env (InstallFilter (bpf_allowed program) (bpf_otherwise program))))"

section \<open>Properties\<close>

lemma build_profile_ok:
  "build_profile compile profile = Inr p \<Longrightarrow>
     compile p = Inr () \<and>
     (profile = ''strict'' \<and> p = \<lparr>bpf_allowed = strict_syscalls, bpf_otherwise = KillProcess\<rparr> \<or>
      profile = ''minimal'' \<and> p = \<lparr>bpf_allowed = minimal_profile_syscalls, bpf_otherwise = ErrnoEPERM\<rparr> \<or>
      profile = ''default'' \<and>
        p = \<lparr>bpf_allowed = minimal_syscall_list @ network_syscalls, bpf_otherwise = ErrnoEPERM\<rparr>)"
  by (auto simp: build_profile_def build_strict_def build_minimal_def build_default_def
      build_allow_list_def Let_def split: if_splits)

lemma emits_apply_seccomp [emits_intros]:
  "(\<And>l a r. P (InstallFilter l a, r)) \<Longrightarrow> emits P (apply_seccomp compile env profile)"
  unfolding apply_seccomp_def by (intro emits_intros)

lemma apply_seccomp_ok:
  "apply_seccomp compile env profile h = (Inr (), h') \<longleftrightarrow>
     (\<exists>p. build_profile compile profile = Inr p \<and>
        env h (InstallFilter (bpf_allowed p) (bpf_otherwise p)) = ROk \<and>
        h' = h @ [(InstallFilter (bpf_allowed p) (bpf_otherwise p), ROk)])"
  by (auto simp: apply_seccomp_def io_bind_ok sys_unit_ok)

lemma minimal_lists_agree: "minimal_profile_syscalls = minimal_syscall_list"
  by (simp add: minimal_profile_syscalls_def minimal_syscall_list_def)

text \<open>The profiles form a chain: what strict allows minimal allows, and what minimal allows default
  allows; default adds the socket calls and minimal allows none of them.\<close>
theorem seccomp_profiles_nested:
  "set strict_syscalls \<subseteq> set minimal_profile_syscalls \<and>
   set (minimal_syscall_list @ network_syscalls) = set minimal_profile_syscalls \<union> set network_syscalls \<and>
   set network_syscalls \<inter> set minimal_profile_syscalls = {}"
  by (simp add: minimal_lists_agree, simp add: strict_syscalls_def minimal_syscall_list_def network_syscalls_def)

section \<open>The documented effect of filters\<close>

text \<open>
  What \<open>seccomp\<close>(2) says of the filters a task has installed: every filter is consulted, and the strongest answer
  counts. A system call some \<open>KillProcess\<close> filter does not allow ends the task; otherwise one that some
  \<open>ErrnoEPERM\<close> filter does not allow fails with \<open>EPERM\<close>; otherwise the filters let it through.
\<close>

fun omits :: "string \<Rightarrow> filter_action \<Rightarrow> call \<times> reply \<Rightarrow> bool" where
  "omits name act (InstallFilter l a, ROk) = (a = act \<and> name \<notin> set l)"
| "omits name act e = False"

definition action_on :: "history \<Rightarrow> string \<Rightarrow> filter_action option" where
  "action_on h name =
     (if list_ex (omits name KillProcess) h then Some KillProcess
      else if list_ex (omits name ErrnoEPERM) h then Some ErrnoEPERM else None)"

text \<open>The system calls behind the calls of the programs that run under a filter.\<close>

fun syscall_of :: "call \<Rightarrow> string option" where
  "syscall_of (Task (SetCurrentDir p)) = Some ''chdir''"
| "syscall_of (Task GetPid) = Some ''getpid''"
| "syscall_of (Task (Execv p a)) = Some ''execve''"
| "syscall_of (Task SetNoNewPrivs) = Some ''prctl''"
| "syscall_of (Ctl (CtlWrite t)) = Some ''write''"
| "syscall_of (Probe PrGetNoNewPrivs) = Some ''prctl''"
| "syscall_of (Probe PrGetSeccomp) = Some ''prctl''"
| "syscall_of (Probe SocketInet) = Some ''socket''"
| "syscall_of (Probe (CloseFd fd)) = Some ''close''"
| "syscall_of c = None"

text \<open>The reply to a call that failed with \<open>EPERM\<close>.\<close>

definition eperm :: int where
  "eperm = 1"

fun denied :: "call \<Rightarrow> reply" where
  "denied (Probe c) = RInt (- eperm)"
| "denied c = RErr ''Operation not permitted (os error 1)''"

definition documented_filters :: "env \<Rightarrow> bool" where
  "documented_filters env \<longleftrightarrow> (\<forall>h c name. syscall_of c = Some name \<longrightarrow>
     (action_on h name = Some KillProcess \<longrightarrow> env h c = RKilled) \<and>
     (action_on h name = Some ErrnoEPERM \<longrightarrow> env h c = denied c))"

text \<open>The half of it that concerns killing.\<close>

definition enforces_filters :: "env \<Rightarrow> bool" where
  "enforces_filters env \<longleftrightarrow> (\<forall>h l c call. (InstallFilter l KillProcess, ROk) \<in> set h \<longrightarrow>
     syscall_of c = Some call \<longrightarrow> call \<notin> set l \<longrightarrow> env h c = RKilled)"

lemma documented_enforces: "documented_filters env \<Longrightarrow> enforces_filters env"
  unfolding documented_filters_def enforces_filters_def action_on_def list_ex_iff
  by (metis omits.simps(1))

text \<open>Any world, its task put under its filters.\<close>

definition filtered :: "env \<Rightarrow> env" where
  "filtered env h c = (case Option.bind (syscall_of c) (action_on h) of
       Some KillProcess \<Rightarrow> RKilled | Some ErrnoEPERM \<Rightarrow> denied c | None \<Rightarrow> env h c)"

lemma filtered_documented: "documented_filters (filtered env)"
  by (simp add: documented_filters_def filtered_def)

end
