(* ===== verification/Seed_Manifest.thy ===== *)
theory Seed_Manifest
  imports Sys
begin

text \<open>
  The manifests of \<open>src/seed.rs\<close>: the Seed and Garden data types with their serde defaults, the
  memory-size parser and the two validators. Reading YAML text into these records is serde_yaml's
  work and not modelled; what the attributes of the file say about absent fields is
  (\<open>user_of_yaml\<close> and its kin). The validators ask whether root paths exist, and only log the answer:
  they are programs on the history, and what they accept does not depend on it.

  Lemmas: the memory parser against a table of units, its round trip with the printer, exactness
  and wrap-around at 64 bits; the validators as an exact characterisation of what they accept.
\<close>

section \<open>Seed data\<close>

record seed_meta =
  sm_name :: string
  sm_id :: string

record rootfs_config =
  rf_path :: string

record entrypoint_config =
  ep_cmd :: "string list"
  ep_env :: "string list"
  ep_cwd :: string

definition default_cwd :: string where
  "default_cwd = ''/''"

record cpu_limit =
  cpu_shares :: "u64 option"

record memory_limit =
  mem_max :: "string option"

record pids_limit =
  pids_max :: "u64 option"

record limits_config =
  lim_cpu :: cpu_limit
  lim_memory :: memory_limit
  lim_pids :: pids_limit

record net_config =
  net_enable :: bool

record mount_config =
  mt_type :: string
  mt_source :: "string option"
  mt_target :: string
  mt_options :: "string list"

record security_config =
  sec_hostname :: "string option"
  sec_drop_caps :: "string list"
  sec_seccomp_profile :: "string option"

record user_config =
  us_uid :: u32
  us_gid :: u32
  us_map_rootless :: bool

definition default_uid :: u32 where
  "default_uid = 1000"

definition default_gid :: u32 where
  "default_gid = 1000"

record logging_config =
  lg_mode :: string

definition default_log_mode :: string where
  "default_log_mode = ''json''"

record store_config =
  sc_kind :: string

definition default_store_kind :: string where
  "default_store_kind = ''mem''"

record seed =
  sd_api_version :: string
  sd_kind :: string
  sd_meta :: seed_meta
  sd_rootfs :: rootfs_config
  sd_entrypoint :: entrypoint_config
  sd_limits :: limits_config
  sd_net :: net_config
  sd_mounts :: "mount_config list"
  sd_security :: security_config
  sd_user :: user_config
  sd_logging :: logging_config
  sd_store :: store_config

text \<open>
  The derived \<open>Default\<close> of a section (the value serde takes when the whole section is absent) and
  the section read from YAML: an absent section is the derived default, an absent field of a
  present section is the field's own default.
\<close>

definition user_config_default :: user_config where
  "user_config_default = \<lparr>us_uid = 0, us_gid = 0, us_map_rootless = False\<rparr>"

fun user_of_yaml :: "(u32 option \<times> u32 option \<times> bool option) option \<Rightarrow> user_config" where
  "user_of_yaml None = user_config_default"
| "user_of_yaml (Some (u, g, m)) =
     \<lparr>us_uid = case_option default_uid id u, us_gid = case_option default_gid id g,
      us_map_rootless = case_option False id m\<rparr>"

fun logging_of_yaml :: "string option option \<Rightarrow> logging_config" where
  "logging_of_yaml None = \<lparr>lg_mode = []\<rparr>"
| "logging_of_yaml (Some m) = \<lparr>lg_mode = case_option default_log_mode id m\<rparr>"

fun store_of_yaml :: "string option option \<Rightarrow> store_config" where
  "store_of_yaml None = \<lparr>sc_kind = []\<rparr>"
| "store_of_yaml (Some k) = \<lparr>sc_kind = case_option default_store_kind id k\<rparr>"

section \<open>Memory sizes\<close>

text \<open>
  \<open>parse_memory_string\<close>, suffix by suffix in the source's order. The multiplications are on \<open>u64\<close>
  and wrap, as in the release build the README builds (Cargo.toml leaves overflow checks at their
  default; the debug build panics instead).
\<close>

definition parse_memory_string :: "string \<Rightarrow> u64 result" where
  "parse_memory_string s0 =
     (let s = trim s0 in
      case strip_suffix ''Ki'' s of Some rest \<Rightarrow>
        res_bind (parse_u64 rest) (\<lambda>val. Inr (val * 1024))
      | None \<Rightarrow>
     (case strip_suffix ''Mi'' s of Some rest \<Rightarrow>
        res_bind (parse_u64 rest) (\<lambda>val. Inr (val * 1024 * 1024))
      | None \<Rightarrow>
     (case strip_suffix ''Gi'' s of Some rest \<Rightarrow>
        res_bind (parse_u64 rest) (\<lambda>val. Inr (val * 1024 * 1024 * 1024))
      | None \<Rightarrow>
     (case strip_suffix ''K'' s of Some rest \<Rightarrow>
        res_bind (parse_u64 rest) (\<lambda>val. Inr (val * 1000))
      | None \<Rightarrow>
     (case strip_suffix ''M'' s of Some rest \<Rightarrow>
        res_bind (parse_u64 rest) (\<lambda>val. Inr (val * 1000 * 1000))
      | None \<Rightarrow>
     (case strip_suffix ''G'' s of Some rest \<Rightarrow>
        res_bind (parse_u64 rest) (\<lambda>val. Inr (val * 1000 * 1000 * 1000))
      | None \<Rightarrow> with_ctx ''Invalid number format'' (parse_u64 s)))))))"

section \<open>Seed validation\<close>

definition validate_memory :: "string \<Rightarrow> memory_limit \<Rightarrow> unit result" where
  "validate_memory what m =
     (case mem_max m of
        None \<Rightarrow> Inr ()
      | Some v \<Rightarrow> with_ctx (what @ v) (res_bind (parse_memory_string v) (\<lambda>_. Inr ())))"

definition seed_validate :: "env \<Rightarrow> seed \<Rightarrow> (history, unit) io" where
  "seed_validate env s =
     (if sd_api_version s \<noteq> ''v0'' then io_bail (''Unsupported API version: '' @ sd_api_version s)
      else if sd_kind s \<noteq> ''Seed'' then io_bail (''Invalid kind: '' @ sd_kind s @ '', expected '' @ squote ''Seed'')
      else if ep_cmd (sd_entrypoint s) = [] then io_bail ''Entrypoint cmd cannot be empty''
      else io_bind (sys_exists env (rf_path (sd_rootfs s))) (\<lambda>_.
        io_lift (validate_memory ''Invalid memory limit format: '' (lim_memory (sd_limits s)))))"

section \<open>Garden data\<close>

record layers_spec =
  ly_lower :: "string list"
  ly_upper :: string
  ly_work :: string

datatype container_rootfs = RootPath string | RootLayers layers_spec

record volume_mount =
  vm_name :: string
  vm_mount_path :: string
  vm_read_only :: bool

record container =
  ct_name :: string
  ct_rootfs :: container_rootfs
  ct_entrypoint :: entrypoint_config
  ct_limits :: limits_config
  ct_mounts :: "mount_config list"
  ct_user :: user_config
  ct_ports :: "16 word list"
  ct_volume_mounts :: "volume_mount list"

record garden_net_config =
  gn_preset :: string
  gn_ip :: "string option"
  gn_dns :: "string list"

definition default_net_preset :: string where
  "default_net_preset = ''bridge''"

definition default_dns :: "string list" where
  "default_dns = [''1.1.1.1'', ''8.8.8.8'']"

definition garden_net_config_default :: garden_net_config where
  "garden_net_config_default = \<lparr>gn_preset = default_net_preset, gn_ip = None, gn_dns = default_dns\<rparr>"

record service_spec =
  sv_name :: string
  sv_port :: "16 word"
  sv_target_container :: string
  sv_protocol :: string

record empty_dir_volume =
  ed_medium :: string
  ed_size_limit :: "string option"

record host_path_volume =
  hp_path :: string
  hp_read_only :: bool

record named_volume =
  nv_name :: string
  nv_size_limit :: "string option"

record config_item =
  ci_path :: string
  ci_content :: string

record secret_volume =
  sec_ref :: string

datatype volume_type =
    EmptyDir empty_dir_volume
  | HostPath host_path_volume
  | NamedVolume named_volume
  | Config "config_item list"
  | Secret secret_volume

record volume_spec =
  vs_name :: string
  vs_type :: volume_type

record garden =
  gd_api_version :: string
  gd_kind :: string
  gd_meta :: seed_meta
  gd_net :: garden_net_config
  gd_security :: security_config
  gd_restart_policy :: string
  gd_services :: "service_spec list"
  gd_containers :: "container list"
  gd_volumes :: "volume_spec list"
  gd_logging :: logging_config
  gd_store :: store_config

datatype restart_policy = Never | OnFailure | Always

definition default_restart_policy :: string where
  "default_restart_policy = ''Never''"

definition restart_policy_from_str :: "string \<Rightarrow> restart_policy result" where
  "restart_policy_from_str s =
     (if s = ''Never'' then Inr Never
      else if s = ''OnFailure'' then Inr OnFailure
      else if s = ''Always'' then Inr Always
      else bail (''Unknown restart policy: '' @ s))"

definition get_restart_policy :: "garden \<Rightarrow> restart_policy result" where
  "get_restart_policy g = restart_policy_from_str (gd_restart_policy g)"

section \<open>Garden validation\<close>

definition validate_rootfs :: "env \<Rightarrow> string \<Rightarrow> container_rootfs \<Rightarrow> (history, unit) io" where
  "validate_rootfs env name r =
     (case r of
        RootPath p \<Rightarrow> io_bind (sys_exists env p) (\<lambda>_. io_return ())
      | RootLayers l \<Rightarrow>
          if ly_upper l = [] then io_bail (''Container '' @ name @ '' has empty upper layer'')
          else if ly_work l = [] then io_bail (''Container '' @ name @ '' has empty work layer'')
          else io_return ())"

definition validate_container :: "env \<Rightarrow> nat \<Rightarrow> container \<Rightarrow> (history, unit) io" where
  "validate_container env idx c =
     (if ct_name c = [] then io_bail (''Container '' @ show_nat idx @ '' has empty name'')
      else if ep_cmd (ct_entrypoint c) = [] then io_bail (''Container '' @ ct_name c @ '' has empty command'')
      else io_seq (io_lift (validate_memory (''Invalid memory limit for container '' @ ct_name c @ '': '')
                              (lim_memory (ct_limits c))))
             (validate_rootfs env (ct_name c) (ct_rootfs c)))"

fun validate_containers :: "env \<Rightarrow> nat \<Rightarrow> container list \<Rightarrow> (history, unit) io" where
  "validate_containers env idx [] = io_return ()"
| "validate_containers env idx (c # cs) =
     io_seq (validate_container env idx c) (validate_containers env (Suc idx) cs)"

definition validate_ip :: "garden_net_config \<Rightarrow> unit result" where
  "validate_ip n =
     (case gn_ip n of
        None \<Rightarrow> Inr ()
      | Some ip \<Rightarrow>
          if CHR ''/'' \<notin> set ip
          then bail ''IP address must be in CIDR format (e.g., 10.44.0.10/24)''
          else Inr ())"

definition garden_validate :: "env \<Rightarrow> garden \<Rightarrow> (history, unit) io" where
  "garden_validate env g =
     (if gd_api_version g \<noteq> ''v0'' then io_bail (''Unsupported API version: '' @ gd_api_version g)
      else if gd_kind g \<noteq> ''Garden'' then io_bail (''Invalid kind: '' @ gd_kind g @ '', expected '' @ squote ''Garden'')
      else if gd_containers g = [] then io_bail ''Garden must have at least one container''
      else io_seq (validate_containers env 0 (gd_containers g))
          (io_bind (io_lift (restart_policy_from_str (gd_restart_policy g))) (\<lambda>_.
             io_lift (validate_ip (gd_net g)))))"

section \<open>The memory parser against its table of units\<close>

definition mem_units :: "(string \<times> nat) list" where
  "mem_units =
     [(''Ki'', 1024), (''Mi'', 1024 ^ 2), (''Gi'', 1024 ^ 3),
      (''K'', 1000), (''M'', 1000 ^ 2), (''G'', 1000 ^ 3), ([], 1)]"

lemma parse_u64_Inr: "parse_u64 s = Inr w \<longleftrightarrow> (\<exists>n. parse_uint (2 ^ 64) s = Inr n \<and> w = of_nat n)"
  by (auto simp: parse_u64_def)

lemma parse_u64_no_letter:
  assumes "digit_val c = None" "c \<noteq> CHR ''+''"
  shows "parse_u64 (r @ [c]) \<noteq> Inr w"
proof -
  have "\<not> is_ok (parse_uint (2 ^ 64) (r @ [c]))"
    using parse_uint_invalid [OF assms, of "2 ^ 64" r "[]"] by simp
  then show ?thesis by (auto simp: parse_u64_Inr is_ok_iff simp del: power_numeral)
qed

lemma parse_u64_suffix:
  assumes "\<exists>c. suffix [c] s \<and> digit_val c = None \<and> c \<noteq> CHR ''+''"
  shows "parse_u64 s \<noteq> Inr w"
  using assms parse_u64_no_letter unfolding suffix_def by metis

lemma not_digit [simp]:
  "digit_val (CHR ''i'') = None" "digit_val (CHR ''K'') = None" "digit_val (CHR ''M'') = None"
  "digit_val (CHR ''G'') = None" "digit_val (CHR ''/'') = None" "digit_val (CHR ''.'') = None"
  by (simp_all add: digit_val_def less_eq_char_def)

lemma mem_units_scale:
  "of_nat n * 1024 * 1024 = (of_nat (n * 1024 ^ 2) :: u64)"
  "of_nat n * 1024 * 1024 * 1024 = (of_nat (n * 1024 ^ 3) :: u64)"
  "of_nat n * 1000 * 1000 = (of_nat (n * 1000 ^ 2) :: u64)"
  "of_nat n * 1000 * 1000 * 1000 = (of_nat (n * 1000 ^ 3) :: u64)"
  by (simp_all add: power2_eq_square power3_eq_cube mult.assoc)

lemma mem_units_ex:
  "(\<exists>u k r n. (u, k) \<in> set mem_units \<and> P u k r n) \<longleftrightarrow>
     (\<exists>r n. P ''Ki'' 1024 r n) \<or> (\<exists>r n. P ''Mi'' (1024 ^ 2) r n) \<or> (\<exists>r n. P ''Gi'' (1024 ^ 3) r n) \<or>
     (\<exists>r n. P ''K'' 1000 r n) \<or> (\<exists>r n. P ''M'' (1000 ^ 2) r n) \<or> (\<exists>r n. P ''G'' (1000 ^ 3) r n) \<or>
     (\<exists>r n. P [] 1 r n)"
  unfolding mem_units_def by auto

lemma parse_memory_sound:
  "parse_memory_string s = Inr b \<Longrightarrow>
    \<exists>u k r n. (u, k) \<in> set mem_units \<and> trim s = r @ u \<and> parse_uint (2 ^ 64) r = Inr n \<and> b = of_nat (n * k)"
  unfolding mem_units_ex parse_memory_string_def Let_def
  by (auto simp: strip_suffix_Some parse_u64_Inr mem_units_scale simp del: power_numeral of_nat_mult split: option.splits)
    (simp_all add: mult.commute)


lemma parse_u64_no_suffix:
  assumes "parse_u64 r = Inr w" "p \<noteq> []" "digit_val (last p) = None" "last p \<noteq> CHR ''+''"
  shows "strip_suffix p r = None"
proof -
  have "suffix [last p] r" if "suffix p r"
    using that assms(2) suffix_order.trans [of "[last p]" p r] 
    by (auto simp: suffix_def) (metis append_assoc append_butlast_last_id)
  then show ?thesis
    using parse_u64_suffix [of r w] assms by (auto simp: strip_suffix_None)
qed

lemma parse_memory_complete:
  assumes u: "(u, k) \<in> set mem_units" and t: "trim s = r @ u" and n: "parse_uint (2 ^ 64) r = Inr n"
  shows "parse_memory_string s = Inr (of_nat (n * k))"
proof -
  have p: "parse_u64 r = Inr (of_nat n)" using n by (simp add: parse_u64_Inr del: power_numeral)
  note no = parse_u64_no_suffix [OF p]
  show ?thesis
  proof (cases "u = []")
    case True
    then have "trim s = r" "k = 1" using t u by (auto simp: mem_units_def)
    then show ?thesis by (simp add: parse_memory_string_def p no)
  next
    case False
    then show ?thesis using u unfolding mem_units_def parse_memory_string_def Let_def t
      by (elim set_ConsD [elim_format] disjE) (simp_all add: p algebra_simps)
  qed
qed

section \<open>What the validators accept\<close>

definition memory_ok :: "memory_limit \<Rightarrow> bool" where
  "memory_ok m \<longleftrightarrow> (case mem_max m of None \<Rightarrow> True | Some v \<Rightarrow> is_ok (parse_memory_string v))"

definition layers_ok :: "container_rootfs \<Rightarrow> bool" where
  "layers_ok r \<longleftrightarrow> (case r of RootPath p \<Rightarrow> True | RootLayers l \<Rightarrow> ly_upper l \<noteq> [] \<and> ly_work l \<noteq> [])"

definition container_ok :: "container \<Rightarrow> bool" where
  "container_ok c \<longleftrightarrow> ct_name c \<noteq> [] \<and> ep_cmd (ct_entrypoint c) \<noteq> [] \<and>
     memory_ok (lim_memory (ct_limits c)) \<and> layers_ok (ct_rootfs c)"

definition seed_ok :: "seed \<Rightarrow> bool" where
  "seed_ok s \<longleftrightarrow> sd_api_version s = ''v0'' \<and> sd_kind s = ''Seed'' \<and> ep_cmd (sd_entrypoint s) \<noteq> [] \<and>
     memory_ok (lim_memory (sd_limits s))"

definition garden_ok :: "garden \<Rightarrow> bool" where
  "garden_ok g \<longleftrightarrow> gd_api_version g = ''v0'' \<and> gd_kind g = ''Garden'' \<and> gd_containers g \<noteq> [] \<and>
     list_all container_ok (gd_containers g) \<and>
     gd_restart_policy g \<in> {''Never'', ''OnFailure'', ''Always''} \<and>
     (case gn_ip (gd_net g) of None \<Rightarrow> True | Some ip \<Rightarrow> CHR ''/'' \<in> set ip)"

text \<open>
  \<open>checks m b\<close>: a run of \<open>m\<close> does nothing but ask whether paths exist, and unless the task is killed in one of
  these calls it succeeds exactly when \<open>b\<close> holds, whatever the answers.
\<close>

fun exists_check :: "call \<times> reply \<Rightarrow> bool" where
  "exists_check (File (PathExists p), r) = True"
| "exists_check _ = False"

definition was_killed :: "call \<times> reply \<Rightarrow> bool" where
  "was_killed e \<longleftrightarrow> snd e = RKilled"

definition checks :: "(history, unit) io \<Rightarrow> bool \<Rightarrow> bool" where
  "checks m b \<longleftrightarrow> (\<forall>h. \<exists>t. snd (m h) = h @ t \<and> list_all exists_check t \<and>
     (if list_ex was_killed t then fst (m h) = Inl Killed else fst (m h) = Inr () \<longleftrightarrow> b))"

lemma checksD:
  assumes "checks m b" "m h = (r, h')"
  obtains t where "h' = h @ t" "list_all exists_check t"
    "if list_ex was_killed t then r = Inl Killed else r = Inr () \<longleftrightarrow> b"
  using assms unfolding checks_def by (metis fst_conv snd_conv)

lemma checks_lift: "checks (io_lift r) (is_ok r)"
  by (auto simp: checks_def io_lift_def is_ok_iff)

lemma checks_bail: "checks (io_bail m) False" and checks_return: "checks (io_return ()) True"
  by (auto simp: checks_def io_bail_def io_lift_def io_return_def bail_def)

lemma checks_seq:
  assumes "checks m b" "b \<Longrightarrow> checks n c" "\<not> b \<Longrightarrow> \<not> c"
  shows "checks (io_seq m n) c"
  unfolding checks_def
proof
  fix h
  obtain r h1 where m: "m h = (r, h1)" by fastforce
  from checksD [OF assms(1) m] obtain t where t: "h1 = h @ t" "list_all exists_check t"
    "if list_ex was_killed t then r = Inl Killed else r = Inr () \<longleftrightarrow> b" .
  show "\<exists>t. snd (io_seq m n h) = h @ t \<and> list_all exists_check t \<and>
     (if list_ex was_killed t then fst (io_seq m n h) = Inl Killed else fst (io_seq m n h) = Inr () \<longleftrightarrow> c)"
  proof (cases r)
    case (Inl e)
    then show ?thesis using t m assms(3) by (intro exI [of _ t]) (auto simp: io_seq_def io_bind_def split: if_splits)
  next
    case (Inr u)
    then have b: b "\<not> list_ex was_killed t" using t(3) by (auto split: if_splits)
    obtain r2 h2 where n: "n h1 = (r2, h2)" by fastforce
    from checksD [OF assms(2) [OF b(1)] n] obtain t2 where "h2 = h1 @ t2" "list_all exists_check t2"
      "if list_ex was_killed t2 then r2 = Inl Killed else r2 = Inr () \<longleftrightarrow> c" .
    then show ?thesis using t b m n Inr
      by (intro exI [of _ "t @ t2"]) (auto simp: io_seq_def io_bind_def split: if_splits)
  qed
qed

lemma checks_exists: "checks m b \<Longrightarrow> checks (io_bind (sys_exists env p) (\<lambda>_. m)) b"
proof -
  have "checks (io_bind (sys_exists env p) (\<lambda>_. io_return ())) True"
    by (auto simp: checks_def sys_exists_def sys_def io_bind_def io_return_def Let_def was_killed_def)
  then have "checks (io_seq (io_bind (sys_exists env p) (\<lambda>_. io_return ())) m) b" if "checks m b"
    using that by (rule checks_seq) simp
  then show "checks m b \<Longrightarrow> ?thesis" by (simp add: io_seq_def io_bind_assoc)
qed

lemma memory_ok_iff: "is_ok (validate_memory w m) = memory_ok m"
  by (auto simp: validate_memory_def memory_ok_def is_ok_iff split: option.splits)

lemma checks_memory: "checks (io_lift (validate_memory w m)) (memory_ok m)"
  using checks_lift [of "validate_memory w m"] by (simp add: memory_ok_iff)

lemma seed_checks: "checks (seed_validate env s) (seed_ok s)"
  by (simp add: seed_validate_def seed_ok_def checks_bail checks_exists [OF checks_memory])

lemma rootfs_checks: "checks (validate_rootfs env n r) (layers_ok r)"
  using checks_exists [OF checks_return] checks_bail checks_return
  by (cases r) (auto simp: validate_rootfs_def layers_ok_def)

lemma container_checks: "checks (validate_container env i c) (container_ok c)"
proof -
  have "checks (io_seq (io_lift (validate_memory w (lim_memory (ct_limits c)))) (validate_rootfs env n (ct_rootfs c)))
      (memory_ok (lim_memory (ct_limits c)) \<and> layers_ok (ct_rootfs c))" for w n
    by (rule checks_seq [OF checks_memory]) (simp_all add: rootfs_checks)
  then show ?thesis by (simp add: validate_container_def container_ok_def checks_bail)
qed

lemma containers_checks: "checks (validate_containers env i cs) (list_all container_ok cs)"
proof (induction cs arbitrary: i)
  case (Cons c cs)
  show ?case
    by (simp, rule checks_seq [OF container_checks]) (simp_all add: Cons)
qed (simp add: checks_return)

lemma restart_policy_Inr:
  "restart_policy_from_str s = Inr p \<longleftrightarrow>
     s = (case p of Never \<Rightarrow> ''Never'' | OnFailure \<Rightarrow> ''OnFailure'' | Always \<Rightarrow> ''Always'')"
  by (auto simp: restart_policy_from_str_def split: restart_policy.splits)

lemma policy_ok: "is_ok (restart_policy_from_str p) \<longleftrightarrow> p \<in> {''Never'', ''OnFailure'', ''Always''}"
  by (auto simp: restart_policy_from_str_def)

lemma garden_checks: "checks (garden_validate env g) (garden_ok g)"
proof -
  let ?ip = "case gn_ip (gd_net g) of None \<Rightarrow> True | Some ip \<Rightarrow> CHR ''/'' \<in> set ip"
  have "is_ok (validate_ip (gd_net g)) = ?ip" by (simp add: validate_ip_def split: option.splits)
  then have ip: "checks (io_lift (validate_ip (gd_net g))) ?ip" using checks_lift by metis
  have "checks (io_seq (io_lift (restart_policy_from_str (gd_restart_policy g))) n) x"
    if "checks n c" "x \<longleftrightarrow> is_ok (restart_policy_from_str (gd_restart_policy g)) \<and> c" for n c x
    using that by (cases "restart_policy_from_str (gd_restart_policy g)")
      (simp_all add: io_seq_def io_bind_def io_lift_def checks_def)
  from this [OF ip refl] have "checks (io_seq (validate_containers env 0 (gd_containers g))
      (io_seq (io_lift (restart_policy_from_str (gd_restart_policy g))) (io_lift (validate_ip (gd_net g)))))
      (list_all container_ok (gd_containers g) \<and> gd_restart_policy g \<in> {''Never'', ''OnFailure'', ''Always''} \<and> ?ip)"
    by (intro checks_seq [OF containers_checks]) (auto simp: policy_ok)
  then show ?thesis by (simp add: garden_validate_def garden_ok_def io_seq_def checks_bail)
qed

section \<open>Example manifests\<close>

text \<open>\<open>examples/seed-busybox.yaml\<close> and a container of \<open>examples/garden-echo.yaml\<close>, as read.\<close>

definition seed_busybox :: seed where
  "seed_busybox =
     \<lparr>sd_api_version = ''v0'', sd_kind = ''Seed'',
      sd_meta = \<lparr>sm_name = ''demo-busybox'', sm_id = ''demo-001''\<rparr>,
      sd_rootfs = \<lparr>rf_path = ''./examples/rootfs-busybox''\<rparr>,
      sd_entrypoint = \<lparr>ep_cmd = [''/bin/sh'', ''-c'', ''echo hello''],
        ep_env = [''RUST_LOG=info'', ''HOME=/root''], ep_cwd = ''/''\<rparr>,
      sd_limits = \<lparr>lim_cpu = \<lparr>cpu_shares = Some 256\<rparr>, lim_memory = \<lparr>mem_max = Some ''128Mi''\<rparr>,
        lim_pids = \<lparr>pids_max = Some 64\<rparr>\<rparr>,
      sd_net = \<lparr>net_enable = True\<rparr>,
      sd_mounts = [\<lparr>mt_type = ''proc'', mt_source = None, mt_target = ''/proc'', mt_options = []\<rparr>],
      sd_security = \<lparr>sec_hostname = Some ''seed-demo'',
        sec_drop_caps = [''NET_ADMIN'', ''SYS_ADMIN'', ''SYS_MODULE''],
        sec_seccomp_profile = Some ''minimal''\<rparr>,
      sd_user = \<lparr>us_uid = 1000, us_gid = 1000, us_map_rootless = True\<rparr>,
      sd_logging = \<lparr>lg_mode = ''json''\<rparr>, sd_store = \<lparr>sc_kind = ''mem''\<rparr>\<rparr>"

definition container_logger :: container where
  "container_logger =
     \<lparr>ct_name = ''sidecar-logger'', ct_rootfs = RootPath ''./examples/rootfs-busybox'',
      ct_entrypoint = \<lparr>ep_cmd = [''/bin/sh'', ''-c'', ''echo logger-start''], ep_env = [],
        ep_cwd = default_cwd\<rparr>,
      ct_limits = \<lparr>lim_cpu = \<lparr>cpu_shares = Some 64\<rparr>, lim_memory = \<lparr>mem_max = Some ''32Mi''\<rparr>,
        lim_pids = \<lparr>pids_max = Some 32\<rparr>\<rparr>,
      ct_mounts = [], ct_user = user_of_yaml None, ct_ports = [], ct_volume_mounts = []\<rparr>"

definition garden_of :: "container list \<Rightarrow> garden" where
  "garden_of cs =
     \<lparr>gd_api_version = ''v0'', gd_kind = ''Garden'',
      gd_meta = \<lparr>sm_name = ''echo-pod'', sm_id = ''garden-001''\<rparr>,
      gd_net = \<lparr>gn_preset = ''bridge'', gn_ip = Some ''10.44.0.10/24'', gn_dns = default_dns\<rparr>,
      gd_security = \<lparr>sec_hostname = None, sec_drop_caps = [''NET_ADMIN''],
        sec_seccomp_profile = Some ''web-api@1''\<rparr>,
      gd_restart_policy = ''OnFailure'', gd_services = [], gd_containers = cs, gd_volumes = [],
      gd_logging = \<lparr>lg_mode = ''json''\<rparr>, gd_store = \<lparr>sc_kind = ''mem''\<rparr>\<rparr>"

lemma container_logger_ok: "container_ok container_logger"
proof -
  have "parse_memory_string ''32Mi'' = Inr (of_nat (32 * 1024 ^ 2))"
    using parse_memory_complete [of "''Mi''" "1024 ^ 2" "''32Mi''" "''32''" 32]
    by (simp add: mem_units_def visible_def parse_uint_def digit_val_def less_eq_char_def)
  then show ?thesis
    by (simp add: container_ok_def container_logger_def memory_ok_def layers_ok_def)
qed

section \<open>Properties\<close>

text \<open>A Seed is accepted exactly when its version is v0, its kind is Seed, its command is not
  empty and its memory limit, if any, parses, whatever the file system holds.\<close>
theorem seed_validate_accepts:
  "\<exists>t. snd (seed_validate env s h) = h @ t \<and> list_all exists_check t \<and>
     (if list_ex was_killed t then fst (seed_validate env s h) = Inl Killed
      else fst (seed_validate env s h) = Inr () \<longleftrightarrow>
        sd_api_version s = ''v0'' \<and> sd_kind s = ''Seed'' \<and> ep_cmd (sd_entrypoint s) \<noteq> [] \<and>
        (case mem_max (lim_memory (sd_limits s)) of
           None \<Rightarrow> True | Some v \<Rightarrow> (\<exists>b. parse_memory_string v = Inr b)))"
  using seed_checks [of env s, unfolded checks_def seed_ok_def memory_ok_def is_ok_iff] by blast

text \<open>C25: A Garden is accepted exactly when its version and kind are right, it has a container, every
  container is well formed, its restart policy is one of the three names and its address, if given,
  has a slash. To decide, the validator only asks whether paths exist, and the answers do not matter, unless
  the task is killed in such a call.\<close>
theorem garden_validate_accepts:
  "\<exists>t. snd (garden_validate env g h) = h @ t \<and> list_all exists_check t \<and>
     (if list_ex was_killed t then fst (garden_validate env g h) = Inl Killed
      else fst (garden_validate env g h) = Inr () \<longleftrightarrow>
        gd_api_version g = ''v0'' \<and> gd_kind g = ''Garden'' \<and> gd_containers g \<noteq> [] \<and>
        list_all container_ok (gd_containers g) \<and>
        gd_restart_policy g \<in> {''Never'', ''OnFailure'', ''Always''} \<and>
        (case gn_ip (gd_net g) of None \<Rightarrow> True | Some ip \<Rightarrow> CHR ''/'' \<in> set ip))"
  using garden_checks [of env g, unfolded checks_def garden_ok_def] by blast

text \<open>C24: The memory parser is exactly its table of units: a text is accepted iff, trimmed, it is a
  \<open>u64\<close> numeral followed by one of the suffixes Ki, Mi, Gi, K, M, G or nothing, and its value is the
  numeral times the unit, reduced to 64 bits.\<close>
theorem parse_memory_string_spec:
  "parse_memory_string s = Inr b \<longleftrightarrow>
     (\<exists>u k r n. (u, k) \<in> set mem_units \<and> trim s = r @ u \<and> parse_uint (2 ^ 64) r = Inr n \<and>
        b = of_nat (n * k))"
  using parse_memory_sound [of s b] parse_memory_complete by blast

lemma mem_units_visible: "(u, k) \<in> set mem_units \<Longrightarrow> u \<noteq> [] \<Longrightarrow> visible (last u)"
  by (auto simp: mem_units_def visible_def)

lemma trim_show_unit: "(u, k) \<in> set mem_units \<Longrightarrow> trim (show_nat n @ u) = show_nat n @ u"
  using show_nat_hd [of n] show_nat_last [of n] mem_units_visible [of u k]
  by (intro trim_visible) (auto simp: last_append)

text \<open>Printing a number with a unit and parsing it gives back the number of bytes, whenever that
  number fits in 64 bits.\<close>
theorem memory_size_roundtrip:
  assumes "(u, k) \<in> set mem_units" "n * k < 2 ^ 64"
  shows "\<exists>b. parse_memory_string (show_nat n @ u) = Inr b \<and> unat b = n * k"
proof -
  have "0 < k" using assms(1) by (auto simp: mem_units_def)
  then have "n \<le> n * k" by simp
  with assms(2) have "n < 2 ^ 64" by (rule order.strict_trans1 [rotated])
  then have "parse_uint (2 ^ 64) (show_nat n) = Inr n" by (rule parse_uint_show)
  from parse_memory_complete [OF assms(1) trim_show_unit [OF assms(1)] this]
  show ?thesis using assms(2) by (auto simp: unat_of_nat simp del: of_nat_mult)
qed

theorem memory_size_roundtrip_witness:
  "(''Mi'', 1024 ^ 2) \<in> set mem_units \<and> (128 :: nat) * 1024 ^ 2 < 2 ^ 64 \<and>
   (\<exists>b. parse_memory_string (show_nat 128 @ ''Mi'') = Inr b \<and> unat b = 128 * 1024 ^ 2)"
proof -
  have u: "(''Mi'', 1024 ^ 2) \<in> set mem_units" by (simp add: mem_units_def)
  have b: "(128 :: nat) * 1024 ^ 2 < 2 ^ 64" by simp
  from u b memory_size_roundtrip [OF u b] show ?thesis by blast
qed

text \<open>A limit of 2 to the 64 bytes is accepted and read as 0 bytes: the multiplication by the unit
  is not checked.\<close>
theorem memory_size_wraps:
  "parse_memory_string ''18014398509481984Ki'' = Inr 0"
proof -
  have "show_nat 18014398509481984 = ''18014398509481984''" by (simp add: show_nat.simps)
  moreover have "(''Ki'', 1024) \<in> set mem_units" by (simp add: mem_units_def)
  moreover have "parse_uint (2 ^ 64) (show_nat 18014398509481984) = Inr 18014398509481984"
    by (rule parse_uint_show) simp
  ultimately show ?thesis
    using parse_memory_complete [of "''Ki''" 1024 "''18014398509481984Ki''" "show_nat 18014398509481984" 18014398509481984]
      trim_show_unit [of "''Ki''" 1024 18014398509481984] by simp
qed

end
