(* ===== verification/Namespaces.thy ===== *)
theory Namespaces
  imports Sys Seed_Manifest
begin

text \<open>
  Namespaces and rootless identity: \<open>src/isolate/ns.rs\<close> and \<open>src/isolate/idmap.rs\<close>. Clone flags are
  kept as the list of their names in the order the source sets them.

  Lemmas: which namespaces a workload asks for, what a successful identity change has done.
\<close>

section \<open>Namespace identities\<close>

record namespace_ids =
  ni_user :: string
  ni_pid :: string
  ni_uts :: string
  ni_ipc :: string
  ni_mnt :: string
  ni_net :: string

definition ns_summary :: "namespace_ids \<Rightarrow> string" where
  "ns_summary n =
     ''user='' @ ni_user n @ '' pid='' @ ni_pid n @ '' uts='' @ ni_uts n @
     '' ipc='' @ ni_ipc n @ '' mnt='' @ ni_mnt n @ '' net='' @ ni_net n"

definition workload_clone_flags :: "bool \<Rightarrow> bool \<Rightarrow> string list" where
  "workload_clone_flags map_rootless enable_net =
     [''CLONE_NEWPID'', ''CLONE_NEWUTS'', ''CLONE_NEWIPC'', ''CLONE_NEWNS''] @
     (if map_rootless then [''CLONE_NEWUSER''] else []) @
     (if enable_net then [''CLONE_NEWNET''] else [])"

definition workload_namespace_names :: "bool \<Rightarrow> bool \<Rightarrow> string" where
  "workload_namespace_names map_rootless enable_net =
     join '', ''
       ((if map_rootless then [''user''] else []) @ [''pid'', ''uts'', ''ipc'', ''mnt''] @
        (if enable_net then [''net''] else []))"

definition namespace_link :: "env \<Rightarrow> string \<Rightarrow> (history, string) io" where
  "namespace_link env name =
     (let path = ''/proc/thread-self/ns/'' @ name in
      io_ctx (''Failed to read namespace link '' @ path) (sys_str env (File (ReadLink path))))"

definition current_namespace_ids :: "env \<Rightarrow> (history, namespace_ids) io" where
  "current_namespace_ids env =
     io_bind (namespace_link env ''user'') (\<lambda>user.
     io_bind (namespace_link env ''pid'') (\<lambda>pid.
     io_bind (namespace_link env ''uts'') (\<lambda>uts.
     io_bind (namespace_link env ''ipc'') (\<lambda>ipc.
     io_bind (namespace_link env ''mnt'') (\<lambda>mnt.
     io_bind (namespace_link env ''net'') (\<lambda>net.
     io_return \<lparr>ni_user = user, ni_pid = pid, ni_uts = uts, ni_ipc = ipc, ni_mnt = mnt, ni_net = net\<rparr>))))))"

definition set_hostname :: "env \<Rightarrow> string \<Rightarrow> (history, unit) io" where
  "set_hostname env hostname =
     io_seq (io_ctx ''Invalid hostname'' (io_lift (cstring hostname)))
       (sys_or_bail env (Task (SetHostname hostname)) ''Failed to set hostname: '')"

definition set_no_new_privs :: "env \<Rightarrow> (history, unit) io" where
  "set_no_new_privs env = sys_or_bail env (Task SetNoNewPrivs) ''Failed to set no_new_privs: ''"

definition get_uid :: "env \<Rightarrow> (history, int) io" where
  "get_uid env = sys_id env (Task GetUid)"

definition get_gid :: "env \<Rightarrow> (history, int) io" where
  "get_gid env = sys_id env (Task GetGid)"

definition write_file :: "env \<Rightarrow> string \<Rightarrow> string \<Rightarrow> (history, unit) io" where
  "write_file env path content =
     io_ctx (''Failed to write to '' @ path) (sys_unit env (File (WriteFile path content)))"

definition setns_net :: "env \<Rightarrow> string \<Rightarrow> (history, unit) io" where
  "setns_net env netns_path =
     io_seq (io_ctx (''Failed to open netns: '' @ netns_path) (sys_unit env (File (OpenFile netns_path))))
       (sys_or_bail env (Pod SetnsNet) ''Failed to setns: '')"

section \<open>Identity maps\<close>

definition map_child_from_parent :: "env \<Rightarrow> int \<Rightarrow> user_config \<Rightarrow> int \<Rightarrow> int \<Rightarrow> (history, unit) io" where
  "map_child_from_parent env child_pid user_cfg parent_uid parent_gid =
     (let proc_dir = ''/proc/'' @ show_int child_pid;
          uid_map = show_word (us_uid user_cfg) @ '' '' @ show_int parent_uid @ '' 1'' @ [CHR 0x0A];
          gid_map = show_word (us_gid user_cfg) @ '' '' @ show_int parent_gid @ '' 1'' @ [CHR 0x0A]
      in
      io_seq (io_ctx (''Failed to deny setgroups for child '' @ show_int child_pid)
                (sys_unit env (File (WriteFile (proc_dir @ ''/setgroups'') ''deny''))))
      (io_seq (io_ctx (''Failed to write UID map for child '' @ show_int child_pid)
                (sys_unit env (File (WriteFile (proc_dir @ ''/uid_map'') uid_map))))
         (io_ctx (''Failed to write GID map for child '' @ show_int child_pid)
                (sys_unit env (File (WriteFile (proc_dir @ ''/gid_map'') gid_map))))))"

definition verify_current_identity :: "env \<Rightarrow> user_config \<Rightarrow> (history, unit) io" where
  "verify_current_identity env user_cfg =
     io_bind (get_uid env) (\<lambda>uid.
     io_bind (get_gid env) (\<lambda>gid.
       if uid \<noteq> uint (us_uid user_cfg) \<or> gid \<noteq> uint (us_gid user_cfg)
       then io_bail (''Mapped identity mismatch: expected '' @ show_word (us_uid user_cfg) @ '':'' @
              show_word (us_gid user_cfg) @ '', observed '' @ show_int uid @ '':'' @ show_int gid)
       else io_return ()))"

definition enter_mapped_identity :: "env \<Rightarrow> user_config \<Rightarrow> (history, unit) io" where
  "enter_mapped_identity env user_cfg =
     io_seq (io_ctx ''Failed to enter mapped GID'' (sys_unit env (Task (SetGid (us_gid user_cfg)))))
     (io_seq (io_ctx ''Failed to enter mapped UID'' (sys_unit env (Task (SetUid (us_uid user_cfg)))))
       (verify_current_identity env user_cfg))"

section \<open>What they do\<close>

lemmas ns_defs = current_namespace_ids_def namespace_link_def Let_def set_hostname_def
  set_no_new_privs_def get_uid_def get_gid_def setns_net_def map_child_from_parent_def
  verify_current_identity_def enter_mapped_identity_def

lemma emits_current_ids [emits_intros]:
  "(\<And>p r. P (File (ReadLink p), r)) \<Longrightarrow> emits P (current_namespace_ids env)"
  unfolding ns_defs by (intro emits_intros)

lemma emits_set_hostname [emits_intros]: "(\<And>r. P (Task (SetHostname n), r)) \<Longrightarrow> emits P (set_hostname env n)"
  and emits_no_new_privs [emits_intros]: "(\<And>r. P (Task SetNoNewPrivs, r)) \<Longrightarrow> emits P (set_no_new_privs env)"
  and emits_setns [emits_intros]:
    "(\<And>r. P (File (OpenFile p), r)) \<Longrightarrow> (\<And>r. P (Pod SetnsNet, r)) \<Longrightarrow> emits P (setns_net env p)"
  unfolding ns_defs by (intro emits_intros; simp)+

lemma emits_map_child [emits_intros]:
  "(\<And>f c r. P (File (WriteFile f c), r)) \<Longrightarrow> emits P (map_child_from_parent env pid u pu pg)"
  unfolding ns_defs by (intro emits_intros)

lemma emits_verify_identity [emits_intros]:
  "(\<And>r. P (Task GetUid, r)) \<Longrightarrow> (\<And>r. P (Task GetGid, r)) \<Longrightarrow> emits P (verify_current_identity env u)"
  unfolding ns_defs by (intro emits_intros)

lemma emits_enter_identity [emits_intros]:
  "(\<And>c r. P (Task c, r)) \<Longrightarrow> emits P (enter_mapped_identity env u)"
  unfolding enter_mapped_identity_def by (intro emits_intros)

text \<open>Maps are written in the order user namespaces require: setgroups denied, then uid, then gid.\<close>

lemma must_map_child:
  "must [\<lambda>e. e = (File (WriteFile (''/proc/'' @ show_int pid @ ''/setgroups'') ''deny''), ROk),
         \<lambda>e. e = (File (WriteFile (''/proc/'' @ show_int pid @ ''/uid_map'')
               (show_word (us_uid u) @ '' '' @ show_int pu @ '' 1'' @ [CHR 0x0A])), ROk),
         \<lambda>e. e = (File (WriteFile (''/proc/'' @ show_int pid @ ''/gid_map'')
               (show_word (us_gid u) @ '' '' @ show_int pg @ '' 1'' @ [CHR 0x0A])), ROk)]
     (map_child_from_parent env pid u pu pg)"
  by (auto simp: must_def ns_defs io_seq_ok sys_unit_ok)

lemma verify_identity_ok:
  "verify_current_identity env u h = (Inr (), h') \<Longrightarrow>
     \<exists>r1 r2. reply_id r1 = uint (us_uid u) \<and> reply_id r2 = uint (us_gid u) \<and>
       h' = h @ [(Task GetUid, r1), (Task GetGid, r2)]"
  by (auto simp: verify_current_identity_def get_uid_def get_gid_def sys_id_def io_bind_ok sys_ok
      split: if_splits)

lemma must_verify_identity:
  "must [\<lambda>e. fst e = Task GetUid \<and> reply_id (snd e) = uint (us_uid u),
         \<lambda>e. fst e = Task GetGid \<and> reply_id (snd e) = uint (us_gid u)]
     (verify_current_identity env u)"
  by (auto simp: must_def dest!: verify_identity_ok)

lemma must_set_hostname: "must [\<lambda>e. e = (Task (SetHostname n), ROk)] (set_hostname env n)"
  by (auto simp: must_def set_hostname_def io_seq_ok sys_or_bail_ok)

lemma must_enter_identity:
  "must [\<lambda>e. e = (Task (SetGid (us_gid u)), ROk), \<lambda>e. e = (Task (SetUid (us_uid u)), ROk),
         \<lambda>e. fst e = Task GetUid \<and> reply_id (snd e) = uint (us_uid u),
         \<lambda>e. fst e = Task GetGid \<and> reply_id (snd e) = uint (us_gid u)]
     (enter_mapped_identity env u)"
  by (auto simp: must_def enter_mapped_identity_def io_seq_ok sys_unit_ok dest!: verify_identity_ok)

end
