(* ===== verification/Cgroups.thy ===== *)
theory Cgroups
  imports Sys Seed_Manifest
begin

text \<open>
  Control groups: \<open>src/isolate/cgroups.rs\<close>. The weight is computed on \<open>u64\<close> with wrap-around, as in
  a release build.

  Lemmas: the weight function, what preparing a group writes, and that the memory limit written
  is the parsed limit of the manifest.
\<close>

definition cgroup_root :: string where
  "cgroup_root = ''/sys/fs/cgroup''"

definition get_cgroup_path :: "string \<Rightarrow> string" where
  "get_cgroup_path seed_id = path_join (path_join cgroup_root ''gl'') seed_id"

definition get_container_cgroup_path :: "string \<Rightarrow> string \<Rightarrow> string" where
  "get_container_cgroup_path garden_id container_name =
     path_join (path_join (path_join cgroup_root ''garden'') garden_id) container_name"

definition create_cgroup :: "env \<Rightarrow> string \<Rightarrow> (history, unit) io" where
  "create_cgroup env path =
     io_bind (io_lift (opt_ctx ''No parent for cgroup path'' (path_parent path))) (\<lambda>parent.
     io_bind (sys_exists env parent) (\<lambda>parent_exists.
     io_seq (io_when (\<not> parent_exists)
       (io_ctx (''Failed to create cgroup parent: '' @ parent) (sys_unit env (File (CreateDirAll parent)))))
     (io_bind (sys_exists env path) (\<lambda>path_exists.
     io_when (\<not> path_exists)
       (io_ctx (''Failed to create cgroup: '' @ path) (sys_unit env (File (CreateDir path))))))))"

definition cpu_weight :: "u64 \<Rightarrow> u64" where
  "cpu_weight shares = max 1 (min 10000 ((shares * 10000) div 1024))"

definition set_cpu_weight :: "env \<Rightarrow> string \<Rightarrow> u64 \<Rightarrow> (history, unit) io" where
  "set_cpu_weight env cgroup_path shares =
     (let weight = cpu_weight shares in
      io_ctx (''Failed to set cpu.weight to '' @ show_word weight)
        (sys_unit env (File (WriteFile (path_join cgroup_path ''cpu.weight'') (show_word weight @ [CHR 0x0A])))))"

definition set_memory_max :: "env \<Rightarrow> string \<Rightarrow> u64 \<Rightarrow> (history, unit) io" where
  "set_memory_max env cgroup_path bytes =
     io_ctx (''Failed to set memory.max to '' @ show_word bytes)
       (sys_unit env (File (WriteFile (path_join cgroup_path ''memory.max'') (show_word bytes @ [CHR 0x0A]))))"

definition set_pids_max :: "env \<Rightarrow> string \<Rightarrow> u64 \<Rightarrow> (history, unit) io" where
  "set_pids_max env cgroup_path max_pids =
     io_ctx (''Failed to set pids.max to '' @ show_word max_pids)
       (sys_unit env (File (WriteFile (path_join cgroup_path ''pids.max'') (show_word max_pids @ [CHR 0x0A]))))"

text \<open>The three limits, in the order both callers set them.\<close>

definition set_limits :: "env \<Rightarrow> string \<Rightarrow> limits_config \<Rightarrow> (history, unit) io" where
  "set_limits env cgroup_path limits =
     io_seq (case cpu_shares (lim_cpu limits) of
               Some shares \<Rightarrow> set_cpu_weight env cgroup_path shares
             | None \<Rightarrow> io_return ())
     (io_seq (case mem_max (lim_memory limits) of
               Some v \<Rightarrow>
                 io_bind (io_ctx (''Failed to parse memory limit: '' @ v) (io_lift (parse_memory_string v)))
                   (set_memory_max env cgroup_path)
             | None \<Rightarrow> io_return ())
       (case pids_max (lim_pids limits) of
               Some v \<Rightarrow> set_pids_max env cgroup_path v
             | None \<Rightarrow> io_return ()))"

definition setup_cgroups :: "env \<Rightarrow> seed \<Rightarrow> (history, string) io" where
  "setup_cgroups env s =
     (let cgroup_path = get_cgroup_path (sm_id (sd_meta s)) in
      io_seq (create_cgroup env cgroup_path)
      (io_seq (set_limits env cgroup_path (sd_limits s))
        (io_return cgroup_path)))"

definition setup_cgroup_for_container :: "env \<Rightarrow> string \<Rightarrow> string \<Rightarrow> limits_config \<Rightarrow> (history, unit) io" where
  "setup_cgroup_for_container env garden_id container_name limits =
     (let cgroup_path = get_container_cgroup_path garden_id container_name in
      io_seq (create_cgroup env cgroup_path) (set_limits env cgroup_path limits))"

definition move_pid_to_path :: "env \<Rightarrow> string \<Rightarrow> int \<Rightarrow> (history, unit) io" where
  "move_pid_to_path env cgroup_path pid =
     io_ctx (''Failed to add PID '' @ show_int pid @ '' to cgroup '' @ cgroup_path)
       (sys_unit env (File (WriteFile (path_join cgroup_path ''cgroup.procs'') (show_int pid @ [CHR 0x0A]))))"

definition move_pid_to_cgroup :: "env \<Rightarrow> string \<Rightarrow> int \<Rightarrow> (history, unit) io" where
  "move_pid_to_cgroup env cgroup_path pid = move_pid_to_path env cgroup_path pid"

definition cleanup_cgroup :: "env \<Rightarrow> string \<Rightarrow> (history, unit) io" where
  "cleanup_cgroup env seed_id =
     (let cgroup_path = get_cgroup_path seed_id in
      io_bind (sys_exists env cgroup_path) (\<lambda>present.
      io_when present
        (io_ctx (''Failed to remove cgroup: '' @ cgroup_path) (sys_unit env (File (RemoveDir cgroup_path))))))"

section \<open>Lemmas\<close>

lemmas cgroup_defs = create_cgroup_def set_cpu_weight_def set_memory_max_def set_pids_max_def
  set_limits_def setup_cgroups_def setup_cgroup_for_container_def move_pid_to_path_def
  move_pid_to_cgroup_def cleanup_cgroup_def Let_def

lemma emits_setup_cgroups [emits_intros]: "(\<And>c r. P (File c, r)) \<Longrightarrow> emits P (setup_cgroups env s)"
  unfolding cgroup_defs by (intro emits_intros)

lemma emits_container_cgroup [emits_intros]:
  "(\<And>c r. P (File c, r)) \<Longrightarrow> emits P (setup_cgroup_for_container env g n l)"
  unfolding cgroup_defs by (intro emits_intros)

lemma emits_move_pid [emits_intros]:
  "(\<And>f c r. P (File (WriteFile f c), r)) \<Longrightarrow> emits P (move_pid_to_path env p pid)"
  "(\<And>f c r. P (File (WriteFile f c), r)) \<Longrightarrow> emits P (move_pid_to_cgroup env p pid)"
  unfolding cgroup_defs by (intro emits_intros; simp)+

lemma emits_cleanup_cgroup [emits_intros]: "(\<And>c r. P (File c, r)) \<Longrightarrow> emits P (cleanup_cgroup env s)"
  unfolding cgroup_defs by (intro emits_intros)

lemma move_pid_ok:
  "move_pid_to_path env p pid h = (Inr (), h') \<longleftrightarrow>
     env h (File (WriteFile (path_join p ''cgroup.procs'') (show_int pid @ [CHR 0x0A]))) = ROk \<and>
     h' = h @ [(File (WriteFile (path_join p ''cgroup.procs'') (show_int pid @ [CHR 0x0A])), ROk)]"
  by (simp add: move_pid_to_path_def sys_unit_ok)

lemma setup_cgroups_path: "setup_cgroups env s h = (Inr p, h') \<Longrightarrow> p = get_cgroup_path (sm_id (sd_meta s))"
  by (auto simp: setup_cgroups_def Let_def io_seq_ok)

text \<open>C40: The CPU weight is always in the range cgroups accept. It is exact scaling of the shares while
  the product fits in 64 bits, it saturates at the maximum from 1024 shares on (the customary
  default share count), and a product beyond 64 bits wraps: 2^60 shares get the minimum weight.\<close>
theorem cpu_weight_spec:
  "1 \<le> cpu_weight shares \<and> cpu_weight shares \<le> 10000 \<and>
   unat (cpu_weight shares) = max 1 (min 10000 ((unat shares * 10000) mod 2 ^ 64 div 1024)) \<and>
   (1024 \<le> shares \<and> unat shares * 10000 < 2 ^ 64 \<longrightarrow> cpu_weight shares = 10000) \<and>
   cpu_weight (2 ^ 60) = 1"
proof -
  have u: "unat (cpu_weight shares) = max 1 (min 10000 ((unat shares * 10000) mod 2 ^ 64 div 1024))" for shares
    by (simp add: cpu_weight_def max_def min_def word_le_nat_alt unat_div unat_word_ariths split: if_splits)
  have "cpu_weight shares = 10000" if "1024 \<le> shares" "unat shares * 10000 < 2 ^ 64"
  proof -
    have "1024 \<le> unat shares" using that(1) by (simp add: word_le_nat_alt)
    then have "10000 \<le> unat shares * 10000 div 1024" by linarith
    then have "unat (cpu_weight shares) = 10000" using that(2) u [of shares] by (simp del: power_numeral)
    then show ?thesis by (simp add: word_unat_eq_iff)
  qed
  moreover have "cpu_weight (2 ^ 60) = 1" by (simp add: cpu_weight_def)
  ultimately show ?thesis using u [of shares] by (simp add: word_le_nat_alt)
qed

theorem cpu_weight_spec_witness: "cpu_weight 1024 = 10000"
  using cpu_weight_spec [of 1024] by simp

end
