(* ===== verification/Ordering.thy ===== *)
theory Ordering
  imports Prelude
begin

text \<open>
  Orders of steps before a call: \<open>requires Q (\<lambda>_. has_in_order ks) m\<close> says that whenever a run of \<open>m\<close> makes a
  \<open>Q\<close> call, the steps \<open>ks\<close> have succeeded before it, in this order. The lemmas build the list along the
  sequence of the program.
\<close>

lemma ordered_seq:
  assumes "emits (\<lambda>e. \<not> Q e) m" "must ks m" "emits P n" "requires Q (\<lambda>_. has_in_order ls) n"
  shows "requires Q (\<lambda>_. has_in_order (ks @ ls)) (io_seq m n)"
proof (rule requires_seq [OF assms(1,3)])
  fix h x t
  assume "m h = (Inr x, h @ t)"
  with mustD [OF assms(2)] have "has_in_order ks t" by fastforce
  then show "requires Q (\<lambda>e u. has_in_order (ks @ ls) (t @ u)) n"
    by (intro requires_mono [OF assms(4)] has_in_order_append)
qed

lemma ordered_bind:
  assumes "emits (\<lambda>e. \<not> Q e) m" "must ks m" "\<And>x. emits P (f x)" "\<And>x. requires Q (\<lambda>_. has_in_order ls) (f x)"
  shows "requires Q (\<lambda>_. has_in_order (ks @ ls)) (io_bind m f)"
proof (rule requires_bind [OF assms(1,3)])
  fix h x t
  assume "m h = (Inr x, h @ t)"
  with mustD [OF assms(2)] have "has_in_order ks t" by fastforce
  then show "requires Q (\<lambda>e u. has_in_order (ks @ ls) (t @ u)) (f x)"
    by (intro requires_mono [OF assms(4)] has_in_order_append)
qed

lemma ordered_skip:
  "emits (\<lambda>e. \<not> Q e) m \<Longrightarrow> (\<And>x. emits P (f x)) \<Longrightarrow> (\<And>x. requires Q (\<lambda>_. has_in_order ls) (f x)) \<Longrightarrow>
     requires Q (\<lambda>_. has_in_order ls) (io_bind m f)"
  using ordered_bind [of Q m "[]" P f ls] must_emits by auto

lemma ordered_one:
  "must [k] m \<Longrightarrow> requires Q (\<lambda>_. has_in_order ls) n \<Longrightarrow> emits (\<lambda>e. \<not> Q e) m \<Longrightarrow> emits (\<lambda>_. True) n \<Longrightarrow>
     requires Q (\<lambda>_. has_in_order (k # ls)) (io_seq m n)"
  using ordered_seq [of Q m "[k]" "\<lambda>_. True" n ls] by simp

lemma ordered_many:
  "must ks m \<Longrightarrow> requires Q (\<lambda>_. has_in_order ls) n \<Longrightarrow> emits (\<lambda>e. \<not> Q e) m \<Longrightarrow> emits (\<lambda>_. True) n \<Longrightarrow>
     requires Q (\<lambda>_. has_in_order (ks @ ls)) (io_seq m n)"
  using ordered_seq [of Q m ks "\<lambda>_. True" n ls] by simp

lemma ordered_two:
  "must [k, l] m \<Longrightarrow> requires Q (\<lambda>_. has_in_order ls) n \<Longrightarrow> emits (\<lambda>e. \<not> Q e) m \<Longrightarrow> emits (\<lambda>_. True) n \<Longrightarrow>
     requires Q (\<lambda>_. has_in_order (k # l # ls)) (io_seq m n)"
  using ordered_many [of "[k, l]"] by simp

lemma ordered_none:
  "requires Q (\<lambda>_. has_in_order ls) n \<Longrightarrow> emits (\<lambda>e. \<not> Q e) m \<Longrightarrow> emits (\<lambda>_. True) n \<Longrightarrow>
     requires Q (\<lambda>_. has_in_order ls) (io_seq m n)"
  using ordered_seq [of Q m "[]" "\<lambda>_. True" n ls] must_emits by auto

lemma ordered_nil: "requires Q (\<lambda>_. has_in_order []) m"
  by (simp add: requires_def)

lemma must_each: "(\<And>x. must (ks x) (f x)) \<Longrightarrow> must (concat (map ks xs)) (io_each f xs)"
proof (induction xs)
  case Nil
  then show ?case by (simp add: must_def)
next
  case (Cons x xs)
  from must_seq [OF Cons.prems [of x] Cons.IH [OF Cons.prems]] show ?case by simp
qed

end
