(* ===== verification/Mounts.thy ===== *)
theory Mounts
  imports Ordering Sys Seed_Manifest
begin

text \<open>
  Mounts and the change of root: \<open>src/isolate/mount.rs\<close>. Paths come from UTF-8 manifests, so
  \<open>Path::to_str\<close> succeeds. Flags are the list of their names.

  Lemmas: what a successful \<open>pivot_root_to\<close> and \<open>setup_mounts\<close> have done, in order; the old root is
  detached before the file systems of the manifest are mounted, each of a known type, in the manifest's order.
\<close>

definition make_private_mounts :: "env \<Rightarrow> (history, unit) io" where
  "make_private_mounts env =
     io_ctx ''Failed to make mounts private''
       (sys_unit env (Mnt (Mount None ''/'' None [''MS_REC'', ''MS_PRIVATE''])))"

definition pivot_root_to :: "env \<Rightarrow> string \<Rightarrow> (history, unit) io" where
  "pivot_root_to env new_root =
     io_bind (sys_exists env new_root) (\<lambda>present.
     if \<not> present then io_bail (''Rootfs path does not exist: '' @ new_root)
     else
       let put_old = path_join new_root ''.old_root'' in
       io_seq (io_ctx (''Failed to bind-mount rootfs: '' @ new_root)
         (sys_unit env (Mnt (Mount (Some new_root) new_root None [''MS_BIND'', ''MS_REC'']))))
       (io_seq (io_ctx (''Failed to create put_old dir: '' @ put_old)
         (sys_unit env (File (CreateDirAll put_old))))
       (io_seq (io_ctx ''Failed to convert new_root to CString'' (io_lift (cstring new_root)))
       (io_seq (io_ctx ''Failed to convert put_old to CString'' (io_lift (cstring put_old)))
       (io_seq (sys_or_bail env (Mnt (PivotRoot new_root put_old))
         (''pivot_root('' @ new_root @ '', '' @ put_old @ '') failed: ''))
       (io_seq (io_ctx ''Failed to chdir to / after pivot_root''
         (sys_unit env (Task (SetCurrentDir ''/''))))
       (io_seq (io_ctx ''Failed to unmount old root after pivot_root''
         (sys_unit env (Mnt (Umount2 ''/.old_root''))))
         (io_ctx ''Failed to remove /.old_root after unmount''
           (sys_unit env (File (RemoveDir ''/.old_root'')))))))))))"

definition do_chroot :: "env \<Rightarrow> string \<Rightarrow> (history, unit) io" where
  "do_chroot env rootfs =
     io_seq (io_ctx (''Failed to chdir to '' @ rootfs) (sys_unit env (Task (SetCurrentDir rootfs))))
     (io_seq (io_ctx ''Failed to convert rootfs to CString'' (io_lift (cstring rootfs)))
     (io_seq (sys_or_bail env (Mnt (Chroot rootfs)) ''chroot failed: '')
       (io_ctx ''Failed to chdir to / after chroot'' (sys_unit env (Task (SetCurrentDir ''/''))))))"

definition ensure_mount_point :: "env \<Rightarrow> string \<Rightarrow> (history, unit) io" where
  "ensure_mount_point env target =
     io_bind (sys_exists env target) (\<lambda>present.
     io_when (\<not> present)
       (io_ctx (''Failed to create mount point: '' @ target) (sys_unit env (File (CreateDirAll target)))))"

definition mount_proc :: "env \<Rightarrow> string \<Rightarrow> (history, unit) io" where
  "mount_proc env target =
     io_seq (ensure_mount_point env target)
       (io_ctx (''Failed to mount proc at '' @ target)
         (sys_unit env (Mnt (Mount (Some ''proc'') target (Some ''proc'')
           [''MS_NOSUID'', ''MS_NODEV'', ''MS_NOEXEC'']))))"

definition mount_tmpfs :: "env \<Rightarrow> string \<Rightarrow> (history, unit) io" where
  "mount_tmpfs env target =
     io_seq (ensure_mount_point env target)
       (io_ctx (''Failed to mount tmpfs at '' @ target)
         (sys_unit env (Mnt (Mount (Some ''tmpfs'') target (Some ''tmpfs'') [''MS_NOSUID'', ''MS_NODEV'']))))"

text \<open>The arrow of the message, as its UTF-8 bytes.\<close>

definition arrow :: string where
  "arrow = [CHR 0xE2, CHR 0x86, CHR 0x92]"

definition mount_bind :: "env \<Rightarrow> string \<Rightarrow> string \<Rightarrow> (history, unit) io" where
  "mount_bind env src target =
     io_seq (ensure_mount_point env target)
       (io_ctx (''Failed to bind mount '' @ src @ '' '' @ arrow @ '' '' @ target)
         (sys_unit env (Mnt (Mount (Some src) target None [''MS_BIND'']))))"

definition mount_one :: "env \<Rightarrow> mount_config \<Rightarrow> (history, unit) io" where
  "mount_one env m =
     (if mt_type m = ''proc'' then mount_proc env (mt_target m)
      else if mt_type m = ''tmpfs'' then mount_tmpfs env (mt_target m)
      else if mt_type m = ''bind'' then
        (case mt_source m of Some src \<Rightarrow> mount_bind env src (mt_target m) | None \<Rightarrow> io_return ())
      else io_return ())"

definition setup_mounts :: "env \<Rightarrow> seed \<Rightarrow> (history, unit) io" where
  "setup_mounts env s =
     io_seq (make_private_mounts env)
     (io_seq (pivot_root_to env (rf_path (sd_rootfs s)))
       (io_each (mount_one env) (sd_mounts s)))"

section \<open>Lemmas\<close>

lemmas mount_defs = make_private_mounts_def pivot_root_to_def do_chroot_def ensure_mount_point_def
  mount_proc_def mount_tmpfs_def mount_bind_def mount_one_def Let_def

lemma emits_chroot [emits_intros]:
  "(\<And>c r. P (Task (SetCurrentDir c), r)) \<Longrightarrow> (\<And>c r. P (Mnt c, r)) \<Longrightarrow> emits P (do_chroot env p)"
  unfolding mount_defs by (intro emits_intros)

lemma emits_mount_proc [emits_intros]:
  "(\<And>c r. P (File c, r)) \<Longrightarrow> (\<And>c r. P (Mnt c, r)) \<Longrightarrow> emits P (mount_proc env p)"
  unfolding mount_defs by (intro emits_intros)

lemma emits_mount_one [emits_intros]:
  "(\<And>c r. P (File c, r)) \<Longrightarrow> (\<And>c r. P (Mnt c, r)) \<Longrightarrow> emits P (mount_one env m)"
  unfolding mount_defs by (intro emits_intros)

lemma emits_pivot [emits_intros]:
  "(\<And>c r. P (File c, r)) \<Longrightarrow> (\<And>c r. P (Mnt c, r)) \<Longrightarrow> (\<And>p r. P (Task (SetCurrentDir p), r)) \<Longrightarrow>
     emits P (pivot_root_to env p)"
  unfolding mount_defs by (intro emits_intros)

lemma emits_setup_mounts [emits_intros]:
  "(\<And>c r. P (File c, r)) \<Longrightarrow> (\<And>c r. P (Mnt c, r)) \<Longrightarrow> (\<And>p r. P (Task (SetCurrentDir p), r)) \<Longrightarrow>
     emits P (setup_mounts env s)"
  unfolding setup_mounts_def make_private_mounts_def by (intro emits_intros)

text \<open>The calls of a successful change of root.\<close>

definition root_changed :: "string \<Rightarrow> (call \<times> reply \<Rightarrow> bool) list" where
  "root_changed new_root =
     [\<lambda>e. e = (Mnt (Mount (Some new_root) new_root None [''MS_BIND'', ''MS_REC'']), ROk),
      \<lambda>e. e = (Mnt (PivotRoot new_root (path_join new_root ''.old_root'')), ROk),
      \<lambda>e. e = (Task (SetCurrentDir ''/''), ROk),
      \<lambda>e. e = (Mnt (Umount2 ''/.old_root''), ROk),
      \<lambda>e. e = (File (RemoveDir ''/.old_root''), ROk)]"

lemma must_pivot: "must (root_changed p) (pivot_root_to env p)"
  by (auto simp: must_def root_changed_def pivot_root_to_def Let_def io_bind_ok io_seq_ok sys_unit_ok
      sys_or_bail_ok sys_exists_def sys_ok split: if_splits)

definition mounts_private :: "call \<times> reply \<Rightarrow> bool" where
  "mounts_private e \<longleftrightarrow> e = (Mnt (Mount None ''/'' None [''MS_REC'', ''MS_PRIVATE'']), ROk)"

lemma must_private: "must [mounts_private] (make_private_mounts env)"
  by (auto simp: must_def mounts_private_def make_private_mounts_def sys_unit_ok)

text \<open>The mount a manifest's entry asks for: entries of other types, and bind mounts without a source, ask for none.\<close>

definition mount_steps :: "mount_config \<Rightarrow> (call \<times> reply \<Rightarrow> bool) list" where
  "mount_steps m =
     (if mt_type m = ''proc'' then
        [\<lambda>e. e = (Mnt (Mount (Some ''proc'') (mt_target m) (Some ''proc'') [''MS_NOSUID'', ''MS_NODEV'', ''MS_NOEXEC'']), ROk)]
      else if mt_type m = ''tmpfs'' then
        [\<lambda>e. e = (Mnt (Mount (Some ''tmpfs'') (mt_target m) (Some ''tmpfs'') [''MS_NOSUID'', ''MS_NODEV'']), ROk)]
      else if mt_type m = ''bind'' then
        (case mt_source m of
           Some src \<Rightarrow> [\<lambda>e. e = (Mnt (Mount (Some src) (mt_target m) None [''MS_BIND'']), ROk)]
         | None \<Rightarrow> [])
      else [])"

lemma must_mount_one: "must (mount_steps m) (mount_one env m)"
proof -
  have "must ls (io_seq (ensure_mount_point env t) n)" if "must ls n" for ls t and n :: "(history, unit) io"
    using must_seq [OF must_emits that, of "\<lambda>_. True" "ensure_mount_point env t"]
    by (simp add: ensure_mount_point_def emits_intros)
  then show ?thesis
    unfolding mount_one_def mount_steps_def mount_proc_def mount_tmpfs_def mount_bind_def
    by (auto intro!: must_ctx must_sys_unit must_emits [OF emits_return] split: option.splits)
qed

lemma must_setup_mounts:
  "must ((mounts_private # root_changed (rf_path (sd_rootfs s))) @ concat (map mount_steps (sd_mounts s))) (setup_mounts env s)"
  using must_seq [OF must_private must_seq [OF must_pivot must_each [OF must_mount_one]]] by (simp add: setup_mounts_def)

end
