(* ===== verification/Isolation.thy ===== *)
theory Isolation
  imports Caps Seccomp Namespaces Cgroups Mounts
begin

text \<open>
  The isolation of one workload, \<open>IsolationConfig\<close> of \<open>src/isolate/mod.rs\<close>: what the supervisor
  prepares on the host side and what the workload applies to itself, in order. \<open>compile\<close> stands for
  the filter compiler (see \<open>Seccomp\<close>).

  Lemmas: the order of a successful isolation, and, for every run whatever its outcome, what has to
  happen before privileges are given up or the system call filter is installed.
\<close>

definition cgroups_requested :: "seed \<Rightarrow> bool" where
  "cgroups_requested s \<longleftrightarrow>
     cpu_shares (lim_cpu (sd_limits s)) \<noteq> None \<or> mem_max (lim_memory (sd_limits s)) \<noteq> None \<or>
     pids_max (lim_pids (sd_limits s)) \<noteq> None"

definition apply_parent :: "env \<Rightarrow> seed \<Rightarrow> (history, string option) io" where
  "apply_parent env s =
     (if cgroups_requested s
      then io_bind (setup_cgroups env s) (\<lambda>p. io_return (Some p))
      else io_return None)"

definition apply_child :: "(bpf_program \<Rightarrow> unit result) \<Rightarrow> env \<Rightarrow> seed \<Rightarrow> (history, unit) io" where
  "apply_child compile env s =
     io_seq (io_when (us_map_rootless (sd_user s)) (verify_current_identity env (sd_user s)))
     (io_seq (case sec_hostname (sd_security s) of
                Some hostname \<Rightarrow> set_hostname env hostname
              | None \<Rightarrow> io_return ())
     (io_seq (setup_mounts env s)
     (io_seq (set_no_new_privs env)
     (io_seq (drop_capabilities env (sec_drop_caps (sd_security s)))
       (case sec_seccomp_profile (sd_security s) of
          Some profile \<Rightarrow> apply_seccomp compile env profile
        | None \<Rightarrow> io_return ())))))"

section \<open>Lemmas\<close>

lemma emits_drop_capabilities [emits_intros]:
  "(\<And>p r. P (File (ReadToString p), r)) \<Longrightarrow> (\<And>c r. P (Cap c, r)) \<Longrightarrow> emits P (drop_capabilities env caps)"
  unfolding drop_capabilities_def read_cap_last_cap_def enforce_drop_def drop_if_permitted_def
    apply_drop_def Let_def drop_bounding_if_set_def lower_ambient_if_set_def read_bounding_def
    read_ambient_def drop_bounding_def lower_ambient_def capset_current_def
  by (intro emits_intros)

lemma emits_apply_parent [emits_intros]: "(\<And>c r. P (File c, r)) \<Longrightarrow> emits P (apply_parent env s)"
  unfolding apply_parent_def by (intro emits_intros)

lemma emits_apply_child [emits_intros]:
  assumes "\<And>c r. P (Task c, r)" "\<And>c r. P (File c, r)" "\<And>c r. P (Mnt c, r)" "\<And>c r. P (Cap c, r)"
    "\<And>l a r. P (InstallFilter l a, r)"
  shows "emits P (apply_child compile env s)"
  unfolding apply_child_def by (intro emits_intros assms)

lemma apply_parent_path:
  "apply_parent env s h = (Inr p, h') \<Longrightarrow>
     p = (if cgroups_requested s then Some (get_cgroup_path (sm_id (sd_meta s))) else None)"
  by (auto simp: apply_parent_def io_bind_ok dest: setup_cgroups_path split: if_splits)

text \<open>The calls that restrict the task for good, and the marks of the steps.\<close>

fun restricts :: "call \<times> reply \<Rightarrow> bool" where
  "restricts (InstallFilter l a, r) = True"
| "restricts e = mutates e"

definition nnp_set :: "call \<times> reply \<Rightarrow> bool" where
  "nnp_set e \<longleftrightarrow> e = (Task SetNoNewPrivs, ROk)"

definition old_root_detached :: "call \<times> reply \<Rightarrow> bool" where
  "old_root_detached e \<longleftrightarrow> e = (Mnt (Umount2 ''/.old_root''), ROk)"

fun filter_installed :: "(string list \<times> filter_action \<Rightarrow> bool) \<Rightarrow> call \<times> reply \<Rightarrow> bool" where
  "filter_installed ok (InstallFilter l a, r) \<longleftrightarrow> r = ROk \<and> ok (l, a)"
| "filter_installed ok e \<longleftrightarrow> False"

definition profile_filter :: "string \<Rightarrow> string list \<times> filter_action \<Rightarrow> bool" where
  "profile_filter profile f \<longleftrightarrow>
     profile = ''strict'' \<and> f = (strict_syscalls, KillProcess) \<or>
     profile = ''minimal'' \<and> f = (minimal_profile_syscalls, ErrnoEPERM) \<or>
     profile = ''default'' \<and> f = (minimal_syscall_list @ network_syscalls, ErrnoEPERM)"

text \<open>Every step of the sequence the manifest asks for: the check of a mapped identity, the host name, the mounts and
  the change of root, the mounts of the manifest, \<open>no_new_privs\<close>, the capability sets written and read back
  without any named capability, and the filter of the named profile.\<close>

definition isolation_steps :: "seed \<Rightarrow> (call \<times> reply \<Rightarrow> bool) list" where
  "isolation_steps s =
     (if us_map_rootless (sd_user s)
      then [\<lambda>e. fst e = Task GetUid \<and> reply_id (snd e) = uint (us_uid (sd_user s)),
            \<lambda>e. fst e = Task GetGid \<and> reply_id (snd e) = uint (us_gid (sd_user s))]
      else []) @
     (case sec_hostname (sd_security s) of
        None \<Rightarrow> [] | Some hostname \<Rightarrow> [\<lambda>e. e = (Task (SetHostname hostname), ROk)]) @
     (mounts_private # root_changed (rf_path (sd_rootfs s))) @ concat (map mount_steps (sd_mounts s)) @ [nnp_set] @
     (if sec_drop_caps (sd_security s) = [] then []
      else [caps_cleared (requested_caps (sec_drop_caps (sd_security s))),
            caps_gone (requested_caps (sec_drop_caps (sd_security s)))]) @
     (case sec_seccomp_profile (sd_security s) of
        None \<Rightarrow> [] | Some profile \<Rightarrow> [filter_installed (profile_filter profile)])"

lemma must_apply_seccomp: "must [filter_installed (profile_filter profile)] (apply_seccomp compile env profile)"
  by (auto simp: must_def apply_seccomp_ok profile_filter_def dest!: build_profile_ok)

lemma must_apply_child: "must (isolation_steps s) (apply_child compile env s)"
proof -
  have 2: "must (case sec_hostname (sd_security s) of
        None \<Rightarrow> [] | Some hostname \<Rightarrow> [\<lambda>e. e = (Task (SetHostname hostname), ROk)])
      (case sec_hostname (sd_security s) of Some n \<Rightarrow> set_hostname env n | None \<Rightarrow> io_return ())"
    using must_set_hostname by (cases "sec_hostname (sd_security s)") (auto simp: must_def)
  have 3: "must [nnp_set] (set_no_new_privs env)"
    by (auto simp: must_def nnp_set_def set_no_new_privs_def sys_or_bail_ok)
  have 4: "must (case sec_seccomp_profile (sd_security s) of None \<Rightarrow> [] |
        Some profile \<Rightarrow> [filter_installed (profile_filter profile)])
      (case sec_seccomp_profile (sd_security s) of Some profile \<Rightarrow> apply_seccomp compile env profile
        | None \<Rightarrow> io_return ())"
    using must_apply_seccomp by (auto simp: must_def split: option.splits)
  from must_seq [OF must_when [OF must_verify_identity] must_seq [OF 2 must_seq [OF must_setup_mounts must_seq [OF 3
        must_seq [OF must_drop_capabilities 4]]]]]
  show ?thesis unfolding apply_child_def isolation_steps_def append_assoc .
qed

text \<open>C18: A workload that reports its isolation applied has done every step its manifest asks for, each successfully and in
  this order: found itself under the mapped uid and gid, if it is rootless; set the host name, if there is one; made the
  mount namespace private, changed root and detached the old one; made every proc, tmpfs and bind mount of the
  manifest, in its order; set no-new-privs; written capability sets without any of the named capabilities and read
  them back as such, if any are named; and installed the filter of the named profile, if there is one.\<close>
theorem isolation_complete:
  assumes "apply_child compile env s h = (Inr (), h')"
  shows "\<exists>t. h' = h @ t \<and> has_in_order (isolation_steps s) t"
  using mustD [OF must_apply_child assms] .

definition gives_up_privileges :: "call \<times> reply \<Rightarrow> bool" where
  "gives_up_privileges e \<longleftrightarrow> fst e = Task SetNoNewPrivs \<or> restricts e"

text \<open>The part of the sequence after the mounts.\<close>

definition apply_privileges :: "(bpf_program \<Rightarrow> unit result) \<Rightarrow> env \<Rightarrow> seed \<Rightarrow> (history, unit) io" where
  "apply_privileges compile env s =
     io_seq (set_no_new_privs env)
     (io_seq (drop_capabilities env (sec_drop_caps (sd_security s)))
       (case sec_seccomp_profile (sd_security s) of
          Some profile \<Rightarrow> apply_seccomp compile env profile
        | None \<Rightarrow> io_return ()))"

lemma emits_privileges: "emits (\<lambda>_. True) (apply_privileges compile env s)"
  unfolding apply_privileges_def by (intro emits_intros; simp)

lemma apply_child_split:
  "apply_child compile env s =
     io_seq (io_when (us_map_rootless (sd_user s)) (verify_current_identity env (sd_user s)))
     (io_seq (case sec_hostname (sd_security s) of
                Some hostname \<Rightarrow> set_hostname env hostname
              | None \<Rightarrow> io_return ())
     (io_seq (setup_mounts env s) (apply_privileges compile env s)))"
  by (simp add: apply_child_def apply_privileges_def)

lemma guards_nnp: "guards nnp_set restricts (apply_child compile env s)"
proof -
  have n: "must [nnp_set] (set_no_new_privs env)"
    by (auto simp: must_def nnp_set_def set_no_new_privs_def sys_or_bail_ok)
  have "guards nnp_set restricts (apply_privileges compile env s)"
    unfolding apply_privileges_def
    by (rule guards_seq_first [OF _ n, where P = "\<lambda>_. True"]) (intro emits_intros; simp)+
  then show ?thesis
    unfolding apply_child_split
    by (intro guards_seq_skip emits_intros; simp)
qed

lemma guards_root: "guards old_root_detached gives_up_privileges (apply_child compile env s)"
proof -
  have r: "must [old_root_detached] (setup_mounts env s)"
    by (rule must_one [OF must_setup_mounts]) (auto simp: root_changed_def old_root_detached_def [abs_def])
  have g: "guards old_root_detached gives_up_privileges
      (io_seq (setup_mounts env s) (apply_privileges compile env s))"
    by (rule guards_seq_first [OF _ r emits_privileges])
      (intro emits_intros; simp add: gives_up_privileges_def)
  show ?thesis
    unfolding apply_child_split
    by (rule guards_seq_skip [OF _ guards_seq_skip [OF _ g]])
      (intro emits_intros; simp add: gives_up_privileges_def)+
qed

text \<open>C17: In every run of the isolation, failed or not and against any kernel, no capability is changed
  and no system call filter installed before no-new-privs is set, and none of the three happens
  before the old root has been detached.\<close>
theorem isolation_ordering:
  "\<exists>t. snd (apply_child compile env s h) = h @ t \<and> guarded nnp_set restricts t \<and>
       guarded old_root_detached gives_up_privileges t"
proof -
  obtain r h' where run: "apply_child compile env s h = (r, h')" by fastforce
  from guardsD [OF guards_nnp run] guardsD [OF guards_root run] show ?thesis using run by auto
qed

text \<open>A profile name other than strict, minimal and default is an error: the isolation does not
  succeed and no filter is installed at all.\<close>
theorem unknown_profile_fails_closed:
  assumes "sec_seccomp_profile (sd_security s) = Some profile"
    and "profile \<notin> {''strict'', ''minimal'', ''default''}"
  shows "\<not> is_ok (fst (apply_child compile env s h)) \<and>
    (\<exists>t. snd (apply_child compile env s h) = h @ t \<and> (\<forall>l a r. (InstallFilter l a, r) \<notin> set t))"
proof -
  let ?no = "\<lambda>e :: call \<times> reply. \<forall>l a. fst e \<noteq> InstallFilter l a"
  have b: "build_profile compile profile =
      bail (''Unknown seccomp profile '' @ squote profile @ ''; supported profiles are: strict, minimal, default'')"
    using assms(2) by (simp add: build_profile_def)
  then have a: "emits ?no (apply_seccomp compile env profile)"
    by (auto simp: apply_seccomp_def io_bind_def io_lift_def bail_def emits_def)
  have "emits ?no (apply_child compile env s)"
    unfolding apply_child_def assms(1) option.case
    by (rule emits_seq [OF _ emits_seq [OF _ emits_seq [OF _ emits_seq [OF _ emits_seq [OF _ a]]]]])
      (intro emits_intros; simp)+
  moreover obtain r h' where run: "apply_child compile env s h = (r, h')" by fastforce
  ultimately obtain t where "h' = h @ t" "\<forall>e \<in> set t. ?no e" using emitsD by blast
  moreover have "\<not> is_ok r"
  proof
    assume "is_ok r"
    with run assms(1) have "\<exists>h1 h2. apply_seccomp compile env profile h1 = (Inr (), h2)"
      by (auto simp: apply_child_def io_seq_ok is_ok_iff)
    then show False by (auto simp: apply_seccomp_ok b)
  qed
  ultimately show ?thesis using run by fastforce
qed

end
