(* ===== verification/Child.thy ===== *)
theory Child
  imports Isolation
begin

text \<open>
  The workload side of \<open>src/process.rs\<close>: the notices on the control socket, the bootstrap of the
  cloned task up to \<open>execv\<close>, and its exit code when the bootstrap fails.

  \<open>runtime\<close> bundles what is outside the repository: the filter compiler, the JSON text of a notice
  and its reader, the YAML text of a manifest. A write to the socket is one call. A successful
  \<open>Execv\<close> replaces the program, so nothing of the model comes after it.

  Lemmas: the notices of a successful bootstrap, what stands before every \<open>execv\<close>, and the profile
  under which no workload can ever start.
\<close>

section \<open>Notices\<close>

datatype child_notice =
    CnNamespaceReady namespace_ids int
  | CnIsolationReady
  | CnProcessStart int
  | CnFailed string

record runtime =
  rt_compile :: "bpf_program \<Rightarrow> unit result"
  rt_enc :: "child_notice \<Rightarrow> string"
  rt_dec :: "string \<Rightarrow> string + child_notice"
  rt_yaml :: "seed \<Rightarrow> string result"

definition child_start_byte :: char where
  "child_start_byte = CHR ''G''"

definition child_bootstrap_failure :: int where
  "child_bootstrap_failure = 125"

definition newline :: string where
  "newline = [CHR 0x0A]"

definition send_notice :: "runtime \<Rightarrow> env \<Rightarrow> child_notice \<Rightarrow> (history, unit) io" where
  "send_notice rt env notice =
     io_seq (io_ctx ''Failed to serialize child notice'' (sys_unit env (Ctl (CtlWrite (rt_enc rt notice)))))
       (io_ctx ''Failed to write child notice delimiter'' (sys_unit env (Ctl (CtlWrite newline))))"

section \<open>The bootstrap\<close>

text \<open>
  \<open>set_var\<close> panics when the key is empty or one of the two contains a NUL byte; an entry without
  an equals sign is skipped. The key never contains one.
\<close>

definition set_env_var :: "env \<Rightarrow> string \<Rightarrow> (history, unit) io" where
  "set_env_var env env_var =
     (case split_first (CHR ''='') env_var of
        None \<Rightarrow> io_return ()
      | Some (key, val) \<Rightarrow>
          if key = [] \<or> CHR 0x00 \<in> set key \<or> CHR 0x00 \<in> set val
          then io_lift (Inl (Panic ''failed to set environment variable''))
          else io_bind (sys env (Task (SetEnv key val))) (\<lambda>_. io_return ()))"

definition program_path :: "string list \<Rightarrow> string result" where
  "program_path cmd =
     (case cmd of
        [] \<Rightarrow> Inl (Panic ''index out of bounds: the len is 0 but the index is 0'')
      | c # _ \<Rightarrow> with_ctx ''Invalid program path'' (cstring c))"

fun program_args :: "string list \<Rightarrow> string list result" where
  "program_args [] = Inr []"
| "program_args (a # as) =
     res_bind (with_ctx ''Invalid argument'' (cstring a)) (\<lambda>c.
       res_bind (program_args as) (\<lambda>cs. Inr (c # cs)))"

text \<open>The last steps, from the announcement of the start to \<open>execv\<close>.\<close>

definition start_workload :: "runtime \<Rightarrow> env \<Rightarrow> string \<Rightarrow> string list \<Rightarrow> (history, unit) io" where
  "start_workload rt env program args =
     io_bind (sys_id env (Task GetPid)) (\<lambda>pid.
     io_seq (send_notice rt env (CnProcessStart pid))
       (io_ctx ''Failed to exec'' (sys_unit env (Task (Execv program args)))))"

definition enter_workload :: "runtime \<Rightarrow> env \<Rightarrow> seed \<Rightarrow> (history, unit) io" where
  "enter_workload rt env s =
     io_seq (io_ctx (''Failed to chdir to '' @ ep_cwd (sd_entrypoint s))
       (sys_unit env (Task (SetCurrentDir (ep_cwd (sd_entrypoint s))))))
     (io_seq (io_each (set_env_var env) (ep_env (sd_entrypoint s)))
     (io_bind (io_lift (program_path (ep_cmd (sd_entrypoint s)))) (\<lambda>program.
     io_bind (io_lift (program_args (ep_cmd (sd_entrypoint s)))) (\<lambda>args.
       start_workload rt env program args))))"

definition announce_namespaces :: "runtime \<Rightarrow> env \<Rightarrow> (history, unit) io" where
  "announce_namespaces rt env =
     io_bind (sys_id env (Task GetPid)) (\<lambda>namespace_pid.
     io_bind (io_ctx ''Failed to capture workload namespace identities'' (current_namespace_ids env)) (\<lambda>ids.
       send_notice rt env (CnNamespaceReady ids namespace_pid)))"

definition child_exec_static :: "runtime \<Rightarrow> env \<Rightarrow> seed \<Rightarrow> (history, unit) io" where
  "child_exec_static rt env s =
     io_seq (io_when (us_map_rootless (sd_user s))
       (io_ctx ''Rootless child identity transition failed'' (enter_mapped_identity env (sd_user s))))
     (io_seq (announce_namespaces rt env)
     (io_seq (io_ctx ''Failed to apply child isolation'' (apply_child (rt_compile rt) env s))
     (io_seq (send_notice rt env CnIsolationReady)
       (enter_workload rt env s))))"

text \<open>The closure handed to \<open>clone\<close>: its value is the exit code of the task.\<close>

definition child_main :: "runtime \<Rightarrow> env \<Rightarrow> seed \<Rightarrow> (history, int) io" where
  "child_main rt env s =
     io_bind (sys env (Ctl CtlClosePeer)) (\<lambda>_.
     io_bind (sys env (Ctl CtlReadByte)) (\<lambda>r.
     case r of
       RStr [start] \<Rightarrow>
         if start \<noteq> child_start_byte then io_return child_bootstrap_failure
         else
           io_bind (io_attempt (child_exec_static rt env s)) (\<lambda>res.
           case res of
             Inr _ \<Rightarrow> io_return 0
           | Inl err \<Rightarrow>
               io_bind (io_attempt (send_notice rt env (CnFailed (render err)))) (\<lambda>_.
                 io_return child_bootstrap_failure))
     | _ \<Rightarrow> io_return child_bootstrap_failure))"

section \<open>Lemmas\<close>

lemma emits_send_notice [emits_intros]:
  "(\<And>t r. P (Ctl (CtlWrite t), r)) \<Longrightarrow> emits P (send_notice rt env n)"
  unfolding send_notice_def by (intro emits_intros)

lemma emits_set_env [emits_intros]: "(\<And>k v r. P (Task (SetEnv k v), r)) \<Longrightarrow> emits P (set_env_var env e)"
  unfolding set_env_var_def by (auto intro!: emits_intros split: option.splits prod.splits)

lemma emits_announce [emits_intros]:
  assumes "\<And>t r. P (Ctl (CtlWrite t), r)" "\<And>p r. P (File (ReadLink p), r)" "\<And>r. P (Task GetPid, r)"
  shows "emits P (announce_namespaces rt env)"
  unfolding announce_namespaces_def by (intro emits_intros assms)

lemma emits_enter_workload [emits_intros]:
  assumes "\<And>t r. P (Ctl (CtlWrite t), r)" "\<And>c r. P (Task c, r)"
  shows "emits P (enter_workload rt env s)"
  unfolding enter_workload_def start_workload_def by (intro emits_intros assms)

text \<open>What the task wrote to the socket, successfully.\<close>

fun sent_text :: "history \<Rightarrow> string" where
  "sent_text [] = []"
| "sent_text ((Ctl (CtlWrite t), ROk) # h) = t @ sent_text h"
| "sent_text (_ # h) = sent_text h"

lemma sent_text_append [simp]: "sent_text (h @ t) = sent_text h @ sent_text t"
  by (induction h rule: sent_text.induct) auto

definition silent :: "call \<times> reply \<Rightarrow> bool" where
  "silent e \<longleftrightarrow> (\<forall>t. fst e \<noteq> Ctl (CtlWrite t))"

lemma silent_text: "\<forall>e \<in> set t. silent e \<Longrightarrow> sent_text t = []"
  by (induction t rule: sent_text.induct) (auto simp: silent_def)

lemma send_notice_ok:
  "send_notice rt env n h = (Inr (), h') \<Longrightarrow>
     h' = h @ [(Ctl (CtlWrite (rt_enc rt n)), ROk), (Ctl (CtlWrite newline), ROk)]"
  by (auto simp: send_notice_def io_seq_ok sys_unit_ok)

lemma silent_run:
  assumes "emits silent m" "m h = (r, h')"
  shows "\<exists>t. h' = h @ t \<and> sent_text t = []"
  using emitsD [OF assms] silent_text by blast

text \<open>The one piece of evidence in the first notice: the pid and the links the kernel reported.\<close>

definition links_reported :: "namespace_ids \<Rightarrow> history \<Rightarrow> bool" where
  "links_reported ids t \<longleftrightarrow>
     (File (ReadLink ''/proc/thread-self/ns/user''), RStr (ni_user ids)) \<in> set t \<and>
     (File (ReadLink ''/proc/thread-self/ns/pid''), RStr (ni_pid ids)) \<in> set t \<and>
     (File (ReadLink ''/proc/thread-self/ns/uts''), RStr (ni_uts ids)) \<in> set t \<and>
     (File (ReadLink ''/proc/thread-self/ns/ipc''), RStr (ni_ipc ids)) \<in> set t \<and>
     (File (ReadLink ''/proc/thread-self/ns/mnt''), RStr (ni_mnt ids)) \<in> set t \<and>
     (File (ReadLink ''/proc/thread-self/ns/net''), RStr (ni_net ids)) \<in> set t"

lemma current_ids_ok:
  "current_namespace_ids env h = (Inr ids, h') \<Longrightarrow> \<exists>t. h' = h @ t \<and> links_reported ids t"
  by (auto simp: current_namespace_ids_def namespace_link_def Let_def io_bind_ok sys_str_ok
      links_reported_def)

lemma announce_ok:
  assumes "announce_namespaces rt env h = (Inr (), h')"
  shows "\<exists>t ids pr. h' = h @ t \<and> sent_text t = rt_enc rt (CnNamespaceReady ids (reply_id pr)) @ newline \<and>
     (Task GetPid, pr) \<in> set t \<and> links_reported ids t"
proof -
  from assms obtain pr ids h1 where pr: "env h (Task GetPid) = pr"
    and ids: "current_namespace_ids env (h @ [(Task GetPid, pr)]) = (Inr ids, h1)"
    and send: "send_notice rt env (CnNamespaceReady ids (reply_id pr)) h1 = (Inr (), h')"
    by (auto simp: announce_namespaces_def io_bind_ok sys_id_def sys_ok)
  from current_ids_ok [OF ids] obtain t1 where t1: "h1 = h @ (Task GetPid, pr) # t1" "links_reported ids t1"
    by auto
  have "emits silent (current_namespace_ids env)" by (intro emits_intros) (simp add: silent_def)
  from silent_run [OF this ids] t1 have "sent_text t1 = []" by auto
  with t1 send_notice_ok [OF send] show ?thesis
    by (intro exI [of _ "(Task GetPid, pr) # t1 @ [(Ctl (CtlWrite (rt_enc rt (CnNamespaceReady ids (reply_id pr)))), ROk),
      (Ctl (CtlWrite newline), ROk)]"] exI [of _ ids] exI [of _ pr]) (auto simp: links_reported_def)
qed

section \<open>Properties\<close>

fun is_exec :: "call \<times> reply \<Rightarrow> bool" where
  "is_exec (Task (Execv p a), r) = True"
| "is_exec _ = False"

definition identity_steps :: "seed \<Rightarrow> (call \<times> reply \<Rightarrow> bool) list" where
  "identity_steps s =
     (if us_map_rootless (sd_user s)
      then [\<lambda>e. e = (Task (SetGid (us_gid (sd_user s))), ROk), \<lambda>e. e = (Task (SetUid (us_uid (sd_user s))), ROk),
            \<lambda>e. fst e = Task GetUid \<and> reply_id (snd e) = uint (us_uid (sd_user s)),
            \<lambda>e. fst e = Task GetGid \<and> reply_id (snd e) = uint (us_gid (sd_user s))]
      else [])"

text \<open>The state of the bootstrap after its isolation has been announced.\<close>

definition isolated_and_announced :: "runtime \<Rightarrow> seed \<Rightarrow> history \<Rightarrow> bool" where
  "isolated_and_announced rt s t \<longleftrightarrow>
     has_in_order (identity_steps s @ isolation_steps s) t \<and>
     (\<exists>ids pr. sent_text t = rt_enc rt (CnNamespaceReady ids (reply_id pr)) @ newline @
        rt_enc rt CnIsolationReady @ newline \<and> (Task GetPid, pr) \<in> set t \<and> links_reported ids t)"

lemma not_exec_identity:
  "emits (\<lambda>e. \<not> is_exec e) (io_when b (io_ctx c (enter_mapped_identity env u)))"
  unfolding enter_mapped_identity_def verify_current_identity_def get_uid_def get_gid_def
  by (intro emits_intros; simp)

lemma not_exec_isolation: "emits (\<lambda>e. \<not> is_exec e) (apply_child compile env s)"
  unfolding apply_child_def verify_current_identity_def get_uid_def get_gid_def
  by (intro emits_intros; simp)

lemma identity_silent: "emits silent (io_when b (io_ctx c (enter_mapped_identity env u)))"
  by (intro emits_intros) (simp add: silent_def)

lemma isolation_silent: "emits silent (apply_child compile env s)"
  by (intro emits_intros) (simp_all add: silent_def)

lemma identity_done:
  "must (identity_steps s) (io_when (us_map_rootless (sd_user s))
     (io_ctx c (enter_mapped_identity env (sd_user s))))"
  unfolding identity_steps_def by (intro must_when must_ctx must_enter_identity)

lemma stages_done:
  assumes 1: "io_when (us_map_rootless (sd_user s))
       (io_ctx c (enter_mapped_identity env (sd_user s))) h = (Inr (), h @ t1)"
    and 2: "announce_namespaces rt env (h @ t1) = (Inr (), (h @ t1) @ t2)"
    and 3: "io_ctx d (apply_child (rt_compile rt) env s) ((h @ t1) @ t2) = (Inr (), ((h @ t1) @ t2) @ t3)"
    and 4: "send_notice rt env CnIsolationReady (((h @ t1) @ t2) @ t3) = (Inr (), (((h @ t1) @ t2) @ t3) @ t4)"
  shows "isolated_and_announced rt s (t1 @ t2 @ t3 @ t4)"
proof -
  have i1: "has_in_order (identity_steps s) t1" using mustD [OF identity_done 1] by auto
  have i3: "has_in_order (isolation_steps s) t3" using mustD [OF must_ctx [OF must_apply_child] 3] by auto
  have s1: "sent_text t1 = []" using silent_run [OF identity_silent 1] by auto
  have s3: "sent_text t3 = []" using silent_run [OF emits_ctx [OF isolation_silent] 3] by auto
  have s4: "sent_text t4 = rt_enc rt CnIsolationReady @ newline" using send_notice_ok [OF 4] by auto
  obtain ids pr where "sent_text t2 = rt_enc rt (CnNamespaceReady ids (reply_id pr)) @ newline"
    "(Task GetPid, pr) \<in> set t2" "links_reported ids t2"
    using announce_ok [OF 2] by auto
  moreover have "has_in_order (identity_steps s @ isolation_steps s) (t1 @ t2 @ t3 @ t4)"
    using has_in_order_append [OF i1 has_in_order_more [OF i3, of t2 t4]] .
  ultimately show ?thesis using s1 s3 s4
    unfolding isolated_and_announced_def links_reported_def by auto
qed

lemma child_reaches:
  assumes "child_exec_static rt env s h = (r, h @ t)" "e \<in> set t" "Q e"
    and never: "emits (\<lambda>e. \<not> Q e) (io_when (us_map_rootless (sd_user s))
       (io_ctx ''Rootless child identity transition failed'' (enter_mapped_identity env (sd_user s))))"
      "emits (\<lambda>e. \<not> Q e) (announce_namespaces rt env)"
      "emits (\<lambda>e. \<not> Q e) (io_ctx ''Failed to apply child isolation'' (apply_child (rt_compile rt) env s))"
      "emits (\<lambda>e. \<not> Q e) (send_notice rt env CnIsolationReady)"
  shows "\<exists>u v. t = u @ v \<and> e \<in> set v \<and> isolated_and_announced rt s u \<and>
     enter_workload rt env s (h @ u) = (r, (h @ u) @ v)"
proof -
  let ?isolate = "io_ctx ''Failed to apply child isolation'' (apply_child (rt_compile rt) env s)"
  let ?S = "io_seq (send_notice rt env CnIsolationReady) (enter_workload rt env s)"
  let ?A = "io_seq ?isolate ?S"
  let ?N = "io_seq (announce_namespaces rt env) ?A"
  have E: "emits (\<lambda>_. True) (enter_workload rt env s)" and S: "emits (\<lambda>_. True) ?S"
    and A: "emits (\<lambda>_. True) ?A" and N: "emits (\<lambda>_. True) ?N"
    by (intro emits_intros; simp)+
  note run = assms(1) [unfolded child_exec_static_def]
  from seq_reach [OF run never(1) assms(2,3) N] obtain t1 a1 where
    1: "io_when (us_map_rootless (sd_user s)) (io_ctx ''Rootless child identity transition failed''
         (enter_mapped_identity env (sd_user s))) h = (Inr (), h @ t1)"
    "?N (h @ t1) = (r, (h @ t1) @ a1)" "t = t1 @ a1" "e \<in> set a1" by auto
  from seq_reach [OF 1(2) never(2) 1(4) assms(3) A] obtain t2 a2 where
    2: "announce_namespaces rt env (h @ t1) = (Inr (), (h @ t1) @ t2)"
    "?A ((h @ t1) @ t2) = (r, ((h @ t1) @ t2) @ a2)" "a1 = t2 @ a2" "e \<in> set a2" by auto
  from seq_reach [OF 2(2) never(3) 2(4) assms(3) S] obtain t3 a3 where
    3: "?isolate ((h @ t1) @ t2) = (Inr (), ((h @ t1) @ t2) @ t3)"
    "?S (((h @ t1) @ t2) @ t3) = (r, (((h @ t1) @ t2) @ t3) @ a3)" "a2 = t3 @ a3" "e \<in> set a3" by auto
  from seq_reach [OF 3(2) never(4) 3(4) assms(3) E] obtain t4 a4 where
    4: "send_notice rt env CnIsolationReady (((h @ t1) @ t2) @ t3) = (Inr (), (((h @ t1) @ t2) @ t3) @ t4)"
    "enter_workload rt env s ((((h @ t1) @ t2) @ t3) @ t4) = (r, ((((h @ t1) @ t2) @ t3) @ t4) @ a4)"
    "a3 = t4 @ a4" "e \<in> set a4" by auto
  from stages_done [OF 1(1) 2(1) 3(1) 4(1)] 1(3) 2(3) 3(3) 4(2-4) show ?thesis
    by (intro exI [of _ "t1 @ t2 @ t3 @ t4"] exI [of _ a4]) simp
qed

text \<open>C1: Whatever the kernel does and however the bootstrap ends, \<open>execv\<close> is never called before the
  identity change of a rootless workload, the whole isolation sequence and the two notices of
  namespaces and isolation have all succeeded.\<close>
theorem exec_only_isolated:
  assumes "child_exec_static rt env s h = (r, h @ t)" "(Task (Execv p a), x) \<in> set t"
  shows "\<exists>u v. t = u @ v \<and> (Task (Execv p a), x) \<in> set v \<and> isolated_and_announced rt s u"
proof -
  have "emits (\<lambda>e. \<not> is_exec e) (announce_namespaces rt env)"
    "emits (\<lambda>e. \<not> is_exec e) (io_ctx ''Failed to apply child isolation'' (apply_child (rt_compile rt) env s))"
    "emits (\<lambda>e. \<not> is_exec e) (send_notice rt env CnIsolationReady)"
    by (intro emits_intros not_exec_isolation; simp)+
  from child_reaches [OF assms(1,2) _ not_exec_identity this] show ?thesis by auto
qed

lemma enter_workload_ok:
  assumes "enter_workload rt env s h = (Inr (), h')"
  shows "\<exists>t pr p a. h' = h @ t @ [(Task (Execv p a), ROk)] \<and>
     sent_text t = rt_enc rt (CnProcessStart (reply_id pr)) @ newline \<and> (Task GetPid, pr) \<in> set t \<and>
     ep_cmd (sd_entrypoint s) = a \<and> a \<noteq> [] \<and> p = hd a"
proof -
  let ?env = "io_each (set_env_var env) (ep_env (sd_entrypoint s))"
  from assms obtain h1 h2 p a where c: "h1 = h @ [(Task (SetCurrentDir (ep_cwd (sd_entrypoint s))), ROk)]"
    and e: "?env h1 = (Inr (), h2)"
    and p: "program_path (ep_cmd (sd_entrypoint s)) = Inr p"
    and a: "program_args (ep_cmd (sd_entrypoint s)) = Inr a"
    and st: "start_workload rt env p a h2 = (Inr (), h')"
    by (auto simp: enter_workload_def io_seq_ok io_bind_ok sys_unit_ok)
  have "emits silent ?env" by (intro emits_intros) (simp add: silent_def)
  from silent_run [OF this e] obtain t1 where t1: "h2 = h1 @ t1" "sent_text t1 = []" by blast
  from st obtain pr where "h' = h2 @ [(Task GetPid, pr), (Ctl (CtlWrite (rt_enc rt (CnProcessStart (reply_id pr)))), ROk),
      (Ctl (CtlWrite newline), ROk), (Task (Execv p a), ROk)]"
    by (auto simp: start_workload_def io_bind_ok io_seq_ok sys_id_def sys_ok sys_unit_ok dest!: send_notice_ok)
  moreover have "ep_cmd (sd_entrypoint s) = a"
  proof -
    have "program_args xs = Inr ys \<Longrightarrow> xs = ys" for xs ys
      by (induction xs arbitrary: ys) auto
    with a show ?thesis by blast
  qed
  moreover have "a \<noteq> [] \<and> p = hd a"
    using p \<open>ep_cmd (sd_entrypoint s) = a\<close> by (auto simp: program_path_def split: list.splits)
  ultimately show ?thesis using c t1
    by (intro exI [of _ "(Task (SetCurrentDir (ep_cwd (sd_entrypoint s))), ROk) # t1 @
      [(Task GetPid, pr), (Ctl (CtlWrite (rt_enc rt (CnProcessStart (reply_id pr)))), ROk),
       (Ctl (CtlWrite newline), ROk)]"] exI [of _ pr] exI [of _ p] exI [of _ a]) simp
qed

lemma child_stages:
  assumes "child_exec_static rt env s h = (Inr (), h')"
  shows "\<exists>u. isolated_and_announced rt s u \<and> enter_workload rt env s (h @ u) = (Inr (), h')"
proof -
  from assms obtain h1 h2 h3 h4 where
    1: "io_when (us_map_rootless (sd_user s)) (io_ctx ''Rootless child identity transition failed''
         (enter_mapped_identity env (sd_user s))) h = (Inr (), h1)"
    and 2: "announce_namespaces rt env h1 = (Inr (), h2)"
    and 3: "io_ctx ''Failed to apply child isolation'' (apply_child (rt_compile rt) env s) h2 = (Inr (), h3)"
    and 4: "send_notice rt env CnIsolationReady h3 = (Inr (), h4)"
    and 5: "enter_workload rt env s h4 = (Inr (), h')"
    by (auto simp: child_exec_static_def io_seq_ok)
  obtain t1 where t1: "h1 = h @ t1" using silent_run [OF identity_silent 1] by blast
  obtain t2 where t2: "h2 = h1 @ t2" using announce_ok [OF 2] by blast
  obtain t3 where t3: "h3 = h2 @ t3" using silent_run [OF emits_ctx [OF isolation_silent] 3] by blast
  obtain t4 where t4: "h4 = h3 @ t4" using send_notice_ok [OF 4] by blast
  have "isolated_and_announced rt s (t1 @ t2 @ t3 @ t4)"
    by (rule stages_done) (use 1 2 3 4 t1 t2 t3 t4 in simp_all)
  with 5 t1 t2 t3 t4 show ?thesis by (intro exI [of _ "t1 @ t2 @ t3 @ t4"]) simp
qed

text \<open>C19: A bootstrap that succeeds has written exactly three lines to the supervisor (namespaces,
  isolation, start), with the pid and the namespace links the kernel reported to it, has gone
  through the whole isolation, and ends in the \<open>execv\<close> of the manifest's command.\<close>
theorem child_boot_protocol:
  assumes "child_exec_static rt env s h = (Inr (), h')"
  shows "\<exists>t ids pr qr. h' = h @ t @ [(Task (Execv (hd (ep_cmd (sd_entrypoint s))) (ep_cmd (sd_entrypoint s))), ROk)] \<and>
     sent_text t = rt_enc rt (CnNamespaceReady ids (reply_id pr)) @ newline @ rt_enc rt CnIsolationReady @ newline @
       rt_enc rt (CnProcessStart (reply_id qr)) @ newline \<and>
     (Task GetPid, pr) \<in> set t \<and> (Task GetPid, qr) \<in> set t \<and> links_reported ids t \<and>
     has_in_order (identity_steps s @ isolation_steps s) t"
proof -
  from child_stages [OF assms] obtain u where u: "isolated_and_announced rt s u"
    "enter_workload rt env s (h @ u) = (Inr (), h')" by blast
  from enter_workload_ok [OF u(2)] obtain v qr where
    v: "h' = (h @ u) @ v @ [(Task (Execv (hd (ep_cmd (sd_entrypoint s))) (ep_cmd (sd_entrypoint s))), ROk)]"
    "sent_text v = rt_enc rt (CnProcessStart (reply_id qr)) @ newline" "(Task GetPid, qr) \<in> set v" by blast
  from u(1) obtain ids pr where
    w: "sent_text u = rt_enc rt (CnNamespaceReady ids (reply_id pr)) @ newline @ rt_enc rt CnIsolationReady @ newline"
    "(Task GetPid, pr) \<in> set u" "links_reported ids u"
    "has_in_order (identity_steps s @ isolation_steps s) u"
    unfolding isolated_and_announced_def by blast
  have "has_in_order (identity_steps s @ isolation_steps s) (u @ v)"
    using has_in_order_more [OF w(4), of "[]" v] by simp
  with v w show ?thesis
    by (intro exI [of _ "u @ v"] exI [of _ ids] exI [of _ pr] exI [of _ qr]) (auto simp: links_reported_def)
qed

lemma strict_installed:
  assumes "isolated_and_announced rt s u" "sec_seccomp_profile (sd_security s) = Some ''strict''"
  shows "(InstallFilter strict_syscalls KillProcess, ROk) \<in> set u"
proof -
  have "filter_installed (profile_filter ''strict'') \<in> set (identity_steps s @ isolation_steps s)"
    using assms(2) by (simp add: isolation_steps_def)
  moreover have "has_in_order (identity_steps s @ isolation_steps s) u"
    using assms(1) by (simp add: isolated_and_announced_def)
  ultimately obtain e where "e \<in> set u" "filter_installed (profile_filter ''strict'') e"
    using has_in_order_mem by blast
  then show ?thesis
    by (cases "(profile_filter ''strict'', e)" rule: filter_installed.cases) (auto simp: profile_filter_def)
qed

text \<open>C39: Under the strict profile no workload can start: on a kernel that enforces the filter, the
  bootstrap is killed at its next step, changing directory, so \<open>execv\<close> is never reached and the
  bootstrap never succeeds.\<close>
theorem strict_profile_never_execs:
  assumes "enforces_filters env" "sec_seccomp_profile (sd_security s) = Some ''strict''"
    and "child_exec_static rt env s h = (r, h @ t)"
  shows "\<not> is_ok r \<and> (\<forall>p a x. (Task (Execv p a), x) \<notin> set t)"
proof -
  have stop: "enter_workload rt env s (h @ u) =
      (Inl Killed, (h @ u) @ [(Task (SetCurrentDir (ep_cwd (sd_entrypoint s))), RKilled)])"
    if "isolated_and_announced rt s u" for u
  proof -
    have "(InstallFilter strict_syscalls KillProcess, ROk) \<in> set (h @ u)"
      using strict_installed [OF that assms(2)] by simp
    then have "env (h @ u) (Task (SetCurrentDir (ep_cwd (sd_entrypoint s)))) = RKilled"
      using assms(1) unfolding enforces_filters_def by (auto simp: strict_syscalls_def)
    then show ?thesis
      by (simp add: enter_workload_def io_seq_def io_bind_def io_ctx_def sys_unit_def sys_def Let_def)
  qed
  have "\<not> is_ok r"
    using assms(3) child_stages [of rt env s h "h @ t"] stop by (cases r) auto
  moreover have "(Task (Execv p a), x) \<notin> set t" for p a x
  proof
    assume "(Task (Execv p a), x) \<in> set t"
    moreover have "emits (\<lambda>e. \<not> is_exec e) (announce_namespaces rt env)"
      "emits (\<lambda>e. \<not> is_exec e) (io_ctx ''Failed to apply child isolation'' (apply_child (rt_compile rt) env s))"
      "emits (\<lambda>e. \<not> is_exec e) (send_notice rt env CnIsolationReady)"
      by (intro emits_intros not_exec_isolation; simp)+
    ultimately obtain u v where "isolated_and_announced rt s u" "(Task (Execv p a), x) \<in> set v"
      "enter_workload rt env s (h @ u) = (r, (h @ u) @ v)"
      using child_reaches [OF assms(3) _ _ not_exec_identity, of "(Task (Execv p a), x)"] by auto
    with stop show False by auto
  qed
  ultimately show ?thesis by simp
qed

end
