(* ===== verification/Runner.thy ===== *)
theory Runner
  imports Child Events
begin

text \<open>
  The supervisor side of \<open>src/process.rs\<close>: \<open>ProcessRunner::run\<close> from the manifest record to the final
  status, with the clone guard, the evidence loop and the fail-closed paths.

  \<open>run_id\<close> is the UUID drawn by \<open>ProcessRunner::new\<close>. The two loops, waiting for the child and
  reading its notices, take \<open>fuel\<close>; \<open>NoFuel\<close> marks a run that was given too little. The guard's
  \<open>Drop\<close> runs at every exit after the clone (\<open>io_finally\<close>); whether the child was reaped is the
  phase in which the exit lies. Closing the supervisor's end at the end of \<open>run\<close> is not modelled.
\<close>

section \<open>Waiting and the clone guard\<close>

text \<open>\<open>Drop\<close> runs on a return and on a panic, not when the task itself is gone.\<close>

definition io_finally :: "('s, 'a) io \<Rightarrow> ('s, unit) io \<Rightarrow> ('s, 'a) io" where
  "io_finally m d = (\<lambda>s. case m s of
       (Inl Killed, s') \<Rightarrow> (Inl Killed, s')
     | (Inl NoFuel, s') \<Rightarrow> (Inl NoFuel, s')
     | (r, s') \<Rightarrow> (case d s' of (Inl e, s'') \<Rightarrow> (Inl e, s'') | (Inr _, s'') \<Rightarrow> (r, s'')))"

definition sigkill :: int where
  "sigkill = 9"

fun wait_for_terminal :: "nat \<Rightarrow> env \<Rightarrow> int \<Rightarrow> (history, wait_status) io" where
  "wait_for_terminal 0 env pid = io_lift (Inl NoFuel)"
| "wait_for_terminal (Suc fuel) env pid =
     io_bind (sys env (Proc (WaitPid pid False))) (\<lambda>r.
     case r of
       RWait (Exited p code) \<Rightarrow> io_return (Exited p code)
     | RWait (Signaled p sig) \<Rightarrow> io_return (Signaled p sig)
     | RWait _ \<Rightarrow> wait_for_terminal fuel env pid
     | REintr \<Rightarrow> wait_for_terminal fuel env pid
     | _ \<Rightarrow> io_bail (''waitpid failed: '' @ os_error r))"

definition terminate :: "env \<Rightarrow> int \<Rightarrow> (history, unit) io" where
  "terminate env pid = io_bind (sys env (Proc (Kill pid sigkill))) (\<lambda>_. io_return ())"

text \<open>\<open>Drop\<close> of \<open>ClonedWorkload\<close>.\<close>

definition drop_reap :: "nat \<Rightarrow> env \<Rightarrow> int \<Rightarrow> (history, unit) io" where
  "drop_reap fuel env pid =
     io_bind (sys env (Proc (WaitPid pid True))) (\<lambda>r.
     case r of
       RWait (Exited p code) \<Rightarrow> io_return ()
     | RWait (Signaled p sig) \<Rightarrow> io_return ()
     | REchild \<Rightarrow> io_return ()
     | _ \<Rightarrow>
         io_seq (terminate env pid)
           (io_bind (io_attempt (wait_for_terminal fuel env pid)) (\<lambda>_. io_return ())))"

definition drop_workload :: "nat \<Rightarrow> env \<Rightarrow> int \<Rightarrow> string option \<Rightarrow> bool \<Rightarrow> (history, unit) io" where
  "drop_workload fuel env pid cgroup_seed_id reaped =
     io_seq (io_when (\<not> reaped) (drop_reap fuel env pid))
       (case cgroup_seed_id of
          Some seed_id \<Rightarrow> io_bind (io_attempt (cleanup_cgroup env seed_id)) (\<lambda>_. io_return ())
        | None \<Rightarrow> io_return ())"

section \<open>Records in the store\<close>

text \<open>Builders stamp an event when it is built.\<close>

definition append_event :: "env \<Rightarrow> string \<Rightarrow> (string \<Rightarrow> string event) \<Rightarrow> (history, unit) io" where
  "append_event env run_id mk =
     io_bind (now_rfc3339 env) (\<lambda>ts. store env (AppendEvent run_id (event_json (mk ts))))"

definition store_seed_manifest :: "runtime \<Rightarrow> env \<Rightarrow> seed \<Rightarrow> (history, unit) io" where
  "store_seed_manifest rt env s =
     io_bind (io_ctx ''Failed to serialize seed YAML'' (io_lift (rt_yaml rt s))) (\<lambda>yaml.
     io_bind (now_rfc3339 env) (\<lambda>ts.
       store env (UpsertSeed \<lparr>sr_id = sm_id (sd_meta s), sr_name = sm_name (sd_meta s),
                              sr_manifest_yaml = yaml, sr_created_at = ts\<rparr>)))"

definition record_failed_run :: "env \<Rightarrow> string \<Rightarrow> event_builder \<Rightarrow> string \<Rightarrow> (history, unit) io" where
  "record_failed_run env run_id events err =
     io_seq (append_event env run_id (process_failed events err))
     (io_bind (now_rfc3339 env) (\<lambda>end_ts.
       store env (UpdateRunStatus run_id (RunFailed err) (Some end_ts))))"

definition set_cloexec :: "env \<Rightarrow> end_of_pair \<Rightarrow> (history, unit) io" where
  "set_cloexec env e = sys_or_bail env (Proc (SetCloexec e)) ''Failed to set FD_CLOEXEC on control socket: ''"

section \<open>The evidence loop\<close>

definition validate_workload_namespace_boundary ::
    "namespace_ids \<Rightarrow> namespace_ids \<Rightarrow> bool \<Rightarrow> bool \<Rightarrow> int \<Rightarrow> unit result" where
  "validate_workload_namespace_boundary supervisor workload map_rootless enable_net namespace_pid =
     (if namespace_pid \<noteq> 1 then bail (''expected workload PID 1, observed '' @ show_int namespace_pid)
      else
        case find (\<lambda>(name, parent, child). parent = child)
               [(''pid'', ni_pid supervisor, ni_pid workload),
                (''uts'', ni_uts supervisor, ni_uts workload),
                (''ipc'', ni_ipc supervisor, ni_ipc workload),
                (''mnt'', ni_mnt supervisor, ni_mnt workload)] of
          Some (name, parent, child) \<Rightarrow>
            bail (''workload did not enter a distinct '' @ name @ '' namespace: '' @ child)
        | None \<Rightarrow>
            if map_rootless \<and> ni_user supervisor = ni_user workload
            then bail ''rootless workload did not enter a distinct user namespace''
            else if \<not> map_rootless \<and> ni_user supervisor \<noteq> ni_user workload
            then bail ''rootful workload unexpectedly changed user namespace''
            else if enable_net \<and> ni_net supervisor = ni_net workload
            then bail ''networked workload did not enter a distinct network namespace''
            else if \<not> enable_net \<and> ni_net supervisor \<noteq> ni_net workload
            then bail ''network-disabled workload unexpectedly changed network namespace''
            else Inr ())"

record evidence =
  saw_namespace :: bool
  saw_isolation :: bool
  saw_process_start :: bool
  reported_failure :: "string option"
  protocol_error :: "string option"

definition no_evidence :: evidence where
  "no_evidence = \<lparr>saw_namespace = False, saw_isolation = False, saw_process_start = False,
     reported_failure = None, protocol_error = None\<rparr>"

definition ns_message :: "seed \<Rightarrow> namespace_ids \<Rightarrow> int \<Rightarrow> string" where
  "ns_message s ids namespace_pid =
     workload_namespace_names (us_map_rootless (sd_user s)) (net_enable (sd_net s)) @
     ''; namespace_pid='' @ show_int namespace_pid @ ''; '' @ ns_summary ids"

text \<open>One notice: the evidence after it and whether the loop goes on.\<close>

fun handle_notice ::
    "env \<Rightarrow> seed \<Rightarrow> string \<Rightarrow> event_builder \<Rightarrow> namespace_ids \<Rightarrow> evidence \<Rightarrow> child_notice \<Rightarrow>
     (history, bool \<times> evidence) io" where
  "handle_notice env s run_id events before ev (CnNamespaceReady ids namespace_pid) =
     (case validate_workload_namespace_boundary before ids (us_map_rootless (sd_user s))
             (net_enable (sd_net s)) namespace_pid of
        Inl (Err ms) \<Rightarrow>
          io_return (False, ev\<lparr>protocol_error := Some (''Namespace boundary verification failed: '' @ render ms)\<rparr>)
      | Inl e \<Rightarrow> io_lift (Inl e)
      | Inr _ \<Rightarrow>
          io_seq (append_event env run_id (ns_created events (ns_message s ids namespace_pid)))
          (io_seq (io_when (us_map_rootless (sd_user s)) (append_event env run_id (idmap_applied events)))
            (io_return (True, ev\<lparr>saw_namespace := True\<rparr>))))"
| "handle_notice env s run_id events before ev CnIsolationReady =
     io_seq (append_event env run_id (mount_done events ''Mounts configured''))
     (io_seq (io_when (sec_drop_caps (sd_security s) \<noteq> []) (append_event env run_id (caps_dropped events)))
     (io_seq (io_when (sec_seccomp_profile (sd_security s) \<noteq> None)
        (append_event env run_id (seccomp_enabled events)))
       (io_return (True, ev\<lparr>saw_isolation := True\<rparr>))))"
| "handle_notice env s run_id events before ev (CnProcessStart namespace_pid) =
     (if namespace_pid \<noteq> 1
      then io_return (False, ev\<lparr>protocol_error :=
             Some (''Workload process is not PID 1 in its PID namespace: observed '' @ show_int namespace_pid)\<rparr>)
      else io_seq (append_event env run_id (process_start events namespace_pid))
             (io_return (True, ev\<lparr>saw_process_start := True\<rparr>)))"
| "handle_notice env s run_id events before ev (CnFailed err) =
     io_return (False, ev\<lparr>reported_failure := Some err\<rparr>)"

fun evidence_loop ::
    "nat \<Rightarrow> runtime \<Rightarrow> env \<Rightarrow> seed \<Rightarrow> string \<Rightarrow> event_builder \<Rightarrow> namespace_ids \<Rightarrow> evidence \<Rightarrow>
     (history, evidence) io" where
  "evidence_loop 0 rt env s run_id events before ev = io_lift (Inl NoFuel)"
| "evidence_loop (Suc fuel) rt env s run_id events before ev =
     io_bind (sys env (Ctl CtlReadLine)) (\<lambda>r.
     case r of
       RStr line \<Rightarrow>
         if line = [] then io_return ev
         else
           (case rt_dec rt (trim_end line) of
              Inl err \<Rightarrow> io_return (ev\<lparr>protocol_error := Some (''Invalid child evidence message: '' @ err)\<rparr>)
            | Inr notice \<Rightarrow>
                io_bind (handle_notice env s run_id events before ev notice) (\<lambda>(go_on, ev').
                  if go_on then evidence_loop fuel rt env s run_id events before ev' else io_return ev'))
     | _ \<Rightarrow> io_return (ev\<lparr>protocol_error := Some (''Failed reading child evidence channel: '' @ os_error r)\<rparr>))"

section \<open>The run\<close>

text \<open>Signals have the numbers of Linux; \<open>Debug\<close> of \<open>Signal\<close> is the name.\<close>

definition signal_names :: "string list" where
  "signal_names =
     [''SIGHUP'', ''SIGINT'', ''SIGQUIT'', ''SIGILL'', ''SIGTRAP'', ''SIGABRT'', ''SIGBUS'', ''SIGFPE'',
      ''SIGKILL'', ''SIGUSR1'', ''SIGSEGV'', ''SIGUSR2'', ''SIGPIPE'', ''SIGALRM'', ''SIGTERM'',
      ''SIGSTKFLT'', ''SIGCHLD'', ''SIGCONT'', ''SIGSTOP'', ''SIGTSTP'', ''SIGTTIN'', ''SIGTTOU'',
      ''SIGURG'', ''SIGXCPU'', ''SIGXFSZ'', ''SIGVTALRM'', ''SIGPROF'', ''SIGWINCH'', ''SIGIO'',
      ''SIGPWR'', ''SIGSYS'']"

definition signal_name :: "int \<Rightarrow> string" where
  "signal_name sig =
     (if 1 \<le> sig \<and> sig \<le> 31 then signal_names ! (nat sig - 1) else show_int sig)"

definition debug_ns :: "namespace_ids \<Rightarrow> string" where
  "debug_ns n =
     (let q = (\<lambda>s. [CHR 0x22] @ s @ [CHR 0x22]) in
      ''NamespaceIds { user: '' @ q (ni_user n) @ '', pid: '' @ q (ni_pid n) @ '', uts: '' @ q (ni_uts n) @
      '', ipc: '' @ q (ni_ipc n) @ '', mnt: '' @ q (ni_mnt n) @ '', net: '' @ q (ni_net n) @ '' }'')"

text \<open>The first phase after the clone ends with the child released or the run to be aborted.\<close>

datatype release = Released | Aborted string

definition release_workload ::
    "env \<Rightarrow> seed \<Rightarrow> string \<Rightarrow> event_builder \<Rightarrow> int \<Rightarrow> int \<Rightarrow> int \<Rightarrow> string option \<Rightarrow> (history, release) io" where
  "release_workload env s run_id events pid parent_uid parent_gid cgroup_path =
     io_bind (if us_map_rootless (sd_user s)
              then io_attempt (map_child_from_parent env pid (sd_user s) parent_uid parent_gid)
              else io_return (Inr ())) (\<lambda>mapped.
     case mapped of
       Inl ms \<Rightarrow> io_return (Aborted (''Failed to install rootless UID/GID mapping: '' @ render ms))
     | Inr _ \<Rightarrow>
     io_bind (case cgroup_path of
                Some path \<Rightarrow> io_attempt (move_pid_to_path env path pid)
              | None \<Rightarrow> io_return (Inr ())) (\<lambda>moved.
     case moved of
       Inl ms \<Rightarrow> io_return (Aborted (''Failed to move workload into prepared cgroup: '' @ render ms))
     | Inr _ \<Rightarrow>
     io_seq (io_when (cgroup_path \<noteq> None) (append_event env run_id (cgroup_applied events)))
     (io_seq (store env (UpdateRunStatus run_id RunRunning None))
     (io_bind (io_attempt (sys_unit env (Ctl (CtlWrite [child_start_byte])))) (\<lambda>released.
     case released of
       Inl ms \<Rightarrow> io_return (Aborted (''Failed to release isolated workload: '' @ render ms))
     | Inr _ \<Rightarrow>
         io_seq (io_ctx ''Failed to close supervisor control write side'' (sys_unit env (Ctl CtlShutdownWrite)))
           (io_return Released))))))"

text \<open>The evidence, and the kill when the protocol was violated.\<close>

definition gather_evidence ::
    "nat \<Rightarrow> runtime \<Rightarrow> env \<Rightarrow> seed \<Rightarrow> string \<Rightarrow> event_builder \<Rightarrow> int \<Rightarrow> namespace_ids \<Rightarrow> (history, evidence) io" where
  "gather_evidence fuel rt env s run_id events pid before =
     io_bind (evidence_loop fuel rt env s run_id events before no_evidence) (\<lambda>ev.
     io_seq (io_when (protocol_error ev \<noteq> None) (terminate env pid)) (io_return ev))"

definition or_else :: "'a option \<Rightarrow> 'a option \<Rightarrow> 'a option" where
  "or_else a b = (case a of Some x \<Rightarrow> Some x | None \<Rightarrow> b)"

definition status_code :: "wait_status \<Rightarrow> int" where
  "status_code st =
     (case st of
        Exited _ code \<Rightarrow> code
      | Signaled _ sig \<Rightarrow> 128 + sig
      | _ \<Rightarrow> child_bootstrap_failure)"

text \<open>The verdict, once the child has been reaped.\<close>

definition conclude_run ::
    "env \<Rightarrow> string \<Rightarrow> event_builder \<Rightarrow> namespace_ids \<Rightarrow> evidence \<Rightarrow> wait_status \<Rightarrow> (history, int) io" where
  "conclude_run env run_id events before ev st =
     io_bind (io_ctx ''Failed to capture supervisor namespace state after workload''
                (current_namespace_ids env)) (\<lambda>after.
     let invariance_error =
           (if after \<noteq> before
            then Some (''Host supervisor namespace IDs changed across workload run: before='' @
                       debug_ns before @ '' after='' @ debug_ns after)
            else None)
     in
     case or_else invariance_error (or_else (protocol_error ev) (reported_failure ev)) of
       Some err \<Rightarrow> io_seq (record_failed_run env run_id events err) (io_return (status_code st))
     | None \<Rightarrow>
         if \<not> saw_namespace ev \<or> \<not> saw_isolation ev \<or> \<not> saw_process_start ev
         then io_seq (record_failed_run env run_id events
                (''Child evidence incomplete before exec: namespace='' @ show_flag (saw_namespace ev) @
                 '' isolation='' @ show_flag (saw_isolation ev) @
                 '' process_start='' @ show_flag (saw_process_start ev)))
                (io_return child_bootstrap_failure)
         else
           case st of
             Exited _ exit_code \<Rightarrow>
               io_seq (append_event env run_id (process_exit events exit_code))
               (io_bind (now_rfc3339 env) (\<lambda>end_ts.
               io_seq (store env (UpdateRunStatus run_id (RunExited exit_code) (Some end_ts)))
                 (io_return exit_code)))
           | Signaled _ sig \<Rightarrow>
               io_seq (record_failed_run env run_id events (''Killed by signal: '' @ signal_name sig))
                 (io_return (128 + sig))
           | _ \<Rightarrow>
               io_seq (record_failed_run env run_id events ''Unexpected terminal wait status'')
                 (io_return child_bootstrap_failure))"

definition abort_blocked_child ::
    "nat \<Rightarrow> env \<Rightarrow> string \<Rightarrow> event_builder \<Rightarrow> int \<Rightarrow> string option \<Rightarrow> string \<Rightarrow> (history, int) io" where
  "abort_blocked_child fuel env run_id events pid cgroup_seed_id err =
     io_bind (sys env (Ctl CtlClose)) (\<lambda>_.
     io_bind (io_attempt (wait_for_terminal fuel env pid)) (\<lambda>first.
     io_bind (case first of
                Inr _ \<Rightarrow> io_return True
              | Inl _ \<Rightarrow>
                  io_seq (terminate env pid)
                  (io_bind (io_attempt (wait_for_terminal fuel env pid)) (\<lambda>second.
                    io_return (case second of Inr _ \<Rightarrow> True | Inl _ \<Rightarrow> False)))) (\<lambda>reaped.
     io_finally
       (io_seq (record_failed_run env run_id events err) (io_return child_bootstrap_failure))
       (drop_workload fuel env pid cgroup_seed_id reaped))))"

text \<open>Everything after the clone.\<close>

definition supervise ::
    "nat \<Rightarrow> runtime \<Rightarrow> env \<Rightarrow> seed \<Rightarrow> string \<Rightarrow> event_builder \<Rightarrow> int \<Rightarrow> int \<Rightarrow> int \<Rightarrow> string option \<Rightarrow>
     namespace_ids \<Rightarrow> (history, int) io" where
  "supervise fuel rt env s run_id events pid parent_uid parent_gid cgroup_path before =
     (let cgroup_seed_id = map_option (\<lambda>_. sm_id (sd_meta s)) cgroup_path;
          drop_unreaped = drop_workload fuel env pid cgroup_seed_id False
      in (\<lambda>h. case release_workload env s run_id events pid parent_uid parent_gid cgroup_path h of
            (Inl e, h1) \<Rightarrow> io_finally (io_lift (Inl e)) drop_unreaped h1
          | (Inr (Aborted err), h1) \<Rightarrow>
              abort_blocked_child fuel env run_id events pid cgroup_seed_id err h1
          | (Inr Released, h1) \<Rightarrow>
              (case io_bind (gather_evidence fuel rt env s run_id events pid before)
                      (\<lambda>ev. io_bind (wait_for_terminal fuel env pid) (\<lambda>st. io_return (ev, st))) h1 of
                 (Inl e, h2) \<Rightarrow> io_finally (io_lift (Inl e)) drop_unreaped h2
               | (Inr (ev, st), h2) \<Rightarrow>
                   io_finally (conclude_run env run_id events before ev st)
                     (drop_workload fuel env pid cgroup_seed_id True) h2)))"

definition clone_workload :: "env \<Rightarrow> seed \<Rightarrow> string option \<Rightarrow> (history, int) io" where
  "clone_workload env s cgroup_path =
     io_bind (sys env (Proc (Clone (workload_clone_flags (us_map_rootless (sd_user s)) (net_enable (sd_net s)))))) (\<lambda>r.
     case r of
       RInt pid \<Rightarrow> io_return pid
     | _ \<Rightarrow>
         io_seq (io_when (cgroup_path \<noteq> None)
           (io_bind (io_attempt (cleanup_cgroup env (sm_id (sd_meta s)))) (\<lambda>_. io_return ())))
           (io_ctx ''Failed to clone isolated workload task'' (io_bail (os_error r))))"

text \<open>Before the clone: the records of the run, then the host-side resources.\<close>

definition record_start :: "runtime \<Rightarrow> env \<Rightarrow> seed \<Rightarrow> string \<Rightarrow> event_builder \<Rightarrow> (history, unit) io" where
  "record_start rt env s run_id events =
     io_seq (store_seed_manifest rt env s)
     (io_bind (now_rfc3339 env) (\<lambda>start_ts.
     io_seq (store env (CreateRun run_id (sm_id (sd_meta s)) start_ts))
     (io_seq (append_event env run_id (run_created events))
       (append_event env run_id (seed_loaded events)))))"

definition prepare_host :: "env \<Rightarrow> seed \<Rightarrow> (history, string option \<times> int \<times> int) io" where
  "prepare_host env s =
     io_bind (io_ctx ''Failed to prepare parent-side isolation resources'' (apply_parent env s)) (\<lambda>cgroup_path.
     io_bind (get_uid env) (\<lambda>parent_uid.
     io_bind (get_gid env) (\<lambda>parent_gid.
     io_seq (io_ctx ''Failed to create supervisor/child control socket'' (sys_unit env (Proc SocketPair)))
     (io_seq (set_cloexec env SupervisorEnd)
     (io_seq (set_cloexec env ChildEnd)
       (io_return (cgroup_path, parent_uid, parent_gid)))))))"

definition process_run :: "nat \<Rightarrow> runtime \<Rightarrow> env \<Rightarrow> seed \<Rightarrow> string \<Rightarrow> (history, int) io" where
  "process_run fuel rt env s run_id =
     (let events = \<lparr>eb_run_id = run_id, eb_seed_id = sm_id (sd_meta s)\<rparr> in
     io_bind (io_ctx ''Failed to capture supervisor namespace state before clone''
                (current_namespace_ids env)) (\<lambda>before.
     io_seq (record_start rt env s run_id events)
     (io_bind (prepare_host env s) (\<lambda>(cgroup_path, parent_uid, parent_gid).
     io_bind (clone_workload env s cgroup_path) (\<lambda>pid.
       supervise fuel rt env s run_id events pid parent_uid parent_gid cgroup_path before)))))"

end
