(* ===== verification/Runner_Safety.thy ===== *)
theory Runner_Safety
  imports Runner
begin

text \<open>
  What the runs of \<open>Runner\<close> guarantee: the evidence behind a recorded exit, the order of the host-side
  steps and the release of the child, the fate of the child, and the error paths. All of it holds
  for every environment: a hostile workload, kernel and store included.
\<close>

section \<open>Entries of the history\<close>

fun records :: "string \<Rightarrow> event_type \<Rightarrow> call \<times> reply \<Rightarrow> bool" where
  "records rid ty (StoreCall (AppendEvent r j), x) \<longleftrightarrow>
     r = rid \<and> x = ROk \<and> json_get ''event'' j = Some (JStr (event_type_name ty))"
| "records rid ty e \<longleftrightarrow> False"

fun exited_status :: "call \<times> reply \<Rightarrow> bool" where
  "exited_status (StoreCall (UpdateRunStatus rid (RunExited code) ts), x) = True"
| "exited_status e = False"

definition recorded :: "string \<Rightarrow> event_type \<Rightarrow> history \<Rightarrow> bool" where
  "recorded rid ty t \<longleftrightarrow> (\<exists>e \<in> set t. records rid ty e)"

lemma recorded_append [simp]: "recorded rid ty (s @ t) \<longleftrightarrow> recorded rid ty s \<or> recorded rid ty t"
  by (auto simp: recorded_def)

lemma recorded_mono: "recorded rid ty t \<Longrightarrow> set t \<subseteq> set u \<Longrightarrow> recorded rid ty u"
  by (auto simp: recorded_def)

lemma json_event_name: "json_get ''event'' (event_to_json show_ts e) = Some (JStr (event_type_name (ev_event e)))"
  by (simp add: event_json_fields)

lemma append_event_ok:
  "append_event env rid mk h = (Inr (), h') \<Longrightarrow>
     \<exists>r. h' = h @ [(UtcNow, r), (StoreCall (AppendEvent rid (event_json (mk (case r of RStr s \<Rightarrow> s | _ \<Rightarrow> [])))), ROk)]"
  by (auto simp: append_event_def now_rfc3339_def store_def io_bind_ok sys_ok sys_unit_ok)

lemma append_event_recorded:
  assumes "append_event env rid mk h = (Inr (), h')" "\<And>ts. ev_event (mk ts) = ty"
  shows "\<exists>t. h' = h @ t \<and> recorded rid ty t"
  using append_event_ok [OF assms(1)] assms(2) by (auto simp: recorded_def json_event_name)

lemma emits_append_event [emits_intros]:
  "(\<And>r. P (UtcNow, r)) \<Longrightarrow> (\<And>j r. P (StoreCall (AppendEvent rid j), r)) \<Longrightarrow> emits P (append_event env rid mk)"
  unfolding append_event_def by (intro emits_intros)

lemma emits_record_failed [emits_intros]:
  "(\<And>r. P (UtcNow, r)) \<Longrightarrow> (\<And>j r. P (StoreCall (AppendEvent rid j), r)) \<Longrightarrow>
   (\<And>ts r. P (StoreCall (UpdateRunStatus rid (RunFailed err) ts), r)) \<Longrightarrow>
     emits P (record_failed_run env rid events err)"
  unfolding record_failed_run_def by (intro emits_intros)

lemma builder_events [simp]:
  "ev_event (run_created b ts) = RunCreated" "ev_event (seed_loaded b ts) = SeedLoaded"
  "ev_event (ns_created b m ts) = NsCreated" "ev_event (idmap_applied b ts) = IdmapApplied"
  "ev_event (mount_done b m ts) = MountDone" "ev_event (caps_dropped b ts) = CapsDropped"
  "ev_event (seccomp_enabled b ts) = SeccompEnabled" "ev_event (process_start b p ts) = ProcessStart"
  "ev_event (process_exit b c ts) = ProcessExit" "ev_event (process_failed b m ts) = ProcessFailed"
  "ev_event (cgroup_applied b ts) = CgroupApplied"
  by (simp_all add: run_created_def seed_loaded_def ns_created_def idmap_applied_def mount_done_def
      caps_dropped_def seccomp_enabled_def process_start_def process_exit_def process_failed_def
      cgroup_applied_def build_def event_new_def with_msg_def with_code_def with_error_def with_level_def Let_def)

section \<open>The evidence loop\<close>

text \<open>What lies behind each flag of the evidence: a line of the child, and the records it caused.\<close>

definition heard :: "runtime \<Rightarrow> child_notice \<Rightarrow> history \<Rightarrow> bool" where
  "heard rt n t \<longleftrightarrow> (\<exists>line. (Ctl CtlReadLine, RStr line) \<in> set t \<and> rt_dec rt (trim_end line) = Inr n)"

definition ns_evidence :: "runtime \<Rightarrow> seed \<Rightarrow> string \<Rightarrow> namespace_ids \<Rightarrow> history \<Rightarrow> bool" where
  "ns_evidence rt s rid before t \<longleftrightarrow>
     (\<exists>ids. heard rt (CnNamespaceReady ids 1) t \<and>
        validate_workload_namespace_boundary before ids (us_map_rootless (sd_user s)) (net_enable (sd_net s)) 1 = Inr ()) \<and>
     recorded rid NsCreated t \<and> (us_map_rootless (sd_user s) \<longrightarrow> recorded rid IdmapApplied t)"

definition isolation_evidence :: "runtime \<Rightarrow> seed \<Rightarrow> string \<Rightarrow> history \<Rightarrow> bool" where
  "isolation_evidence rt s rid t \<longleftrightarrow> heard rt CnIsolationReady t \<and> recorded rid MountDone t \<and>
     (sec_drop_caps (sd_security s) \<noteq> [] \<longrightarrow> recorded rid CapsDropped t) \<and>
     (sec_seccomp_profile (sd_security s) \<noteq> None \<longrightarrow> recorded rid SeccompEnabled t)"

definition start_evidence :: "runtime \<Rightarrow> string \<Rightarrow> history \<Rightarrow> bool" where
  "start_evidence rt rid t \<longleftrightarrow> heard rt (CnProcessStart 1) t \<and> recorded rid ProcessStart t"

definition evidence_backed ::
    "runtime \<Rightarrow> seed \<Rightarrow> string \<Rightarrow> namespace_ids \<Rightarrow> evidence \<Rightarrow> history \<Rightarrow> bool" where
  "evidence_backed rt s rid before ev t \<longleftrightarrow>
     (saw_namespace ev \<longrightarrow> ns_evidence rt s rid before t) \<and>
     (saw_isolation ev \<longrightarrow> isolation_evidence rt s rid t) \<and>
     (saw_process_start ev \<longrightarrow> start_evidence rt rid t)"

lemma heard_mono: "heard rt n t \<Longrightarrow> set t \<subseteq> set u \<Longrightarrow> heard rt n u"
  by (auto simp: heard_def)

lemma evidence_backed_mono:
  "evidence_backed rt s rid before ev t \<Longrightarrow> set t \<subseteq> set u \<Longrightarrow> evidence_backed rt s rid before ev u"
  unfolding evidence_backed_def ns_evidence_def isolation_evidence_def start_evidence_def
  using heard_mono recorded_mono by meson

lemma boundary_spec:
  "validate_workload_namespace_boundary a b rootless net pid = Inr () \<longleftrightarrow>
     pid = 1 \<and> ni_pid a \<noteq> ni_pid b \<and> ni_uts a \<noteq> ni_uts b \<and> ni_ipc a \<noteq> ni_ipc b \<and> ni_mnt a \<noteq> ni_mnt b \<and>
     (ni_user a = ni_user b \<longleftrightarrow> \<not> rootless) \<and> (ni_net a = ni_net b \<longleftrightarrow> \<not> net)"
  by (auto simp: validate_workload_namespace_boundary_def)

lemma recorded_when:
  assumes "io_when c (append_event env rid mk) h = (Inr (), h')" "\<And>ts. ev_event (mk ts) = ty"
  shows "\<exists>t. h' = h @ t \<and> (c \<longrightarrow> recorded rid ty t)"
  using assms append_event_recorded [of env rid mk h h' ty] by (auto simp: io_when_def split: if_splits)

lemma namespace_notice_ok:
  assumes "handle_notice env s rid events before ev (CnNamespaceReady ids pid) h = (Inr (go_on, ev'), h')"
  shows "\<exists>t. h' = h @ t \<and> saw_isolation ev' = saw_isolation ev \<and> saw_process_start ev' = saw_process_start ev \<and>
    (saw_namespace ev' \<longrightarrow> saw_namespace ev \<or> pid = 1 \<and>
       validate_workload_namespace_boundary before ids (us_map_rootless (sd_user s)) (net_enable (sd_net s)) 1 = Inr () \<and>
       recorded rid NsCreated t \<and> (us_map_rootless (sd_user s) \<longrightarrow> recorded rid IdmapApplied t))"
proof (cases "validate_workload_namespace_boundary before ids (us_map_rootless (sd_user s)) (net_enable (sd_net s)) pid")
  case (Inl e)
  then show ?thesis using assms by (cases e) auto
next
  case (Inr u)
  then have pid: "pid = 1" using boundary_spec by simp
  with assms Inr obtain h1 where
    1: "append_event env rid (ns_created events (ns_message s ids 1)) h = (Inr (), h1)"
    "io_when (us_map_rootless (sd_user s)) (append_event env rid (idmap_applied events)) h1 = (Inr (), h')"
    "ev' = ev\<lparr>saw_namespace := True\<rparr>"
    by (auto simp: io_seq_ok)
  from append_event_recorded [OF 1(1), of NsCreated] obtain t1 where "h1 = h @ t1" "recorded rid NsCreated t1" by auto
  moreover from recorded_when [OF 1(2), of IdmapApplied] obtain t2 where "h' = h1 @ t2"
    "us_map_rootless (sd_user s) \<longrightarrow> recorded rid IdmapApplied t2" by auto
  ultimately show ?thesis using 1(3) Inr pid by (intro exI [of _ "t1 @ t2"]) auto
qed

lemma isolation_notice_ok:
  assumes "handle_notice env s rid events before ev CnIsolationReady h = (Inr (go_on, ev'), h')"
  shows "ev' = ev\<lparr>saw_isolation := True\<rparr> \<and> (\<exists>t. h' = h @ t \<and> recorded rid MountDone t \<and>
       (sec_drop_caps (sd_security s) \<noteq> [] \<longrightarrow> recorded rid CapsDropped t) \<and>
       (sec_seccomp_profile (sd_security s) \<noteq> None \<longrightarrow> recorded rid SeccompEnabled t))"
proof -
  let ?caps = "sec_drop_caps (sd_security s) \<noteq> []" and ?sec = "sec_seccomp_profile (sd_security s) \<noteq> None"
  from assms obtain h1 h2 where
    1: "append_event env rid (mount_done events ''Mounts configured'') h = (Inr (), h1)"
    "io_when ?caps (append_event env rid (caps_dropped events)) h1 = (Inr (), h2)"
    "io_when ?sec (append_event env rid (seccomp_enabled events)) h2 = (Inr (), h')"
    "ev' = ev\<lparr>saw_isolation := True\<rparr>"
    by (auto simp: io_seq_ok)
  from append_event_recorded [OF 1(1), of MountDone] obtain t1 where "h1 = h @ t1" "recorded rid MountDone t1" by auto
  moreover from recorded_when [OF 1(2), of CapsDropped] obtain t2 where "h2 = h1 @ t2" "?caps \<longrightarrow> recorded rid CapsDropped t2" by auto
  moreover from recorded_when [OF 1(3), of SeccompEnabled] obtain t3 where "h' = h2 @ t3" "?sec \<longrightarrow> recorded rid SeccompEnabled t3" by auto
  ultimately show ?thesis using 1(4) by (intro conjI exI [of _ "t1 @ t2 @ t3"]) auto
qed

lemma start_notice_ok:
  assumes "handle_notice env s rid events before ev (CnProcessStart pid) h = (Inr (go_on, ev'), h')"
  shows "\<exists>t. h' = h @ t \<and> (saw_process_start ev' \<longrightarrow> saw_process_start ev \<or> pid = 1 \<and> recorded rid ProcessStart t) \<and>
    saw_namespace ev' = saw_namespace ev \<and> saw_isolation ev' = saw_isolation ev"
proof (cases "pid = 1")
  case True
  with assms obtain h1 where "append_event env rid (process_start events 1) h = (Inr (), h')"
    and "ev' = ev\<lparr>saw_process_start := True\<rparr>" by (auto simp: io_seq_ok)
  with append_event_recorded [of env rid "process_start events 1" h h' ProcessStart] True show ?thesis by auto
qed (use assms in auto)

lemma handle_ok:
  assumes "handle_notice env s rid events before ev n h = (Inr (go_on, ev'), h')"
  shows "\<exists>t. h' = h @ t \<and>
    (saw_namespace ev' \<longrightarrow> saw_namespace ev \<or>
       (\<exists>ids. n = CnNamespaceReady ids 1 \<and>
          validate_workload_namespace_boundary before ids (us_map_rootless (sd_user s)) (net_enable (sd_net s)) 1 = Inr ()) \<and>
       recorded rid NsCreated t \<and> (us_map_rootless (sd_user s) \<longrightarrow> recorded rid IdmapApplied t)) \<and>
    (saw_isolation ev' \<longrightarrow> saw_isolation ev \<or> n = CnIsolationReady \<and> recorded rid MountDone t \<and>
       (sec_drop_caps (sd_security s) \<noteq> [] \<longrightarrow> recorded rid CapsDropped t) \<and>
       (sec_seccomp_profile (sd_security s) \<noteq> None \<longrightarrow> recorded rid SeccompEnabled t)) \<and>
    (saw_process_start ev' \<longrightarrow> saw_process_start ev \<or> n = CnProcessStart 1 \<and> recorded rid ProcessStart t)"
proof (cases n)
  case (CnNamespaceReady ids pid)
  with namespace_notice_ok [OF assms [unfolded CnNamespaceReady]] show ?thesis by auto
next
  case CnIsolationReady
  with isolation_notice_ok [OF assms [unfolded CnIsolationReady]] show ?thesis by auto
next
  case (CnProcessStart pid)
  with start_notice_ok [OF assms [unfolded CnProcessStart]] show ?thesis by auto
next
  case (CnFailed m)
  then show ?thesis using assms by auto
qed

lemma loop_backed:
  assumes "evidence_loop fuel rt env s rid events before ev h = (Inr ev', h')"
  shows "\<exists>t. h' = h @ t \<and> (\<forall>w. evidence_backed rt s rid before ev w \<longrightarrow> evidence_backed rt s rid before ev' (w @ t))"
  using assms
proof (induction fuel arbitrary: ev h)
  case (Suc fuel)
  from Suc.prems obtain r where rd: "env h (Ctl CtlReadLine) = r" "r \<noteq> RKilled" by (auto simp: io_bind_ok sys_ok)
  let ?h1 = "h @ [(Ctl CtlReadLine, r)]"
  have err: "\<exists>t. h' = h @ t \<and> (\<forall>w. evidence_backed rt s rid before ev w \<longrightarrow> evidence_backed rt s rid before ev' (w @ t))"
    if "ev' = ev \<or> (\<exists>m. ev' = ev\<lparr>protocol_error := m\<rparr>)" "h' = ?h1"
  proof -
    have same: "evidence_backed rt s rid before ev' w = evidence_backed rt s rid before ev w" for w
      using that(1) by (auto simp: evidence_backed_def)
    have "evidence_backed rt s rid before ev (w @ [(Ctl CtlReadLine, r)])" if "evidence_backed rt s rid before ev w" for w
      by (rule evidence_backed_mono [OF that]) auto
    with that(2) show ?thesis by (auto simp: same)
  qed
  show ?case
  proof (cases "\<exists>line n. r = RStr line \<and> line \<noteq> [] \<and> rt_dec rt (trim_end line) = Inr n")
    case False
    then show ?thesis using Suc.prems rd
      by (intro err) (auto simp: io_bind_ok sys_ok split: reply.splits if_splits sum.splits)
  next
    case True
    then obtain line n where line: "r = RStr line" "line \<noteq> []" "rt_dec rt (trim_end line) = Inr n" by blast
    with Suc.prems rd obtain go_on ev1 h2 where
      1: "handle_notice env s rid events before ev n ?h1 = (Inr (go_on, ev1), h2)"
      and 2: "(if go_on then evidence_loop fuel rt env s rid events before ev1 else io_return ev1) h2 = (Inr ev', h')"
      by (auto simp: io_bind_ok sys_ok)
    from handle_ok [OF 1] obtain t1 where t1: "h2 = ?h1 @ t1" and
      f: "saw_namespace ev1 \<longrightarrow> saw_namespace ev \<or>
       (\<exists>ids. n = CnNamespaceReady ids 1 \<and>
          validate_workload_namespace_boundary before ids (us_map_rootless (sd_user s)) (net_enable (sd_net s)) 1 = Inr ()) \<and>
       recorded rid NsCreated t1 \<and> (us_map_rootless (sd_user s) \<longrightarrow> recorded rid IdmapApplied t1)"
      "saw_isolation ev1 \<longrightarrow> saw_isolation ev \<or> n = CnIsolationReady \<and> recorded rid MountDone t1 \<and>
       (sec_drop_caps (sd_security s) \<noteq> [] \<longrightarrow> recorded rid CapsDropped t1) \<and>
       (sec_seccomp_profile (sd_security s) \<noteq> None \<longrightarrow> recorded rid SeccompEnabled t1)"
      "saw_process_start ev1 \<longrightarrow> saw_process_start ev \<or> n = CnProcessStart 1 \<and> recorded rid ProcessStart t1"
      by blast
    let ?t = "(Ctl CtlReadLine, r) # t1"
    have hd: "heard rt n (w @ ?t)" for w using line by (auto simp: heard_def)
    have step: "evidence_backed rt s rid before ev1 (w @ ?t)" if b: "evidence_backed rt s rid before ev w" for w
    proof -
      have m: "recorded rid ty t1 \<Longrightarrow> recorded rid ty (w @ ?t)" for ty by (auto simp: recorded_def)
      have b': "evidence_backed rt s rid before ev (w @ ?t)" by (rule evidence_backed_mono [OF b]) auto
      have "ns_evidence rt s rid before (w @ ?t)" if "saw_namespace ev1"
        using f(1) that b' m hd unfolding evidence_backed_def ns_evidence_def by meson
      moreover have "isolation_evidence rt s rid (w @ ?t)" if "saw_isolation ev1"
        using f(2) that b' m hd unfolding evidence_backed_def isolation_evidence_def by meson
      moreover have "start_evidence rt rid (w @ ?t)" if "saw_process_start ev1"
        using f(3) that b' m hd unfolding evidence_backed_def start_evidence_def by meson
      ultimately show ?thesis unfolding evidence_backed_def by blast
    qed
    show ?thesis
    proof (cases go_on)
      case False
      with 2 t1 step show ?thesis by (intro exI [of _ ?t]) auto
    next
      case True
      with 2 have "evidence_loop fuel rt env s rid events before ev1 h2 = (Inr ev', h')" by simp
      from Suc.IH [OF this] obtain t2 where t2: "h' = h2 @ t2"
        "\<forall>w. evidence_backed rt s rid before ev1 w \<longrightarrow> evidence_backed rt s rid before ev' (w @ t2)" by blast
      have "h' = h @ (?t @ t2)" using t1 t2(1) by simp
      moreover have "evidence_backed rt s rid before ev' (w @ ?t @ t2)" if "evidence_backed rt s rid before ev w" for w
        using t2(2) [rule_format, OF step [OF that]] by simp
      ultimately show ?thesis by blast
    qed
  qed
qed simp

text \<open>Every line read is a valid notice other than a failure report, or the end of the channel.\<close>

fun valid_notice :: "seed \<Rightarrow> namespace_ids \<Rightarrow> child_notice \<Rightarrow> bool" where
  "valid_notice s before (CnNamespaceReady ids pid) \<longleftrightarrow>
     validate_workload_namespace_boundary before ids (us_map_rootless (sd_user s)) (net_enable (sd_net s)) pid = Inr ()"
| "valid_notice s before CnIsolationReady \<longleftrightarrow> True"
| "valid_notice s before (CnProcessStart pid) \<longleftrightarrow> pid = 1"
| "valid_notice s before (CnFailed m) \<longleftrightarrow> False"

definition clean_channel :: "runtime \<Rightarrow> seed \<Rightarrow> namespace_ids \<Rightarrow> history \<Rightarrow> bool" where
  "clean_channel rt s before t \<longleftrightarrow> (\<forall>x. (Ctl CtlReadLine, x) \<in> set t \<longrightarrow>
     (\<exists>line. x = RStr line \<and> (line = [] \<or> (\<exists>n. rt_dec rt (trim_end line) = Inr n \<and> valid_notice s before n))))"

definition healthy :: "evidence \<Rightarrow> bool" where
  "healthy ev \<longleftrightarrow> protocol_error ev = None \<and> reported_failure ev = None"

lemma handle_healthy:
  assumes "handle_notice env s rid events before ev n h = (Inr (go_on, ev'), h')" "healthy ev'"
  shows "healthy ev \<and> valid_notice s before n \<and> (\<exists>t. h' = h @ t \<and> (\<forall>x. (Ctl CtlReadLine, x) \<notin> set t))"
proof -
  have e: "emits (\<lambda>e. \<forall>x. e \<noteq> (Ctl CtlReadLine, x)) (append_event env rid mk)" for mk
    unfolding append_event_def by (intro emits_intros; simp)
  have "emits (\<lambda>e. \<forall>x. e \<noteq> (Ctl CtlReadLine, x)) (handle_notice env s rid events before ev n)"
    by (cases n) (auto intro!: emits_intros e split: sum.splits error.splits)
  from emitsD [OF this assms(1)] have 1: "\<exists>t. h' = h @ t \<and> (\<forall>x. (Ctl CtlReadLine, x) \<notin> set t)" by blast
  have "healthy ev \<and> valid_notice s before n"
    using assms by (cases n)
      (auto simp: healthy_def io_seq_ok io_return_def io_lift_def split: sum.splits error.splits if_splits)
  with 1 show ?thesis by blast
qed

lemma loop_clean:
  assumes "evidence_loop fuel rt env s rid events before ev h = (Inr ev', h')" "healthy ev'"
  shows "healthy ev \<and> (\<exists>t. h' = h @ t \<and> clean_channel rt s before t)"
  using assms
proof (induction fuel arbitrary: ev h)
  case (Suc fuel)
  from Suc.prems(1) obtain r where rd: "env h (Ctl CtlReadLine) = r" "r \<noteq> RKilled" by (auto simp: io_bind_ok sys_ok)
  let ?h1 = "h @ [(Ctl CtlReadLine, r)]"
  show ?case
  proof (cases "\<exists>line n. r = RStr line \<and> line \<noteq> [] \<and> rt_dec rt (trim_end line) = Inr n")
    case False
    with Suc.prems rd show ?thesis
      by (auto simp: io_bind_ok sys_ok healthy_def clean_channel_def split: reply.splits if_splits sum.splits)
  next
    case True
    then obtain line n where line: "r = RStr line" "line \<noteq> []" "rt_dec rt (trim_end line) = Inr n" by blast
    with Suc.prems(1) rd obtain go_on ev1 h2 where
      1: "handle_notice env s rid events before ev n ?h1 = (Inr (go_on, ev1), h2)"
      and 2: "(if go_on then evidence_loop fuel rt env s rid events before ev1 else io_return ev1) h2 = (Inr ev', h')"
      by (auto simp: io_bind_ok sys_ok)
    have 3: "healthy ev1 \<and> (\<exists>t. h' = h2 @ t \<and> clean_channel rt s before t)"
      using 2 Suc.IH [of ev1 h2] Suc.prems(2) by (cases go_on) (auto simp: clean_channel_def)
    with handle_healthy [OF 1] obtain t1 t2 where "healthy ev" "valid_notice s before n"
      "h2 = ?h1 @ t1" "\<forall>x. (Ctl CtlReadLine, x) \<notin> set t1" "h' = h2 @ t2" "clean_channel rt s before t2" by blast
    with line show ?thesis
      by (intro conjI exI [of _ "(Ctl CtlReadLine, r) # t1 @ t2"]) (auto simp: clean_channel_def)
  qed
qed simp

section \<open>The calls of each phase\<close>

lemma emits_finally [emits_intros]: "emits P m \<Longrightarrow> emits P d \<Longrightarrow> emits P (io_finally m d)"
proof (rule emitsI)
  fix h r h'
  assume m: "emits P m" and d: "emits P d" and run: "io_finally m d h = (r, h')"
  obtain r1 h1 where 1: "m h = (r1, h1)" by fastforce
  obtain r2 h2 where 2: "d h1 = (r2, h2)" by fastforce
  have "h' = h1 \<or> h' = h2"
    using run 1 2 by (auto simp: io_finally_def split: sum.splits error.splits)
  then show "\<exists>t. h' = h @ t \<and> (\<forall>e \<in> set t. P e)"
    using emitsD [OF m 1] emitsD [OF d 2] by auto
qed

lemma finally_ok:
  "io_finally m d h = (Inr x, h') \<Longrightarrow> \<exists>h1. m h = (Inr x, h1) \<and> d h1 = (Inr (), h')"
  by (auto simp: io_finally_def split: prod.splits sum.splits error.splits)

lemma emits_wait [emits_intros]:
  "(\<And>r. P (Proc (WaitPid pid False), r)) \<Longrightarrow> emits P (wait_for_terminal fuel env pid)"
proof (induction fuel)
  case (Suc fuel)
  show ?case
    by (simp, rule emits_bind, rule emits_sys, rule Suc.prems)
      (auto intro!: emits_intros Suc split: reply.splits wait_status.splits)
qed (simp add: emits_lift)

lemma emits_terminate [emits_intros]: "(\<And>r. P (Proc (Kill pid sigkill), r)) \<Longrightarrow> emits P (terminate env pid)"
  unfolding terminate_def by (intro emits_intros)

lemma emits_drop [emits_intros]:
  assumes "\<And>b r. P (Proc (WaitPid pid b), r)" "\<And>r. P (Proc (Kill pid sigkill), r)" "\<And>c r. P (File c, r)"
  shows "emits P (drop_workload fuel env pid cg reaped)"
proof -
  have 1: "emits P (drop_reap fuel env pid)"
    unfolding drop_reap_def
    by (rule emits_bind, rule emits_sys, rule assms(1))
      (auto intro!: emits_intros assms split: reply.splits wait_status.splits)
  show ?thesis unfolding drop_workload_def by (intro emits_intros 1 assms)
qed

lemma emits_handle [emits_intros]:
  assumes "\<And>r. P (UtcNow, r)" "\<And>j r. P (StoreCall (AppendEvent rid j), r)"
  shows "emits P (handle_notice env s rid events before ev n)"
  by (cases n)
    (auto intro!: emits_intros assms split: sum.splits error.splits)

lemma emits_loop [emits_intros]:
  assumes "\<And>r. P (Ctl CtlReadLine, r)" "\<And>r. P (UtcNow, r)" "\<And>j r. P (StoreCall (AppendEvent rid j), r)"
  shows "emits P (evidence_loop fuel rt env s rid events before ev)"
proof (induction fuel arbitrary: ev)
  case (Suc fuel)
  show ?case
    unfolding evidence_loop.simps
    by (rule emits_bind, rule emits_sys, rule assms)
      (auto intro!: emits_intros assms Suc split: reply.splits sum.splits prod.splits if_splits)
qed (simp add: emits_lift)

lemma emits_gather [emits_intros]:
  assumes "\<And>r. P (Ctl CtlReadLine, r)" "\<And>r. P (UtcNow, r)" "\<And>j r. P (StoreCall (AppendEvent rid j), r)"
    "\<And>r. P (Proc (Kill pid sigkill), r)"
  shows "emits P (gather_evidence fuel rt env s rid events pid before)"
  unfolding gather_evidence_def by (intro emits_intros assms)

lemma emits_release [emits_intros]:
  assumes "\<And>f c r. P (File (WriteFile f c), r)" "\<And>r. P (UtcNow, r)" "\<And>j r. P (StoreCall (AppendEvent rid j), r)"
    "\<And>r. P (StoreCall (UpdateRunStatus rid RunRunning None), r)"
    "\<And>r. P (Ctl (CtlWrite [child_start_byte]), r)" "\<And>r. P (Ctl CtlShutdownWrite, r)"
  shows "emits P (release_workload env s rid events pid pu pg cg)"
  unfolding release_workload_def
  by (auto intro!: emits_intros assms split: sum.splits option.splits)

lemma emits_conclude [emits_intros]:
  assumes "\<And>p r. P (File (ReadLink p), r)" "\<And>r. P (UtcNow, r)" "\<And>c r. P (StoreCall c, r)"
  shows "emits P (conclude_run env rid events before ev st)"
  unfolding conclude_run_def Let_def
  by (auto intro!: emits_intros assms split: option.splits wait_status.splits)

lemma emits_abort [emits_intros]:
  assumes "\<And>c r. P (Ctl c, r)" "\<And>b r. P (Proc (WaitPid pid b), r)" "\<And>r. P (Proc (Kill pid sigkill), r)"
    "\<And>r. P (UtcNow, r)" "\<And>j r. P (StoreCall (AppendEvent rid j), r)"
    "\<And>ts r. P (StoreCall (UpdateRunStatus rid (RunFailed err) ts), r)" "\<And>c r. P (File c, r)"
  shows "emits P (abort_blocked_child fuel env rid events pid cg err)"
  unfolding abort_blocked_child_def
  by (auto intro!: emits_intros assms split: sum.splits)

text \<open>The three ways through \<open>supervise\<close>.\<close>

definition evidence_and_wait where
  "evidence_and_wait fuel rt env s rid events pid before =
     io_bind (gather_evidence fuel rt env s rid events pid before)
       (\<lambda>ev. io_bind (wait_for_terminal fuel env pid) (\<lambda>st. io_return (ev, st)))"

lemma supervise_cases:
  assumes "supervise fuel rt env s rid events pid pu pg cg before h = (r, h')"
  obtains
    (early) e h1 where "release_workload env s rid events pid pu pg cg h = (Inl e, h1)"
      "io_finally (io_lift (Inl e)) (drop_workload fuel env pid (map_option (\<lambda>_. sm_id (sd_meta s)) cg) False) h1 = (r, h')"
  | (aborted) err h1 where "release_workload env s rid events pid pu pg cg h = (Inr (Aborted err), h1)"
      "abort_blocked_child fuel env rid events pid (map_option (\<lambda>_. sm_id (sd_meta s)) cg) err h1 = (r, h')"
  | (failed) e h1 h2 where "release_workload env s rid events pid pu pg cg h = (Inr Released, h1)"
      "evidence_and_wait fuel rt env s rid events pid before h1 = (Inl e, h2)"
      "io_finally (io_lift (Inl e)) (drop_workload fuel env pid (map_option (\<lambda>_. sm_id (sd_meta s)) cg) False) h2 = (r, h')"
  | (concluded) ev st h1 h2 where "release_workload env s rid events pid pu pg cg h = (Inr Released, h1)"
      "evidence_and_wait fuel rt env s rid events pid before h1 = (Inr (ev, st), h2)"
      "io_finally (conclude_run env rid events before ev st)
        (drop_workload fuel env pid (map_option (\<lambda>_. sm_id (sd_meta s)) cg) True) h2 = (r, h')"
  using assms unfolding supervise_def Let_def evidence_and_wait_def [symmetric]
  by (auto split: prod.splits sum.splits release.splits)

lemma emits_evidence_and_wait [emits_intros]:
  assumes "\<And>r. P (Ctl CtlReadLine, r)" "\<And>r. P (UtcNow, r)" "\<And>j r. P (StoreCall (AppendEvent rid j), r)"
    "\<And>r. P (Proc (Kill pid sigkill), r)" "\<And>r. P (Proc (WaitPid pid False), r)"
  shows "emits P (evidence_and_wait fuel rt env s rid events pid before)"
  unfolding evidence_and_wait_def by (intro emits_intros assms)

lemma emits_supervise [emits_intros]:
  assumes "\<And>c r. P (File c, r)" "\<And>r. P (UtcNow, r)" "\<And>c r. P (StoreCall c, r)" "\<And>c r. P (Ctl c, r)"
    "\<And>b r. P (Proc (WaitPid pid b), r)" "\<And>r. P (Proc (Kill pid sigkill), r)"
  shows "emits P (supervise fuel rt env s rid events pid pu pg cg before)"
proof (rule emitsI)
  fix h r h'
  let ?d = "drop_workload fuel env pid (map_option (\<lambda>_. sm_id (sd_meta s)) cg)"
  have R: "emits P (release_workload env s rid events pid pu pg cg)"
    and E: "emits P (evidence_and_wait fuel rt env s rid events pid before)"
    and F: "emits P (io_finally (io_lift (Inl e :: int result)) (?d False))"
    and A: "emits P (abort_blocked_child fuel env rid events pid (map_option (\<lambda>_. sm_id (sd_meta s)) cg) err)"
    and C: "emits P (io_finally (conclude_run env rid events before ev st) (?d True))" for e err ev st
    by (intro emits_intros assms)+
  assume "supervise fuel rt env s rid events pid pu pg cg before h = (r, h')"
  then show "\<exists>t. h' = h @ t \<and> (\<forall>e \<in> set t. P e)"
  proof (cases rule: supervise_cases)
    case early
    from emitsD [OF R early(1)] emitsD [OF F early(2)] show ?thesis by auto
  next
    case aborted
    from emitsD [OF R aborted(1)] emitsD [OF A aborted(2)] show ?thesis by auto
  next
    case failed
    from emitsD [OF R failed(1)] emitsD [OF E failed(2)] emitsD [OF F failed(3)] show ?thesis by auto
  next
    case concluded
    from emitsD [OF R concluded(1)] emitsD [OF E concluded(2)] emitsD [OF C concluded(3)] show ?thesis by auto
  qed
qed

section \<open>A recorded exit has its evidence\<close>

lemma store_entry: "store env c h = (r, h') \<Longrightarrow> \<exists>x. h' = h @ [(StoreCall c, x)]"
  unfolding store_def by (cases r) (auto simp: sys_unit_ok dest: sys_unit_err)

text \<open>The end of a run that is recorded as exited.\<close>

lemma exited_stored:
  "requires exited_status (\<lambda>e u. \<exists>ts. fst e = StoreCall (UpdateRunStatus rid (RunExited code) ts))
     (io_seq (store env (UpdateRunStatus rid (RunExited code) (Some ts))) (io_return code))"
  unfolding requires_def
proof (intro allI impI)
  fix h r u e v
  assume "io_seq (store env (UpdateRunStatus rid (RunExited code) (Some ts))) (io_return code) h = (r, h @ u @ e # v)"
  then obtain r1 where "store env (UpdateRunStatus rid (RunExited code) (Some ts)) h = (r1, h @ u @ e # v)"
    by (auto simp: io_seq_cases)
  from store_entry [OF this] show "\<exists>ts. fst e = StoreCall (UpdateRunStatus rid (RunExited code) ts)"
    by (auto simp: append_eq_Cons_conv)
qed

lemma exited_after_event:
  "requires exited_status
     (\<lambda>e u. recorded rid ProcessExit u \<and> (\<exists>ts. fst e = StoreCall (UpdateRunStatus rid (RunExited code) ts)))
     (io_seq (append_event env rid (process_exit events code))
        (io_bind (now_rfc3339 env) (\<lambda>end_ts.
         io_seq (store env (UpdateRunStatus rid (RunExited code) (Some end_ts))) (io_return code))))"
proof (rule requires_seq [where P = "\<lambda>_. True"])
  fix h x t assume "append_event env rid (process_exit events code) h = (Inr x, h @ t)"
  then have rec: "recorded rid ProcessExit t"
    using append_event_recorded [of env rid "process_exit events code" h "h @ t" ProcessExit] by auto
  show "requires exited_status (\<lambda>e u. recorded rid ProcessExit (t @ u) \<and>
      (\<exists>ts. fst e = StoreCall (UpdateRunStatus rid (RunExited code) ts)))
    (io_bind (now_rfc3339 env) (\<lambda>end_ts.
        io_seq (store env (UpdateRunStatus rid (RunExited code) (Some end_ts))) (io_return code)))"
    by (rule requires_bind [where P = "\<lambda>_. True"], (intro emits_intros; simp)+)
      (rule requires_mono [OF exited_stored], simp add: rec)
qed (intro emits_intros; simp)+

lemma exited_in_conclude:
  "requires exited_status
     (\<lambda>e u. saw_namespace ev \<and> saw_isolation ev \<and> saw_process_start ev \<and> protocol_error ev = None \<and>
        reported_failure ev = None \<and> recorded rid ProcessExit u \<and>
        (\<exists>p code ts. st = Exited p code \<and> fst e = StoreCall (UpdateRunStatus rid (RunExited code) ts)))
     (conclude_run env rid events before ev st)"
proof -
  have failing: "requires exited_status R (io_seq (record_failed_run env rid events m) (io_return c))" for R m c
    by (rule requires_never) (intro emits_intros; simp)
  show ?thesis
    unfolding conclude_run_def Let_def
  proof (rule requires_bind [where P = "\<lambda>_. True"], goal_cases)
    case 1
    show ?case by (intro emits_intros) simp
  next
    case (2 x)
    show ?case by (auto intro!: emits_intros split: option.splits wait_status.splits)
  next
    case (3 h after t)
    show ?case
      by (auto intro!: failing requires_mono [OF exited_after_event] simp: or_else_def
          split: option.splits wait_status.splits)
  qed
qed

definition exit_evidence ::
    "runtime \<Rightarrow> seed \<Rightarrow> string \<Rightarrow> namespace_ids \<Rightarrow> int \<Rightarrow> call \<times> reply \<Rightarrow> history \<Rightarrow> bool" where
  "exit_evidence rt s rid before pid e u \<longleftrightarrow>
     ns_evidence rt s rid before u \<and> isolation_evidence rt s rid u \<and> start_evidence rt rid u \<and>
     clean_channel rt s before u \<and> recorded rid ProcessExit u \<and>
     (\<exists>p code ts. fst e = StoreCall (UpdateRunStatus rid (RunExited code) ts) \<and>
        (Proc (WaitPid pid False), RWait (Exited p code)) \<in> set u)"

lemma wait_ok:
  "wait_for_terminal fuel env pid h = (Inr st, h') \<Longrightarrow>
     \<exists>t. h' = h @ t \<and> (Proc (WaitPid pid False), RWait st) \<in> set t \<and>
       ((\<exists>p c. st = Exited p c) \<or> (\<exists>p sig. st = Signaled p sig))"
proof (induction fuel arbitrary: h)
  case (Suc fuel)
  then obtain r where r: "env h (Proc (WaitPid pid False)) = r" "r \<noteq> RKilled" by (auto simp: io_bind_ok sys_ok)
  from Suc.prems r have "(\<exists>p c. r = RWait (Exited p c) \<and> st = Exited p c \<and> h' = h @ [(Proc (WaitPid pid False), r)]) \<or>
      (\<exists>p g. r = RWait (Signaled p g) \<and> st = Signaled p g \<and> h' = h @ [(Proc (WaitPid pid False), r)]) \<or>
      wait_for_terminal fuel env pid (h @ [(Proc (WaitPid pid False), r)]) = (Inr st, h')"
    by (auto simp: io_bind_ok sys_ok split: reply.splits wait_status.splits)
  then show ?case using Suc.IH by fastforce
qed simp

lemma evidence_and_wait_ok:
  assumes "evidence_and_wait fuel rt env s rid events pid before h = (Inr (ev, st), h')"
  shows "\<exists>t. h' = h @ t \<and> evidence_backed rt s rid before ev t \<and>
    (healthy ev \<longrightarrow> clean_channel rt s before t) \<and> (Proc (WaitPid pid False), RWait st) \<in> set t \<and> (protocol_error ev \<noteq> None \<longrightarrow> (\<exists>x. (Proc (Kill pid sigkill), x) \<in> set t))"
proof -
  from assms obtain h1 h2 where
    1: "evidence_loop fuel rt env s rid events before no_evidence h = (Inr ev, h1)"
    and 2: "io_when (protocol_error ev \<noteq> None) (terminate env pid) h1 = (Inr (), h2)"
    and 3: "wait_for_terminal fuel env pid h2 = (Inr st, h')"
    by (auto simp: evidence_and_wait_def gather_evidence_def io_bind_ok io_seq_ok)
  from loop_backed [OF 1] obtain t1 where t1: "h1 = h @ t1"
    "\<And>w. evidence_backed rt s rid before no_evidence w \<longrightarrow> evidence_backed rt s rid before ev (w @ t1)"
    by blast
  have "evidence_backed rt s rid before no_evidence []"
    by (simp add: evidence_backed_def no_evidence_def)
  with t1(2) [of "[]"] have b1: "evidence_backed rt s rid before ev t1" by simp
  obtain t2 where t2: "h2 = h1 @ t2" "protocol_error ev \<noteq> None \<longrightarrow> (\<exists>x. (Proc (Kill pid sigkill), x) \<in> set t2)"
    using 2 by (auto simp: io_when_def terminate_def io_bind_ok sys_ok split: if_splits)
  from wait_ok [OF 3] obtain t3 where t3: "h' = h2 @ t3" "(Proc (WaitPid pid False), RWait st) \<in> set t3" by blast
  have "evidence_backed rt s rid before ev (t1 @ t2 @ t3)" by (rule evidence_backed_mono [OF b1]) auto
  moreover have "clean_channel rt s before (t1 @ t2 @ t3)" if "healthy ev"
  proof -
    have "clean_channel rt s before t1" using loop_clean [OF 1 that] t1(1) by auto
    moreover have "emits (\<lambda>e. \<forall>x. e \<noteq> (Ctl CtlReadLine, x)) (io_when (protocol_error ev \<noteq> None) (terminate env pid))"
      "emits (\<lambda>e. \<forall>x. e \<noteq> (Ctl CtlReadLine, x)) (wait_for_terminal fuel env pid)"
      by (intro emits_intros; simp)+
    from emitsD [OF this(1) 2] emitsD [OF this(2) 3] t2 t3
    have "\<forall>x. (Ctl CtlReadLine, x) \<notin> set t2 \<union> set t3" by auto
    ultimately show ?thesis by (auto simp: clean_channel_def)
  qed
  ultimately show ?thesis using t1(1) t2 t3 by (intro exI [of _ "t1 @ t2 @ t3"]) auto
qed

lemma entry_in_middle:
  assumes "u @ e # v = a @ b @ c" "\<forall>d \<in> set a. \<not> Q d" "\<forall>d \<in> set c. \<not> Q d" "Q e"
  shows "\<exists>w x. b = w @ e # x \<and> u = a @ w"
proof -
  have "e \<notin> set a" "e \<notin> set c" using assms by auto
  with assms(1) have "\<exists>w. u = a @ w \<and> w @ e # v = b @ c"
    by (auto simp: append_eq_append_conv2 append_eq_Cons_conv Cons_eq_append_conv)
  then obtain w where w: "u = a @ w" "w @ e # v = b @ c" by blast
  with \<open>e \<notin> set c\<close> show ?thesis
    by (auto simp: append_eq_append_conv2 append_eq_Cons_conv Cons_eq_append_conv)
qed

lemma no_entry: "u @ e # v = w \<Longrightarrow> \<forall>d \<in> set w. \<not> Q d \<Longrightarrow> \<not> Q e"
  by auto

lemma finally_run:
  assumes "emits P d" "io_finally m d h = (r, h')"
  shows "\<exists>r1 h1 t. m h = (r1, h1) \<and> h' = h1 @ t \<and> (\<forall>e \<in> set t. P e)"
proof -
  obtain r1 h1 where 1: "m h = (r1, h1)" by fastforce
  obtain r2 h2 where 2: "d h1 = (r2, h2)" by fastforce
  have "h' = h1 \<or> h' = h2" using assms(2) 1 2 by (auto simp: io_finally_def split: sum.splits error.splits)
  with 1 emitsD [OF assms(1) 2] show ?thesis by auto
qed

lemma exited_when_concluded:
  assumes R: "release_workload env s rid events pid pu pg cg h = (Inr Released, h1)"
    and E: "evidence_and_wait fuel rt env s rid events pid before h1 = (Inr (ev, st), h2)"
    and C: "io_finally (conclude_run env rid events before ev st)
       (drop_workload fuel env pid (map_option (\<lambda>_. sm_id (sd_meta s)) cg) True) h2 = (r, h @ u @ e # v)"
    and e: "exited_status e"
  shows "exit_evidence rt s rid before pid e u"
proof -
  let ?no = "\<lambda>e. \<not> exited_status e"
  have "emits ?no (release_workload env s rid events pid pu pg cg)" by (intro emits_intros; simp)
  from emitsD [OF this R] obtain t1 where t1: "h1 = h @ t1" "\<forall>d \<in> set t1. ?no d" by blast
  have "emits ?no (evidence_and_wait fuel rt env s rid events pid before)" by (intro emits_intros; simp)
  from emitsD [OF this E] obtain t2 where t2: "h2 = h1 @ t2" "\<forall>d \<in> set t2. ?no d" by blast
  have "emits ?no (drop_workload fuel env pid (map_option (\<lambda>_. sm_id (sd_meta s)) cg) True)" by (intro emits_intros; simp)
  from finally_run [OF this C] obtain r1 h3 t4 where
    c: "conclude_run env rid events before ev st h2 = (r1, h3)" and t4: "h @ u @ e # v = h3 @ t4" "\<forall>d \<in> set t4. ?no d" by blast
  have "emits (\<lambda>_. True) (conclude_run env rid events before ev st)" by (intro emits_intros; simp)
  from emits_grows [OF this c] obtain t3 where t3: "h3 = h2 @ t3" by blast
  have "u @ e # v = (t1 @ t2) @ t3 @ t4" using t1 t2 t3 t4 by simp
  from entry_in_middle [OF this _ t4(2) e] t1(2) t2(2) obtain w x where
    w: "t3 = w @ e # x" "u = (t1 @ t2) @ w" by auto
  from requiresD [OF exited_in_conclude, of env rid events before ev st h2 r1 w e x] c t3 w(1) e
  have 3: "saw_namespace ev \<and> saw_isolation ev \<and> saw_process_start ev \<and> recorded rid ProcessExit w" "healthy ev"
    "\<exists>p code ts. st = Exited p code \<and> fst e = StoreCall (UpdateRunStatus rid (RunExited code) ts)" by (auto simp: healthy_def)
  from evidence_and_wait_ok [OF E] t2(1) 3(2) have
    2: "evidence_backed rt s rid before ev t2" "(Proc (WaitPid pid False), RWait st) \<in> set t2"
    and cl: "clean_channel rt s before t2" by auto
  let ?n = "\<lambda>e. \<forall>x. e \<noteq> (Ctl CtlReadLine, x)"
  have "emits ?n (release_workload env s rid events pid pu pg cg)"
    "emits ?n (conclude_run env rid events before ev st)"
    by (intro emits_release emits_conclude; simp)+
  from emitsD [OF this(1) R] emitsD [OF this(2) c] t1(1) t3 w
  have "\<forall>x. (Ctl CtlReadLine, x) \<notin> set t1 \<union> set w" by auto
  then have "clean_channel rt s before u" using cl w(2) by (auto simp: clean_channel_def)
  moreover have "evidence_backed rt s rid before ev u" by (rule evidence_backed_mono [OF 2(1)]) (auto simp: w)
  ultimately show ?thesis using 3 2(2) w(2) unfolding exit_evidence_def evidence_backed_def by auto
qed

lemma exited_in_supervise:
  "requires exited_status (exit_evidence rt s rid before pid)
     (supervise fuel rt env s rid events pid pu pg cg before)"
  unfolding requires_def
proof (intro allI impI)
  fix h r u e v
  let ?no = "\<lambda>e. \<not> exited_status e"
  let ?d = "drop_workload fuel env pid (map_option (\<lambda>_. sm_id (sd_meta s)) cg)"
  have R: "emits ?no (release_workload env s rid events pid pu pg cg)"
    and E: "emits ?no (evidence_and_wait fuel rt env s rid events pid before)"
    and F: "emits ?no (io_finally (io_lift (Inl x :: int result)) (?d False))"
    and A: "emits ?no (abort_blocked_child fuel env rid events pid (map_option (\<lambda>_. sm_id (sd_meta s)) cg) err)" for x err
    by (intro emits_intros; simp)+
  assume run: "supervise fuel rt env s rid events pid pu pg cg before h = (r, h @ u @ e # v)" and e: "exited_status e"
  from run show "exit_evidence rt s rid before pid e u"
  proof (cases rule: supervise_cases)
    case (early x h1)
    obtain a where "h1 = h @ a" "\<forall>d \<in> set a. ?no d" using emitsD [OF R early(1)] by blast
    moreover obtain b where "h @ u @ e # v = h1 @ b" "\<forall>d \<in> set b. ?no d" using emitsD [OF F early(2)] by blast
    ultimately show ?thesis using no_entry [of u e v "a @ b" exited_status] e by auto
  next
    case (aborted err h1)
    obtain a where "h1 = h @ a" "\<forall>d \<in> set a. ?no d" using emitsD [OF R aborted(1)] by blast
    moreover obtain b where "h @ u @ e # v = h1 @ b" "\<forall>d \<in> set b. ?no d" using emitsD [OF A aborted(2)] by blast
    ultimately show ?thesis using no_entry [of u e v "a @ b" exited_status] e by auto
  next
    case (failed x h1 h2)
    obtain a where "h1 = h @ a" "\<forall>d \<in> set a. ?no d" using emitsD [OF R failed(1)] by blast
    moreover obtain b where "h2 = h1 @ b" "\<forall>d \<in> set b. ?no d" using emitsD [OF E failed(2)] by blast
    moreover obtain c where "h @ u @ e # v = h2 @ c" "\<forall>d \<in> set c. ?no d" using emitsD [OF F failed(3)] by blast
    ultimately show ?thesis using no_entry [of u e v "a @ b @ c" exited_status] e by auto
  next
    case (concluded ev st h1 h2)
    from exited_when_concluded [OF this e] show ?thesis .
  qed
qed

lemma emits_clone [emits_intros]:
  assumes "\<And>fl r. P (Proc (Clone fl), r)" "\<And>c r. P (File c, r)"
  shows "emits P (clone_workload env s cg)"
  unfolding clone_workload_def
  by (rule emits_bind, rule emits_sys, rule assms) (auto intro!: emits_intros assms split: reply.splits)

lemma emits_store_manifest [emits_intros]:
  "(\<And>r. P (UtcNow, r)) \<Longrightarrow> (\<And>sr r. P (StoreCall (UpsertSeed sr), r)) \<Longrightarrow> emits P (store_seed_manifest rt env s)"
  unfolding store_seed_manifest_def by (intro emits_intros)

lemma emits_cloexec [emits_intros]: "(\<And>r. P (Proc (SetCloexec e), r)) \<Longrightarrow> emits P (set_cloexec env e)"
  unfolding set_cloexec_def by (intro emits_intros)

lemma emits_ids [emits_intros]:
  "(\<And>r. P (Task GetUid, r)) \<Longrightarrow> emits P (get_uid env)" "(\<And>r. P (Task GetGid, r)) \<Longrightarrow> emits P (get_gid env)"
  unfolding get_uid_def get_gid_def by (intro emits_intros; simp)+

lemma clone_ok: "clone_workload env s cg h = (Inr pid, h') \<Longrightarrow>
    h' = h @ [(Proc (Clone (workload_clone_flags (us_map_rootless (sd_user s)) (net_enable (sd_net s)))), RInt pid)]"
  by (auto simp: clone_workload_def io_bind_ok io_seq_ok sys_ok split: reply.splits)

lemma emits_record_start [emits_intros]:
  assumes "\<And>r. P (UtcNow, r)" "\<And>sr r. P (StoreCall (UpsertSeed sr), r)"
    "\<And>a b c r. P (StoreCall (CreateRun a b c), r)" "\<And>j r. P (StoreCall (AppendEvent rid j), r)"
  shows "emits P (record_start rt env s rid events)"
  unfolding record_start_def by (intro emits_intros assms)

lemma emits_prepare_host [emits_intros]:
  assumes "\<And>c r. P (File c, r)" "\<And>r. P (Task GetUid, r)" "\<And>r. P (Task GetGid, r)"
    "\<And>r. P (Proc SocketPair, r)" "\<And>e r. P (Proc (SetCloexec e), r)"
  shows "emits P (prepare_host env s)"
  unfolding prepare_host_def by (intro emits_intros assms)

lemma prepare_host_ok:
  "prepare_host env s h = (Inr (cg, pu, pg), h') \<Longrightarrow>
     cg = (if cgroups_requested s then Some (get_cgroup_path (sm_id (sd_meta s))) else None)"
  by (auto simp: prepare_host_def io_bind_ok io_seq_ok dest: apply_parent_path)

lemma emits_run: "emits (\<lambda>_. True) (process_run fuel rt env s rid)"
  unfolding process_run_def Let_def by (auto intro!: emits_intros split: prod.splits)

text \<open>A run is its supervised part, after entries that are none of \<open>Q\<close>.\<close>

text \<open>The tails of a run after the capture of the namespaces, after the start is recorded, after the host is
  prepared.\<close>

definition run_cloned :: "nat \<Rightarrow> runtime \<Rightarrow> env \<Rightarrow> seed \<Rightarrow> string \<Rightarrow> namespace_ids \<Rightarrow> string option \<times> int \<times> int \<Rightarrow> (history, int) io" where
  "run_cloned fuel rt env s rid before = (\<lambda>(cg, pu, pg). io_bind (clone_workload env s cg) (\<lambda>pid.
     supervise fuel rt env s rid \<lparr>eb_run_id = rid, eb_seed_id = sm_id (sd_meta s)\<rparr> pid pu pg cg before))"

definition run_prepared :: "nat \<Rightarrow> runtime \<Rightarrow> env \<Rightarrow> seed \<Rightarrow> string \<Rightarrow> namespace_ids \<Rightarrow> (history, int) io" where
  "run_prepared fuel rt env s rid before = io_bind (prepare_host env s) (run_cloned fuel rt env s rid before)"

definition run_started :: "nat \<Rightarrow> runtime \<Rightarrow> env \<Rightarrow> seed \<Rightarrow> string \<Rightarrow> namespace_ids \<Rightarrow> (history, int) io" where
  "run_started fuel rt env s rid before =
     io_seq (record_start rt env s rid \<lparr>eb_run_id = rid, eb_seed_id = sm_id (sd_meta s)\<rparr>) (run_prepared fuel rt env s rid before)"

lemma run_stages:
  "process_run fuel rt env s rid =
     io_bind (io_ctx ''Failed to capture supervisor namespace state before clone'' (current_namespace_ids env))
       (run_started fuel rt env s rid)"
  by (simp add: process_run_def Let_def run_started_def [abs_def] run_prepared_def run_cloned_def [abs_def])

lemma any_supervise: "emits (\<lambda>_. True) (supervise fuel rt env s rid events pid pu pg cg before)"
  and any_cloned: "emits (\<lambda>_. True) (run_cloned fuel rt env s rid before x)"
  and any_prepared: "emits (\<lambda>_. True) (run_prepared fuel rt env s rid before)"
  and any_started: "emits (\<lambda>_. True) (run_started fuel rt env s rid before)"
proof -
  show S: "emits (\<lambda>_. True) (supervise fuel rt env s rid events pid pu pg cg before)" for events pid pu pg cg
    by (intro emits_intros; simp)
  show C: "emits (\<lambda>_. True) (run_cloned fuel rt env s rid before x)" for x
    unfolding run_cloned_def by (cases x) (simp, intro emits_bind S emits_intros; simp)
  show P: "emits (\<lambda>_. True) (run_prepared fuel rt env s rid before)"
    unfolding run_prepared_def by (intro emits_bind C emits_intros; simp)
  show "emits (\<lambda>_. True) (run_started fuel rt env s rid before)"
    unfolding run_started_def by (intro emits_seq P emits_intros; simp)
qed

lemma cloned_requires:
  assumes Q: "emits (\<lambda>e. \<not> Q e) (clone_workload env s cg)"
    and w: "\<forall>c x. (Ctl c, x) \<notin> set w" "links_reported before w"
    and cg: "cg = (if cgroups_requested s then Some (get_cgroup_path (sm_id (sd_meta s))) else None)"
    and S: "\<And>before pid pu pg cg w. \<forall>c x. (Ctl c, x) \<notin> set w \<Longrightarrow> links_reported before w \<Longrightarrow> (\<exists>fl. (Proc (Clone fl), RInt pid) \<in> set w) \<Longrightarrow>
      cg = (if cgroups_requested s then Some (get_cgroup_path (sm_id (sd_meta s))) else None) \<Longrightarrow>
      requires Q (\<lambda>e u. R e (w @ u))
        (supervise fuel rt env s rid \<lparr>eb_run_id = rid, eb_seed_id = sm_id (sd_meta s)\<rparr> pid pu pg cg before)"
  shows "requires Q (\<lambda>e u. R e (w @ u)) (run_cloned fuel rt env s rid before (cg, pu, pg))"
  unfolding run_cloned_def prod.case
proof (rule requires_bind [OF Q any_supervise])
  fix h pid t assume cl: "clone_workload env s cg h = (Inr pid, h @ t)"
  from clone_ok [OF this] have "\<exists>fl. (Proc (Clone fl), RInt pid) \<in> set (w @ t)" "\<forall>c x. (Ctl c, x) \<notin> set (w @ t)"
    using w(1) by auto
  moreover have "links_reported before (w @ t)" using w(2) by (auto simp: links_reported_def)
  ultimately have "requires Q (\<lambda>e u. R e ((w @ t) @ u))
      (supervise fuel rt env s rid \<lparr>eb_run_id = rid, eb_seed_id = sm_id (sd_meta s)\<rparr> pid pu pg cg before)"
    using cg by (intro S)
  then show "requires Q (\<lambda>e u. R e (w @ t @ u))
      (supervise fuel rt env s rid \<lparr>eb_run_id = rid, eb_seed_id = sm_id (sd_meta s)\<rparr> pid pu pg cg before)"
    by (simp only: append_assoc)
qed

lemma run_requires:
  assumes Q: "emits (\<lambda>e. \<not> Q e) (current_namespace_ids env)"
    "\<And>events. emits (\<lambda>e. \<not> Q e) (record_start rt env s rid events)"
    "emits (\<lambda>e. \<not> Q e) (prepare_host env s)" "\<And>cg. emits (\<lambda>e. \<not> Q e) (clone_workload env s cg)"
    and S: "\<And>before pid pu pg cg w. \<forall>c x. (Ctl c, x) \<notin> set w \<Longrightarrow> links_reported before w \<Longrightarrow> (\<exists>fl. (Proc (Clone fl), RInt pid) \<in> set w) \<Longrightarrow>
      cg = (if cgroups_requested s then Some (get_cgroup_path (sm_id (sd_meta s))) else None) \<Longrightarrow>
      requires Q (\<lambda>e u. R e (w @ u))
        (supervise fuel rt env s rid \<lparr>eb_run_id = rid, eb_seed_id = sm_id (sd_meta s)\<rparr> pid pu pg cg before)"
  shows "requires Q R (process_run fuel rt env s rid)"
proof -
  let ?n = "\<lambda>e :: call \<times> reply. \<forall>c x. e \<noteq> (Ctl c, x)"
  have n: "emits ?n (io_ctx c (current_namespace_ids env))" "emits ?n (record_start rt env s rid events)"
    "emits ?n (prepare_host env s)" for c events
    by (intro emits_intros; simp)+
  show ?thesis
    unfolding run_stages
  proof (rule requires_bind [OF emits_ctx [OF Q(1)] any_started])
    fix h before t1
    assume i: "io_ctx ''Failed to capture supervisor namespace state before clone'' (current_namespace_ids env) h =
        (Inr before, h @ t1)"
    show "requires Q (\<lambda>e u. R e (t1 @ u)) (run_started fuel rt env s rid before)"
      unfolding run_started_def
    proof (rule requires_seq [OF Q(2) any_prepared])
      fix h x t2
      assume rs: "record_start rt env s rid \<lparr>eb_run_id = rid, eb_seed_id = sm_id (sd_meta s)\<rparr> h = (Inr x, h @ t2)"
      show "requires Q (\<lambda>e u. R e (t1 @ t2 @ u)) (run_prepared fuel rt env s rid before)"
        unfolding run_prepared_def
      proof (rule requires_bind [OF Q(3) any_cloned])
        fix h x t3 assume p: "prepare_host env s h = (Inr x, h @ t3)"
        obtain cg pu pg where x: "x = (cg, pu, pg)" by (cases x) auto
        have l: "links_reported before (t1 @ t2 @ t3)"
          using i current_ids_ok [of env _ before] by (fastforce simp: links_reported_def)
        have "\<forall>c x. (Ctl c, x) \<notin> set (t1 @ t2 @ t3)"
          using emitsD [OF n(1) i] emitsD [OF n(2) rs] emitsD [OF n(3) p] by auto
        from cloned_requires [OF Q(4) this l prepare_host_ok [OF p [unfolded x]] S] x
        show "requires Q (\<lambda>e u. R e (t1 @ t2 @ t3 @ u)) (run_cloned fuel rt env s rid before x)"
          by simp
      qed
    qed
  qed
qed

text \<open>C2: A run is recorded as exited only with complete evidence: the supervisor has read the three
  notices from the child and nothing invalid, the reported namespaces differ from its own exactly as the manifest
  asks and the workload is PID 1 of its namespace, every event of the isolation the manifest asks
  for was accepted by the store before, and \<open>waitpid\<close> reported the cloned task to have exited with
  the recorded code. This holds for any child, kernel and store.\<close>
theorem exited_status_has_evidence:
  assumes "process_run fuel rt env s rid h = (r, h @ u @ (StoreCall (UpdateRunStatus q (RunExited code) ts), x) # v)"
  shows "q = rid \<and> (\<exists>before pid p fl. links_reported before u \<and>
    ns_evidence rt s rid before u \<and> isolation_evidence rt s rid u \<and> start_evidence rt rid u \<and>
    clean_channel rt s before u \<and> recorded rid ProcessExit u \<and> (Proc (Clone fl), RInt pid) \<in> set u \<and>
    (Proc (WaitPid pid False), RWait (Exited p code)) \<in> set u)"
proof -
  let ?R = "\<lambda>e u. \<exists>before pid fl. links_reported before u \<and> exit_evidence rt s rid before pid e u \<and>
      (Proc (Clone fl), RInt pid) \<in> set u"
  have "requires exited_status ?R (process_run fuel rt env s rid)"
  proof (rule run_requires)
    fix before :: namespace_ids and pid pu pg cg w
    assume n: "\<forall>c x. (Ctl c, x) \<notin> set w" and l: "links_reported before w" and c: "\<exists>fl. (Proc (Clone fl), RInt pid) \<in> set w"
    show "requires exited_status (\<lambda>e u. ?R e (w @ u))
        (supervise fuel rt env s rid \<lparr>eb_run_id = rid, eb_seed_id = sm_id (sd_meta s)\<rparr> pid pu pg cg before)"
    proof (rule requires_mono [OF exited_in_supervise])
      fix e u assume ev: "exit_evidence rt s rid before pid e u"
      have "evidence_backed rt s rid before \<lparr>saw_namespace = True, saw_isolation = True,
          saw_process_start = True, reported_failure = None, protocol_error = None\<rparr> (w @ u)"
        by (rule evidence_backed_mono [of _ _ _ _ _ u])
          (use ev in \<open>auto simp: evidence_backed_def exit_evidence_def\<close>)
      moreover have "clean_channel rt s before (w @ u)"
        using ev n by (auto simp: exit_evidence_def clean_channel_def)
      ultimately have "exit_evidence rt s rid before pid e (w @ u)"
        using ev by (auto simp: evidence_backed_def exit_evidence_def)
      with l c show "?R e (w @ u)" unfolding links_reported_def by auto
    qed
  qed (intro emits_intros; simp)+
  from requiresD [OF this assms] show ?thesis by (auto simp: exit_evidence_def)
qed

end
