(* ===== verification/Runner_Release.thy ===== *)
theory Runner_Release
  imports Runner_Safety
begin

text \<open>
  The host side of a run: what precedes the release of the blocked child, and what has become of the
  child whenever a run returns.
\<close>

section \<open>Before the release\<close>

fun is_ctl_write :: "call \<times> reply \<Rightarrow> bool" where
  "is_ctl_write (Ctl (CtlWrite t), x) = True"
| "is_ctl_write e = False"

definition map_steps :: "seed \<Rightarrow> int \<Rightarrow> int \<Rightarrow> int \<Rightarrow> (call \<times> reply \<Rightarrow> bool) list" where
  "map_steps s pid pu pg =
     (let dir = ''/proc/'' @ show_int pid in
      if us_map_rootless (sd_user s) then
        [\<lambda>e. e = (File (WriteFile (dir @ ''/setgroups'') ''deny''), ROk),
         \<lambda>e. e = (File (WriteFile (dir @ ''/uid_map'')
               (show_word (us_uid (sd_user s)) @ '' '' @ show_int pu @ '' 1'' @ [CHR 0x0A])), ROk),
         \<lambda>e. e = (File (WriteFile (dir @ ''/gid_map'')
               (show_word (us_gid (sd_user s)) @ '' '' @ show_int pg @ '' 1'' @ [CHR 0x0A])), ROk)]
      else [])"

definition move_steps :: "int \<Rightarrow> string option \<Rightarrow> (call \<times> reply \<Rightarrow> bool) list" where
  "move_steps pid cg =
     (case cg of
        None \<Rightarrow> []
      | Some path \<Rightarrow>
          [\<lambda>e. e = (File (WriteFile (path_join path ''cgroup.procs'') (show_int pid @ [CHR 0x0A])), ROk)])"

definition cgroup_event_steps :: "string \<Rightarrow> string option \<Rightarrow> (call \<times> reply \<Rightarrow> bool) list" where
  "cgroup_event_steps rid cg = (if cg = None then [] else [records rid CgroupApplied])"

definition running_recorded :: "string \<Rightarrow> call \<times> reply \<Rightarrow> bool" where
  "running_recorded rid e \<longleftrightarrow> e = (StoreCall (UpdateRunStatus rid RunRunning None), ROk)"

definition release_steps :: "seed \<Rightarrow> string \<Rightarrow> int \<Rightarrow> int \<Rightarrow> int \<Rightarrow> string option \<Rightarrow> (call \<times> reply \<Rightarrow> bool) list" where
  "release_steps s rid pid pu pg cg =
     map_steps s pid pu pg @ move_steps pid cg @ cgroup_event_steps rid cg @ [running_recorded rid]"

lemma attempt_map_ok:
  assumes "(if us_map_rootless (sd_user s) then io_attempt (map_child_from_parent env pid (sd_user s) pu pg)
            else io_return (Inr ())) h = (Inr (Inr x), h @ t)"
  shows "has_in_order (map_steps s pid pu pg) t"
proof (cases "us_map_rootless (sd_user s)")
  case True
  with assms have "map_child_from_parent env pid (sd_user s) pu pg h = (Inr x, h @ t)" by (simp add: io_attempt_ok)
  from mustD [OF must_map_child this] show ?thesis by (simp add: map_steps_def True Let_def)
qed (simp add: map_steps_def)

lemma attempt_move_ok:
  assumes "(case cg of Some path \<Rightarrow> io_attempt (move_pid_to_path env path pid)
             | None \<Rightarrow> io_return (Inr ())) h = (Inr (Inr x), h @ t)"
  shows "has_in_order (move_steps pid cg) t"
  using assms by (cases cg) (auto simp: move_steps_def io_attempt_ok move_pid_ok)

lemma has_in_order_single: "has_in_order [k] t \<longleftrightarrow> (\<exists>e \<in> set t. k e)"
  by (induction t) auto

lemma cgroup_event_ok:
  assumes "io_when (cg \<noteq> None) (append_event env rid (cgroup_applied events)) h = (Inr x, h @ t)"
  shows "has_in_order (cgroup_event_steps rid cg) t"
proof (cases cg)
  case (Some path)
  have "append_event env rid (cgroup_applied events) h = (Inr (), h @ t)"
    using assms by (simp add: Some io_when_def)
  from append_event_recorded [OF this, of CgroupApplied] have "recorded rid CgroupApplied t" by auto
  then show ?thesis by (simp add: Some cgroup_event_steps_def has_in_order_single recorded_def)
qed (simp add: cgroup_event_steps_def)

text \<open>The steps still to come before the write, given those already seen.\<close>

lemma releases_later:
  assumes "requires Q (\<lambda>e u. has_in_order ls u \<and> P e) m" "has_in_order ks t"
  shows "requires Q (\<lambda>e u. has_in_order (ks @ ls) (t @ u) \<and> P e) m"
  by (rule requires_mono [OF assms(1)]) (use assms(2) has_in_order_append in auto)

text \<open>The release itself: the start byte, then the end of the writing side.\<close>

definition write_start :: "env \<Rightarrow> (history, release) io" where
  "write_start env = io_bind (io_attempt (sys_unit env (Ctl (CtlWrite [child_start_byte])))) (\<lambda>released.
     case released of
       Inl ms \<Rightarrow> io_return (Aborted (''Failed to release isolated workload: '' @ render ms))
     | Inr _ \<Rightarrow>
         io_seq (io_ctx ''Failed to close supervisor control write side'' (sys_unit env (Ctl CtlShutdownWrite)))
           (io_return Released))"

lemma any_write_start: "emits (\<lambda>_. True) (write_start env)"
  unfolding write_start_def by (auto intro!: emits_intros split: sum.splits)

lemma write_start_requires:
  "requires is_ctl_write (\<lambda>e u. has_in_order [running_recorded rid] u \<and> fst e = Ctl (CtlWrite [child_start_byte]))
     (io_seq (store env (UpdateRunStatus rid RunRunning None)) (write_start env))"
proof (rule requires_seq [OF _ any_write_start])
  have "emits (\<lambda>e. is_ctl_write e \<longrightarrow> fst e = Ctl (CtlWrite [child_start_byte])) (write_start env)"
    unfolding write_start_def by (auto intro!: emits_intros split: sum.splits)
  then have 1: "requires is_ctl_write (\<lambda>e u. has_in_order [] u \<and> fst e = Ctl (CtlWrite [child_start_byte])) (write_start env)"
    unfolding requires_def using emitsD by fastforce
  fix h x t assume "store env (UpdateRunStatus rid RunRunning None) h = (Inr x, h @ t)"
  then have "has_in_order [running_recorded rid] t" by (auto simp: store_def sys_unit_ok running_recorded_def)
  from releases_later [OF 1 this]
  show "requires is_ctl_write (\<lambda>e u. has_in_order [running_recorded rid] (t @ u) \<and>
      fst e = Ctl (CtlWrite [child_start_byte])) (write_start env)" by simp
qed (intro emits_intros; simp)

lemma write_in_release:
  "requires is_ctl_write (\<lambda>e u. has_in_order (release_steps s rid pid pu pg cg) u \<and> fst e = Ctl (CtlWrite [child_start_byte]))
     (release_workload env s rid events pid pu pg cg)"
proof -
  let ?any = "\<lambda>_ :: call \<times> reply. True"
  let ?R = "\<lambda>ks e u. has_in_order ks u \<and> fst e = Ctl (CtlWrite [child_start_byte])"
  let ?status = "io_seq (store env (UpdateRunStatus rid RunRunning None)) (write_start env)"
  let ?event = "io_seq (io_when (cg \<noteq> None) (append_event env rid (cgroup_applied events))) ?status"
  let ?moved = "\<lambda>moved :: string list + unit. case moved of
       Inl ms \<Rightarrow> io_return (Aborted (''Failed to move workload into prepared cgroup: '' @ render ms)) | Inr _ \<Rightarrow> ?event"
  let ?move = "io_bind (case cg of Some path \<Rightarrow> io_attempt (move_pid_to_path env path pid)
              | None \<Rightarrow> io_return (Inr ())) ?moved"
  let ?mapped = "\<lambda>mapped :: string list + unit. case mapped of
       Inl ms \<Rightarrow> io_return (Aborted (''Failed to install rootless UID/GID mapping: '' @ render ms)) | Inr _ \<Rightarrow> ?move"
  have e2: "emits ?any ?status" and e3: "emits ?any ?event"
    by (intro emits_seq any_write_start emits_intros; simp)+
  have e4: "emits ?any (?moved m)" for m using e3 by (cases m) (auto intro: emits_intros)
  have e5: "emits ?any ?move" by (auto intro!: emits_intros e4 any_write_start split: option.splits)
  have e6: "emits ?any (?mapped m)" for m using e5 by (cases m) (auto intro: emits_intros)
  have 3: "requires is_ctl_write (?R (cgroup_event_steps rid cg @ [running_recorded rid])) ?event"
    by (rule requires_seq [OF _ e2], (intro emits_intros; simp), rule releases_later [OF write_start_requires],
      rule cgroup_event_ok)
  have 4: "requires is_ctl_write (?R (move_steps pid cg @ cgroup_event_steps rid cg @ [running_recorded rid])) ?move"
  proof (rule requires_bind [OF _ e4])
    fix h x t
    assume "(case cg of Some path \<Rightarrow> io_attempt (move_pid_to_path env path pid)
              | None \<Rightarrow> io_return (Inr ())) h = (Inr x, h @ t)"
    then show "requires is_ctl_write (\<lambda>e u. ?R (move_steps pid cg @ cgroup_event_steps rid cg @ [running_recorded rid])
        e (t @ u)) (?moved x)"
      using releases_later [OF 3 attempt_move_ok] by (cases x) (auto intro!: requires_never emits_intros)
  qed (auto intro!: emits_intros split: option.splits)
  show ?thesis
    unfolding release_workload_def release_steps_def write_start_def [symmetric]
  proof (rule requires_bind [OF _ e6])
    fix h x t
    assume "(if us_map_rootless (sd_user s) then io_attempt (map_child_from_parent env pid (sd_user s) pu pg)
            else io_return (Inr ())) h = (Inr x, h @ t)"
    then show "requires is_ctl_write (\<lambda>e u. ?R (map_steps s pid pu pg @ move_steps pid cg @
        cgroup_event_steps rid cg @ [running_recorded rid]) e (t @ u)) (?mapped x)"
      using releases_later [OF 4 attempt_map_ok] by (cases x) (auto intro!: requires_never emits_intros)
  qed (auto intro!: emits_intros)
qed

text \<open>All control writes of a supervised run are in its first phase.\<close>

lemma supervise_release:
  assumes "supervise fuel rt env s rid events pid pu pg cg before h = (r, h')"
    and "\<And>c r. P (File c, r)" "\<And>r. P (UtcNow, r)" "\<And>c r. P (StoreCall c, r)" "\<And>r. P (Ctl CtlReadLine, r)"
    "\<And>r. P (Ctl CtlClose, r)" "\<And>b r. P (Proc (WaitPid pid b), r)" "\<And>r. P (Proc (Kill pid sigkill), r)"
  shows "\<exists>r1 h1 t. release_workload env s rid events pid pu pg cg h = (r1, h1) \<and> h' = h1 @ t \<and> (\<forall>e \<in> set t. P e)"
proof -
  let ?d = "drop_workload fuel env pid (map_option (\<lambda>_. sm_id (sd_meta s)) cg)"
  have E: "emits P (evidence_and_wait fuel rt env s rid events pid before)"
    and F: "emits P (io_finally (io_lift (Inl e :: int result)) (?d False))"
    and C: "emits P (io_finally (conclude_run env rid events before ev st) (?d True))" for e err ev st
    by (intro emits_intros assms)+
  have A: "emits P (abort_blocked_child fuel env rid events pid (map_option (\<lambda>_. sm_id (sd_meta s)) cg) err)" for err
    unfolding abort_blocked_child_def by (auto intro!: emits_intros assms split: sum.splits)
  from assms(1) show ?thesis
  proof (cases rule: supervise_cases)
    case (early e h1)
    from emitsD [OF F early(2)] early(1) show ?thesis by blast
  next
    case (aborted err h1)
    from emitsD [OF A aborted(2)] aborted(1) show ?thesis by blast
  next
    case (failed e h1 h2)
    obtain a where "h2 = h1 @ a" "\<forall>e \<in> set a. P e" using emitsD [OF E failed(2)] by blast
    moreover obtain b where "h' = h2 @ b" "\<forall>e \<in> set b. P e" using emitsD [OF F failed(3)] by blast
    ultimately show ?thesis using failed(1) by (intro exI [of _ "Inr Released"] exI [of _ h1] exI [of _ "a @ b"]) auto
  next
    case (concluded ev st h1 h2)
    obtain a where "h2 = h1 @ a" "\<forall>e \<in> set a. P e" using emitsD [OF E concluded(2)] by blast
    moreover obtain b where "h' = h2 @ b" "\<forall>e \<in> set b. P e" using emitsD [OF C concluded(3)] by blast
    ultimately show ?thesis using concluded(1) by (intro exI [of _ "Inr Released"] exI [of _ h1] exI [of _ "a @ b"]) auto
  qed
qed

text \<open>C3: The blocked child is released only by the start byte, and only after the identity maps of a
  rootless workload are installed for its pid, the pid is in the prepared control group and the
  event saying so is recorded, and the run is recorded as running: each successful, in this order.\<close>
theorem release_after_host_setup:
  assumes "process_run fuel rt env s rid h = (r, h @ u @ (Ctl (CtlWrite byte), x) # v)"
  shows "byte = [child_start_byte] \<and>
    (\<exists>pid pu pg fl. (Proc (Clone fl), RInt pid) \<in> set u \<and>
       has_in_order (release_steps s rid pid pu pg
         (if cgroups_requested s then Some (get_cgroup_path (sm_id (sd_meta s))) else None)) u)"
proof -
  let ?cg = "if cgroups_requested s then Some (get_cgroup_path (sm_id (sd_meta s))) else None"
  let ?R = "\<lambda>e u. fst e = Ctl (CtlWrite [child_start_byte]) \<and>
    (\<exists>pid pu pg fl. (Proc (Clone fl), RInt pid) \<in> set u \<and> has_in_order (release_steps s rid pid pu pg ?cg) u)"
  have "requires is_ctl_write ?R (process_run fuel rt env s rid)"
  proof (rule run_requires)
    fix before :: namespace_ids and pid pu pg :: int and cg w
    let ?events = "\<lparr>eb_run_id = rid, eb_seed_id = sm_id (sd_meta s)\<rparr>"
    assume c: "\<exists>fl. (Proc (Clone fl), RInt pid) \<in> set w" and cg: "cg = ?cg"
    show "requires is_ctl_write (\<lambda>e u. ?R e (w @ u)) (supervise fuel rt env s rid ?events pid pu pg cg before)"
      unfolding requires_def
    proof (intro allI impI)
      fix h r u e v
      assume "supervise fuel rt env s rid ?events pid pu pg cg before h = (r, h @ u @ e # v)" and e: "is_ctl_write e"
      from supervise_release [OF this(1), of "\<lambda>e. \<not> is_ctl_write e"] obtain r1 h1 t where
        1: "release_workload env s rid ?events pid pu pg cg h = (r1, h1)" "h @ u @ e # v = h1 @ t"
        "\<forall>e \<in> set t. \<not> is_ctl_write e" by auto
      have "emits (\<lambda>_. True) (release_workload env s rid ?events pid pu pg cg)" by (intro emits_intros; simp)
      from emits_grows [OF this 1(1)] obtain t1 where t1: "h1 = h @ t1" by blast
      with 1(2) have "u @ e # v = [] @ t1 @ t" by simp
      from entry_in_middle [OF this _ 1(3) e] obtain y where "t1 = u @ e # y" by auto
      with 1(1) t1 requiresD [OF write_in_release] e
      have "has_in_order (release_steps s rid pid pu pg cg) u" "fst e = Ctl (CtlWrite [child_start_byte])" by blast+
      moreover obtain fl where "(Proc (Clone fl), RInt pid) \<in> set (w @ u)" using c by auto
      ultimately show "?R e (w @ u)" using has_in_order_prepend unfolding cg by blast
    qed
  qed (intro emits_intros; simp)+
  from requiresD [OF this assms] show ?thesis by auto
qed

section \<open>The fate of the child\<close>

definition no_panic :: "('s, 'a) io \<Rightarrow> bool" where
  "no_panic m \<longleftrightarrow> (\<forall>h h' msg. m h \<noteq> (Inl (Panic msg), h'))"

lemma no_panic_sys: "no_panic (sys env c)"
  by (auto simp: no_panic_def sys_def Let_def)

lemma no_panic_return: "no_panic (io_return x)"
  by (simp add: no_panic_def)

lemma no_panic_bind: "no_panic m \<Longrightarrow> (\<And>x. no_panic (f x)) \<Longrightarrow> no_panic (io_bind m f)"
  unfolding no_panic_def by (auto simp: io_bind_cases)

lemma no_panic_seq: "no_panic m \<Longrightarrow> no_panic n \<Longrightarrow> no_panic (io_seq m n)"
  by (simp add: io_seq_def no_panic_bind)

lemma with_ctx_Panic: "with_ctx c r = Inl (Panic msg) \<longleftrightarrow> r = Inl (Panic msg)"
  by (cases "(c, r)" rule: with_ctx.cases) auto

lemma no_panic_ctx: "no_panic m \<Longrightarrow> no_panic (io_ctx c m)"
  unfolding no_panic_def io_ctx_cases by (auto simp: with_ctx_Panic eq_commute [of "Inl (Panic _)"])

lemma no_panic_attempt: "no_panic m \<Longrightarrow> no_panic (io_attempt m)"
  unfolding no_panic_def by (auto simp: io_attempt_err)

lemma no_panic_when: "no_panic m \<Longrightarrow> no_panic (io_when b m)"
  by (simp add: io_when_def no_panic_return)

lemma no_panic_unit: "no_panic (sys_unit env c)"
proof -
  have "as_unit r \<noteq> Inl (Panic msg)" for r msg by (cases r) (auto simp: bail_def)
  then show ?thesis
    by (auto simp: no_panic_def sys_unit_def io_bind_cases sys_def Let_def split: if_splits)
qed

lemma no_panic_exists: "no_panic (sys_exists env p)"
  unfolding sys_exists_def by (intro no_panic_bind no_panic_sys no_panic_return)

lemma no_panic_bail: "no_panic (io_bail m)"
  by (simp add: no_panic_def bail_def)

lemmas no_panic_intros = no_panic_sys no_panic_return no_panic_bind no_panic_seq no_panic_ctx
  no_panic_attempt no_panic_when no_panic_unit no_panic_exists no_panic_bail

lemma no_panic_wait: "no_panic (wait_for_terminal fuel env pid)"
proof (induction fuel)
  case 0
  show ?case by (simp add: no_panic_def)
next
  case (Suc fuel)
  show ?case
    by (simp, rule no_panic_bind [OF no_panic_sys])
      (auto intro!: no_panic_intros Suc split: reply.splits wait_status.splits)
qed

lemma no_panic_drop_reap: "no_panic (drop_reap fuel env pid)"
  unfolding drop_reap_def terminate_def
  by (rule no_panic_bind [OF no_panic_sys])
    (auto intro!: no_panic_intros no_panic_wait split: reply.splits wait_status.splits)

text \<open>The guard's \<open>Drop\<close> swallows every error of its own.\<close>

definition no_error :: "('s, 'a) io \<Rightarrow> bool" where
  "no_error m \<longleftrightarrow> (\<forall>h e h'. m h = (Inl e, h') \<longrightarrow> e = Killed \<or> e = NoFuel)"

lemma no_error_sys: "no_error (sys env c)"
  by (auto simp: no_error_def sys_def Let_def split: if_splits)

lemma no_error_return: "no_error (io_return x)"
  by (simp add: no_error_def)

lemma no_error_bind:
  assumes "no_error m" "\<And>x. no_error (f x)"
  shows "no_error (io_bind m f)"
  unfolding no_error_def
proof (intro allI impI)
  fix h e h'
  assume "io_bind m f h = (Inl e, h')"
  then consider "m h = (Inl e, h')" | x h1 where "f x h1 = (Inl e, h')" by (auto simp: io_bind_cases)
  then show "e = Killed \<or> e = NoFuel" using assms unfolding no_error_def by cases blast+
qed

lemma no_error_seq: "no_error m \<Longrightarrow> no_error n \<Longrightarrow> no_error (io_seq m n)"
  by (simp add: io_seq_def no_error_bind)

lemma no_error_when: "no_error m \<Longrightarrow> no_error (io_when b m)"
  by (simp add: io_when_def no_error_return)

lemma no_error_attempt:
  assumes "no_panic m"
  shows "no_error (io_attempt m)"
  unfolding no_error_def
proof (intro allI impI)
  fix h e h'
  assume "io_attempt m h = (Inl e, h')"
  then show "e = Killed \<or> e = NoFuel"
    using assms by (cases e) (auto simp: io_attempt_err no_panic_def)
qed

lemma no_error_drop_reap: "no_error (drop_reap fuel env pid)"
proof -
  have "no_error (io_seq (terminate env pid)
      (io_bind (io_attempt (wait_for_terminal fuel env pid)) (\<lambda>_. io_return ())))"
    unfolding terminate_def
    by (intro no_error_seq no_error_bind no_error_sys no_error_return no_error_attempt no_panic_wait)
  then show ?thesis
    unfolding drop_reap_def
    by (intro no_error_bind no_error_sys) (simp add: no_error_return split: reply.split wait_status.split)
qed

lemma no_error_drop: "no_error (drop_workload fuel env pid cg reaped)"
proof -
  have "no_panic (cleanup_cgroup env sid)" for sid
    unfolding cleanup_cgroup_def Let_def by (intro no_panic_intros)
  then show ?thesis
    unfolding drop_workload_def
    by (cases cg) (auto intro!: no_error_seq no_error_when no_error_bind no_error_return no_error_attempt
        no_error_drop_reap)
qed

lemmas drop_errors = no_error_drop [unfolded no_error_def, rule_format]

fun terminal :: "wait_status \<Rightarrow> bool" where
  "terminal (Exited p c) = True"
| "terminal (Signaled p sig) = True"
| "terminal st = False"

fun wait_failed :: "int \<Rightarrow> call \<times> reply \<Rightarrow> bool" where
  "wait_failed pid (Proc (WaitPid p False), r) \<longleftrightarrow> p = pid \<and> r \<noteq> REintr \<and> (\<forall>st. r \<noteq> RWait st)"
| "wait_failed pid e \<longleftrightarrow> False"

text \<open>The task was reaped, or is no child any more, or was sent \<open>SIGKILL\<close> and then \<open>waitpid\<close> failed.\<close>

definition settled :: "int \<Rightarrow> history \<Rightarrow> bool" where
  "settled pid t \<longleftrightarrow>
     (\<exists>b st. (Proc (WaitPid pid b), RWait st) \<in> set t \<and> terminal st) \<or>
     (Proc (WaitPid pid True), REchild) \<in> set t \<or>
     has_in_order [\<lambda>e. fst e = Proc (Kill pid sigkill), wait_failed pid] t"

lemma settled_more: "settled pid t \<Longrightarrow> settled pid (u @ t @ v)"
  unfolding settled_def using has_in_order_more by auto

lemma wait_failed_entry:
  "wait_for_terminal fuel env pid h = (Inl (Err ms), h') \<Longrightarrow> \<exists>t. h' = h @ t \<and> (\<exists>e \<in> set t. wait_failed pid e)"
proof (induction fuel arbitrary: h)
  case (Suc fuel)
  from Suc.prems obtain r where r: "env h (Proc (WaitPid pid False)) = r" "r \<noteq> RKilled"
    by (auto simp: io_bind_cases sys_def Let_def split: if_splits)
  let ?h1 = "h @ [(Proc (WaitPid pid False), r)]"
  show ?case
  proof (cases "r = REintr \<or> (\<exists>st. r = RWait st)")
    case True
    with Suc.prems r have "wait_for_terminal fuel env pid ?h1 = (Inl (Err ms), h')"
      by (auto simp: io_bind_cases sys_def Let_def split: wait_status.splits if_splits)
    from Suc.IH [OF this] show ?thesis by auto
  next
    case False
    with Suc.prems r have "h' = ?h1"
      by (auto simp: io_bind_cases sys_def Let_def split: reply.splits if_splits)
    with False show ?thesis by auto
  qed
qed simp

lemma drop_reap_settles:
  assumes "drop_reap fuel env pid h = (Inr u, h')"
  shows "\<exists>t. h' = h @ t \<and> settled pid t"
proof -
  from assms obtain r where r: "env h (Proc (WaitPid pid True)) = r" "r \<noteq> RKilled"
    by (auto simp: drop_reap_def io_bind_ok sys_ok)
  let ?h1 = "h @ [(Proc (WaitPid pid True), r)]"
  show ?thesis
  proof (cases "r = REchild \<or> (\<exists>st. r = RWait st \<and> terminal st)")
    case True
    with assms r have "h' = ?h1"
      by (auto simp: drop_reap_def io_bind_ok sys_ok split: wait_status.splits)
    with True show ?thesis unfolding settled_def by auto
  next
    case False
    with assms r obtain h2 w where k: "terminate env pid ?h1 = (Inr (), h2)"
      and w: "io_attempt (wait_for_terminal fuel env pid) h2 = (Inr w, h')"
      by (auto simp: drop_reap_def io_bind_ok io_seq_ok sys_ok split: reply.splits wait_status.splits)
    from k obtain x where h2: "h2 = ?h1 @ [(Proc (Kill pid sigkill), x)]"
      by (auto simp: terminate_def io_bind_ok sys_ok)
    from w consider st where "wait_for_terminal fuel env pid h2 = (Inr st, h')"
      | ms where "wait_for_terminal fuel env pid h2 = (Inl (Err ms), h')"
      by (auto simp: io_attempt_ok)
    then show ?thesis
    proof cases
      case 1
      from wait_ok [OF this] h2 show ?thesis unfolding settled_def by fastforce
    next
      case 2
      from wait_failed_entry [OF this] obtain t e where "h' = h2 @ t" "e \<in> set t" "wait_failed pid e" by blast
      then have "has_in_order [\<lambda>e. fst e = Proc (Kill pid sigkill), wait_failed pid]
          ((Proc (WaitPid pid True), r) # (Proc (Kill pid sigkill), x) # t)"
        by (auto simp: has_in_order_single)
      with \<open>h' = h2 @ t\<close> h2 show ?thesis unfolding settled_def by auto
    qed
  qed
qed

lemma drop_settles:
  assumes "drop_workload fuel env pid cg False h = (Inr u, h')"
  shows "\<exists>t. h' = h @ t \<and> settled pid t"
proof -
  let ?c = "case cg of Some seed_id \<Rightarrow> io_bind (io_attempt (cleanup_cgroup env seed_id)) (\<lambda>_. io_return ())
      | None \<Rightarrow> io_return ()"
  from assms obtain h1 where 1: "drop_reap fuel env pid h = (Inr (), h1)" and 2: "?c h1 = (Inr u, h')"
    by (auto simp: drop_workload_def io_seq_ok io_when_def)
  have "emits (\<lambda>_. True) ?c" by (intro emits_intros; simp)
  from emits_grows [OF this 2] drop_reap_settles [OF 1] show ?thesis using settled_more [of pid _ "[]"] by fastforce
qed

lemma finally_settles:
  assumes "io_finally m (drop_workload fuel env pid cg False) h = (r, h')" "r \<noteq> Inl Killed" "r \<noteq> Inl NoFuel"
    and "emits P m"
  shows "\<exists>t. h' = h @ t \<and> settled pid t"
proof -
  obtain r1 h1 where 1: "m h = (r1, h1)" by fastforce
  obtain r2 h2 where 2: "drop_workload fuel env pid cg False h1 = (r2, h2)" by fastforce
  have "r2 = Inr () \<and> h' = h2"
    using assms(1-3) 1 2 drop_errors [of fuel env pid cg False h1 _ h2]
    by (cases r2) (auto simp: io_finally_def split: sum.splits error.splits)
  with 2 drop_settles have "\<exists>t. h' = h1 @ t \<and> settled pid t" by blast
  with emitsD [OF assms(4) 1] show ?thesis using settled_more [of pid _ _ "[]"] by fastforce
qed

text \<open>An abort that takes the child for reaped has waited for it.\<close>

lemma abort_waited:
  assumes "io_attempt (wait_for_terminal fuel env pid) h1 = (Inr first, h2)"
    and "(case first of Inr _ \<Rightarrow> io_return True | Inl _ \<Rightarrow>
        io_seq (terminate env pid) (io_bind (io_attempt (wait_for_terminal fuel env pid))
          (\<lambda>second. io_return (case second of Inr _ \<Rightarrow> True | Inl _ \<Rightarrow> False)))) h2 = (Inr True, h3)"
    and "h2 = h1 @ t2"
  shows "\<exists>a b st u w. wait_for_terminal fuel env pid a = (Inr st, b) \<and> a = h1 @ u \<and> h3 = b @ w"
proof (cases first)
  case (Inr st)
  with assms have "wait_for_terminal fuel env pid h1 = (Inr st, h2)" "h3 = h2" by (auto simp: io_attempt_ok io_return_def)
  then show ?thesis by (metis append_Nil2)
next
  case (Inl ms)
  with assms(2) obtain a second where a: "terminate env pid h2 = (Inr (), a)"
    and "io_attempt (wait_for_terminal fuel env pid) a = (Inr second, h3)"
      "case second of Inr _ \<Rightarrow> True | Inl _ \<Rightarrow> False"
    by (auto simp: io_seq_ok io_bind_ok)
  then obtain st where "wait_for_terminal fuel env pid a = (Inr st, h3)"
    by (cases second) (auto simp: io_attempt_ok)
  moreover from a obtain x where "a = h2 @ [x]" by (auto simp: terminate_def io_bind_ok sys_ok)
  ultimately show ?thesis using assms(3) by (metis append.assoc append_Nil2)
qed

lemma abort_settles:
  assumes "abort_blocked_child fuel env rid events pid cg err h = (r, h')" "r \<noteq> Inl Killed" "r \<noteq> Inl NoFuel"
  shows "\<exists>t. h' = h @ t \<and> settled pid t"
proof -
  let ?fin = "\<lambda>reaped. io_finally (io_seq (record_failed_run env rid events err) (io_return child_bootstrap_failure))
      (drop_workload fuel env pid cg reaped)"
  let ?again = "io_seq (terminate env pid) (io_bind (io_attempt (wait_for_terminal fuel env pid))
      (\<lambda>second. io_return (case second of Inr _ \<Rightarrow> True | Inl _ \<Rightarrow> False)))"
  let ?second = "\<lambda>first. case first of Inr _ \<Rightarrow> io_return True | Inl _ \<Rightarrow> ?again"
  have W: "no_error (io_attempt (wait_for_terminal fuel env pid))" by (rule no_error_attempt [OF no_panic_wait])
  have A: "no_error ?again"
    unfolding terminate_def by (intro no_error_seq no_error_bind no_error_sys no_error_return W)
  have S: "no_error (?second first)" for first :: "string list + wait_status"
    using A no_error_return by (cases first) auto
  have live: "r1 \<noteq> Inl e" if "no_error m" "m a = (r1, b)" "r1 = Inl e \<longrightarrow> r = Inl e"
    for m :: "(history, 'b) io" and a b r1 e
    using that assms(2,3) unfolding no_error_def by blast
  obtain r0 h1 where 1: "sys env (Ctl CtlClose) h = (r0, h1)" by fastforce
  from assms(1) 1 live [OF no_error_sys 1] obtain x0 where x0: "r0 = Inr x0"
    by (cases r0) (auto simp: abort_blocked_child_def io_bind_cases)
  obtain r2 h2 where 2: "io_attempt (wait_for_terminal fuel env pid) h1 = (r2, h2)" by fastforce
  from assms(1) 1 x0 2 live [OF W 2] obtain first where f: "r2 = Inr first"
    by (cases r2) (auto simp: abort_blocked_child_def io_bind_cases)
  obtain r3 h3 where 3: "?second first h2 = (r3, h3)" by fastforce
  from assms(1) 1 x0 2 f 3 live [OF S 3] obtain reaped where re: "r3 = Inr reaped"
    by (cases r3) (auto simp: abort_blocked_child_def io_bind_cases)
  have 4: "?fin reaped h3 = (r, h')"
    using assms(1) 1 x0 2 f 3 re by (auto simp: abort_blocked_child_def io_bind_cases)
  have E: "emits (\<lambda>_. True) (io_seq (record_failed_run env rid events err) (io_return child_bootstrap_failure))"
    and F: "emits (\<lambda>_. True) (?fin reaped)" by (intro emits_intros; simp)+
  have G: "emits (\<lambda>_. True) (io_attempt (wait_for_terminal fuel env pid))" "emits (\<lambda>_. True) (sys env (Ctl CtlClose))"
    "emits (\<lambda>_. True) (?second first)"
    by (intro emits_intros; simp)+
  obtain t1 where t1: "h1 = h @ t1" using emits_grows [OF G(2) 1] by blast
  obtain t2 where t2: "h2 = h1 @ t2" using emits_grows [OF G(1) 2] by blast
  obtain t3 where t3: "h3 = h2 @ t3" using emits_grows [OF G(3) 3] by blast
  obtain t4 where t4: "h' = h3 @ t4" using emits_grows [OF F 4] by blast
  show ?thesis
  proof (cases reaped)
    case False
    with 4 have "?fin False h3 = (r, h')" by simp
    from finally_settles [OF this assms(2,3) E] t4 have "settled pid t4" by auto
    then show ?thesis using settled_more [of pid t4 "t1 @ t2 @ t3" "[]"] t1 t2 t3 t4 by auto
  next
    case True
    have "?second first h2 = (Inr True, h3)" using 3 re True by simp
    from abort_waited [OF 2 [unfolded f] this t2] obtain a b st u w where
      w: "wait_for_terminal fuel env pid a = (Inr st, b)" "a = h1 @ u" "h3 = b @ w" by blast
    from wait_ok [OF w(1)] obtain v where "b = h @ v" "settled pid v"
      unfolding settled_def w(2) t1 by fastforce
    with settled_more [of pid v "[]" "w @ t4"] w(3) t4 show ?thesis by auto
  qed
qed

lemma supervise_settles:
  assumes "supervise fuel rt env s rid events pid pu pg cg before h = (r, h')" "r \<noteq> Inl Killed" "r \<noteq> Inl NoFuel"
  shows "\<exists>t. h' = h @ t \<and> settled pid t"
proof -
  have R: "emits (\<lambda>_. True) (release_workload env s rid events pid pu pg cg)"
    and E: "emits (\<lambda>_. True) (evidence_and_wait fuel rt env s rid events pid before)"
    and L: "emits (\<lambda>_. True) (io_lift (Inl e :: int result))"
    and C: "emits (\<lambda>_. True) (io_finally (conclude_run env rid events before ev st)
        (drop_workload fuel env pid (map_option (\<lambda>_. sm_id (sd_meta s)) cg) True))" for e ev st
    by (intro emits_intros; simp)+
  from assms(1) show ?thesis
  proof (cases rule: supervise_cases)
    case (early e h1)
    from finally_settles [OF early(2) assms(2,3) L] emits_grows [OF R early(1)] settled_more [of pid _ _ "[]"]
    show ?thesis by fastforce
  next
    case (aborted err h1)
    from abort_settles [OF aborted(2) assms(2,3)] emits_grows [OF R aborted(1)] settled_more [of pid _ _ "[]"]
    show ?thesis by fastforce
  next
    case (failed e h1 h2)
    obtain a b where "h1 = h @ a" "h2 = h1 @ b" using emits_grows [OF R failed(1)] emits_grows [OF E failed(2)] by blast
    moreover obtain t where "h' = h2 @ t" "settled pid t" using finally_settles [OF failed(3) assms(2,3) L] by blast
    ultimately show ?thesis using settled_more [of pid t "a @ b" "[]"] by auto
  next
    case (concluded ev st h1 h2)
    obtain a where a: "h1 = h @ a" using emits_grows [OF R concluded(1)] by blast
    obtain c where c: "h' = h2 @ c" using emits_grows [OF C concluded(3)] by blast
    from concluded(2) obtain h3 where w: "wait_for_terminal fuel env pid h3 = (Inr st, h2)"
      "gather_evidence fuel rt env s rid events pid before h1 = (Inr ev, h3)"
      by (auto simp: evidence_and_wait_def io_bind_ok)
    have "emits (\<lambda>_. True) (gather_evidence fuel rt env s rid events pid before)" by (intro emits_intros; simp)
    from emits_grows [OF this w(2)] obtain b where b: "h3 = h1 @ b" by blast
    from wait_ok [OF w(1)] obtain t where "h2 = h3 @ t" "settled pid t" unfolding settled_def by fastforce
    then show ?thesis using settled_more [of pid t "a @ b" c] a b c by auto
  qed
qed

abbreviation clone_of :: "int \<Rightarrow> call \<times> reply \<Rightarrow> bool" where
  "clone_of pid e \<equiv> (\<exists>fl. e = (Proc (Clone fl), RInt pid))"

lemma clone_fails: "clone_workload env s cg h = (Inl e, h @ t) \<Longrightarrow> d \<in> set t \<Longrightarrow> \<not> clone_of pid d"
proof -
  assume run: "clone_workload env s cg h = (Inl e, h @ t)" and d: "d \<in> set t"
  let ?c = "Proc (Clone (workload_clone_flags (us_map_rootless (sd_user s)) (net_enable (sd_net s))))"
  let ?rest = "\<lambda>r. io_seq (io_when (cg \<noteq> None)
      (io_bind (io_attempt (cleanup_cgroup env (sm_id (sd_meta s)))) (\<lambda>_. io_return ())))
      (io_ctx ''Failed to clone isolated workload task'' (io_bail (os_error r) :: (history, int) io))"
  have E: "emits (\<lambda>e. \<forall>c x. e \<noteq> (Proc c, x)) (?rest r)" for r by (intro emits_intros; simp)
  show "\<not> clone_of pid d"
  proof (cases "env h ?c = RKilled")
    case True
    with run have "t = [(?c, RKilled)]" by (auto simp: clone_workload_def io_bind_cases sys_def Let_def)
    with d show ?thesis by auto
  next
    case False
    with run have n: "\<forall>i. env h ?c \<noteq> RInt i" and r: "?rest (env h ?c) (h @ [(?c, env h ?c)]) = (Inl e, h @ t)"
      by (auto simp: clone_workload_def io_bind_cases sys_def Let_def split: reply.splits)
    obtain u where u: "t = (?c, env h ?c) # u" "\<forall>e \<in> set u. \<forall>c x. e \<noteq> (Proc c, x)"
      using emitsD [OF E r] by auto
    show ?thesis
    proof
      assume "clone_of pid d"
      with d u have "env h ?c = RInt pid" by auto
      with n show False by blast
    qed
  qed
qed

lemma cloned_reaches:
  assumes "run_cloned fuel rt env s rid before (cg, pu, pg) h = (r, h @ t)" "clone_of pid e" "e \<in> set t"
  shows "\<exists>h1 u. supervise fuel rt env s rid \<lparr>eb_run_id = rid, eb_seed_id = sm_id (sd_meta s)\<rparr>
      pid pu pg cg before h1 = (r, h @ t) \<and> h1 = h @ u"
proof -
  let ?sup = "\<lambda>p. supervise fuel rt env s rid \<lparr>eb_run_id = rid, eb_seed_id = sm_id (sd_meta s)\<rparr> p pu pg cg before"
  have m: "emits (\<lambda>e. \<not> clone_of pid e) (?sup p)" for p by (intro emits_intros; simp)
  from assms(1) consider x where "clone_workload env s cg h = (Inl x, h @ t)"
    | p h1 where "clone_workload env s cg h = (Inr p, h1)" "?sup p h1 = (r, h @ t)"
    by (auto simp: run_cloned_def io_bind_cases)
  then show ?thesis
  proof cases
    case 1
    from clone_fails [OF this assms(3)] assms(2) show ?thesis by blast
  next
    case 2
    from clone_ok [OF 2(1)] obtain fl where h1: "h1 = h @ [(Proc (Clone fl), RInt p)]" by blast
    obtain t7 where t7: "h @ t = h1 @ t7" "\<forall>e \<in> set t7. \<not> clone_of pid e" using emitsD [OF m 2(2)] by blast
    with h1 assms(2,3) have "p = pid" by auto
    with 2(2) h1 show ?thesis by blast
  qed
qed

lemma run_reaches_supervise:
  assumes "process_run fuel rt env s rid h = (r, h @ t)" "clone_of pid e" "e \<in> set t"
  shows "\<exists>before pu pg cg h1 t1. supervise fuel rt env s rid \<lparr>eb_run_id = rid, eb_seed_id = sm_id (sd_meta s)\<rparr>
      pid pu pg cg before h1 = (r, h @ t) \<and> h1 = h @ t1"
proof -
  let ?no = "\<lambda>e. \<not> clone_of pid e"
  have n: "emits ?no (io_ctx c (current_namespace_ids env))" "emits ?no (record_start rt env s rid events)"
    "emits ?no (prepare_host env s)" for c events
    by (intro emits_intros; simp)+
  from bind_reach [OF assms(1) [unfolded run_stages] n(1) assms(3,2) any_started] obtain before t1 t2 where
    1: "run_started fuel rt env s rid before (h @ t1) = (r, (h @ t1) @ t2)" "t = t1 @ t2" "e \<in> set t2" by blast
  from seq_reach [OF 1(1) [unfolded run_started_def] n(2) 1(3) assms(2) any_prepared] obtain t3 t4 where
    2: "run_prepared fuel rt env s rid before (h @ t1 @ t3) = (r, (h @ t1 @ t3) @ t4)" "t2 = t3 @ t4" "e \<in> set t4" by auto
  from bind_reach [OF 2(1) [unfolded run_prepared_def] n(3) 2(3) assms(2) any_cloned] obtain cg pu pg t5 t6 where
    3: "run_cloned fuel rt env s rid before (cg, pu, pg) (h @ t1 @ t3 @ t5) = (r, (h @ t1 @ t3 @ t5) @ t6)"
    "t4 = t5 @ t6" "e \<in> set t6" by auto
  from cloned_reaches [OF 3(1) assms(2) 3(3)] 1(2) 2(2) 3(2) show ?thesis by force
qed

text \<open>C4: No cloned workload is left behind: however the run ends (a verdict, any error of any call, a
  panic), once the clone returned a pid that child was reaped, is not a child any more, or was sent
  \<open>SIGKILL\<close> before \<open>waitpid\<close> itself failed. The kernel ending the supervisor is the one exception.\<close>
theorem child_never_leaked:
  assumes "process_run fuel rt env s rid h = (r, h @ t)" "(Proc (Clone fl), RInt pid) \<in> set t"
    and "r \<noteq> Inl Killed" "r \<noteq> Inl NoFuel"
  shows "settled pid t"
proof -
  from run_reaches_supervise [OF assms(1) _ assms(2)] obtain before pu pg cg t1 where
    "supervise fuel rt env s rid \<lparr>eb_run_id = rid, eb_seed_id = sm_id (sd_meta s)\<rparr> pid pu pg cg before (h @ t1) =
     (r, h @ t)" by blast
  from supervise_settles [OF this assms(3,4)] obtain t2 where "h @ t = (h @ t1) @ t2" "settled pid t2" by blast
  then show ?thesis using settled_more [of pid t2 t1 "[]"] by simp
qed

end
