(* ===== verification/Scenario.thy ===== *)
theory Scenario
  imports Runner_Release
begin

text \<open>
  One concrete world, one manifest and one runtime, on which the run of a workload is evaluated from
  beginning to end: a rootless workload with a process limit and the minimal profile, whose child
  reports its three notices and exits with code 0. The witnesses of the properties of \<open>Isolation\<close>,
  \<open>Child\<close> and the runner theories are instances on it.
\<close>

section \<open>The world\<close>

definition demo_seed :: seed where
  "demo_seed =
     \<lparr>sd_api_version = ''v0'', sd_kind = ''Seed'',
      sd_meta = \<lparr>sm_name = ''demo'', sm_id = ''demo''\<rparr>,
      sd_rootfs = \<lparr>rf_path = ''/r''\<rparr>,
      sd_entrypoint = \<lparr>ep_cmd = [''/sh'', ''x''], ep_env = [''A=1''], ep_cwd = ''/''\<rparr>,
      sd_limits = \<lparr>lim_cpu = \<lparr>cpu_shares = None\<rparr>, lim_memory = \<lparr>mem_max = None\<rparr>,
                   lim_pids = \<lparr>pids_max = Some 5\<rparr>\<rparr>,
      sd_net = \<lparr>net_enable = False\<rparr>, sd_mounts = [],
      sd_security = \<lparr>sec_hostname = Some ''h'', sec_drop_caps = [], sec_seccomp_profile = Some ''minimal''\<rparr>,
      sd_user = \<lparr>us_uid = 1000, us_gid = 1000, us_map_rootless = True\<rparr>,
      sd_logging = \<lparr>lg_mode = ''json''\<rparr>, sd_store = \<lparr>sc_kind = ''mem''\<rparr>\<rparr>"

definition child_ids :: namespace_ids where
  "child_ids = \<lparr>ni_user = ''u'', ni_pid = ''p'', ni_uts = ''t'', ni_ipc = ''i'', ni_mnt = ''m'',
     ni_net = ''/proc/thread-self/ns/net''\<rparr>"

fun demo_enc :: "child_notice \<Rightarrow> string" where
  "demo_enc (CnNamespaceReady ids n) = ''N''"
| "demo_enc CnIsolationReady = ''I''"
| "demo_enc (CnProcessStart n) = ''S''"
| "demo_enc (CnFailed e) = ''F'' @ e"

definition demo_dec :: "string \<Rightarrow> string + child_notice" where
  "demo_dec line =
     (if line = ''N'' then Inr (CnNamespaceReady child_ids 1)
      else if line = ''I'' then Inr CnIsolationReady
      else if line = ''S'' then Inr (CnProcessStart 1)
      else Inl ''expected value'')"

definition demo_rt :: runtime where
  "demo_rt = \<lparr>rt_compile = (\<lambda>_. Inr ()), rt_enc = demo_enc, rt_dec = demo_dec, rt_yaml = (\<lambda>_. Inr ''yaml'')\<rparr>"

fun lines_read :: "history \<Rightarrow> nat" where
  "lines_read [] = 0"
| "lines_read ((Ctl CtlReadLine, r) # h) = Suc (lines_read h)"
| "lines_read (_ # h) = lines_read h"

fun demo_line :: "string list \<Rightarrow> nat \<Rightarrow> string" where
  "demo_line [] n = []"
| "demo_line (l # ls) 0 = l"
| "demo_line (l # ls) (Suc n) = demo_line ls n"

text \<open>The child writes \<open>ls\<close> and then exits with \<open>code\<close>; everything else works.\<close>

fun world :: "string list \<Rightarrow> int \<Rightarrow> env" where
  "world ls code h (File (ReadLink p)) = RStr p"
| "world ls code h (File (ReadToString p)) = RStr ''40''"
| "world ls code h (File (PathExists p)) = RBool True"
| "world ls code h (Task GetUid) = RInt 1000"
| "world ls code h (Task GetGid) = RInt 1000"
| "world ls code h (Task GetPid) = RInt 1"
| "world ls code h (Proc (Clone fl)) = RInt 7"
| "world ls code h (Proc (WaitPid pid nohang)) = RWait (Exited pid code)"
| "world ls code h (Ctl CtlReadLine) = RStr (demo_line ls (lines_read h))"
| "world ls code h UtcNow = RStr ''now''"
| "world ls code h c = ROk"

definition good_world :: env where
  "good_world = world [''N'', ''I'', ''S''] 0"

section \<open>Evaluation\<close>

definition demo_run :: "int result \<times> history" where
  "demo_run = process_run 9 demo_rt good_world demo_seed ''run'' []"

definition demo_boot :: "unit result \<times> history" where
  "demo_boot = child_exec_static demo_rt good_world demo_seed []"

lemma demo_boot_ok: "fst demo_boot = Inr ()"
  by code_simp

lemma demo_run_ok: "fst demo_run = Inr 0"
  by code_simp

text \<open>Cutting the history of a run at the first entry with a property.\<close>

definition cut :: "('a \<Rightarrow> bool) \<Rightarrow> 'a list \<Rightarrow> 'a list \<times> 'a list" where
  "cut P xs = (takeWhile (\<lambda>x. \<not> P x) xs, dropWhile (\<lambda>x. \<not> P x) xs)"

lemma cutE:
  assumes "snd (cut P xs) = e # tl (snd (cut P xs))"
  obtains u v where "xs = u @ e # v"
  using assms takeWhile_dropWhile_id [of "\<lambda>x. \<not> P x" xs] unfolding cut_def by (metis snd_conv)

fun hd_option :: "'a list \<Rightarrow> 'a option" where
  "hd_option [] = None"
| "hd_option (x # xs) = Some x"

lemma hd_option_Some: "hd_option xs = Some x \<Longrightarrow> xs = x # tl xs"
  by (cases xs) auto

lemma exited_entry:
  obtains u v where "snd demo_run = u @ (StoreCall (UpdateRunStatus ''run'' (RunExited 0) (Some ''now'')), ROk) # v"
proof -
  have "hd_option (snd (cut exited_status (snd demo_run))) =
      Some (StoreCall (UpdateRunStatus ''run'' (RunExited 0) (Some ''now'')), ROk)"
    by code_simp
  from cutE [OF hd_option_Some [OF this]] that show ?thesis by blast
qed

lemma write_entry:
  obtains u v where "snd demo_run = u @ (Ctl (CtlWrite ''G''), ROk) # v"
proof -
  have "hd_option (snd (cut is_ctl_write (snd demo_run))) = Some (Ctl (CtlWrite ''G''), ROk)" by code_simp
  from cutE [OF hd_option_Some [OF this]] that show ?thesis by blast
qed

lemma clone_entry: "(Proc (Clone (workload_clone_flags True False)), RInt 7) \<in> set (snd demo_run)"
proof -
  have "List.member (snd demo_run) (Proc (Clone (workload_clone_flags True False)), RInt 7)" by code_simp
  then show ?thesis by simp
qed

lemma exec_entry: "(Task (Execv ''/sh'' [''/sh'', ''x'']), ROk) \<in> set (snd demo_boot)"
proof -
  have "List.member (snd demo_boot) (Task (Execv ''/sh'' [''/sh'', ''x'']), ROk)" by code_simp
  then show ?thesis by simp
qed

section \<open>Witnesses\<close>

theorem isolation_complete_witness:
  "\<exists>t. snd (apply_child (rt_compile demo_rt) good_world demo_seed []) = [] @ t \<and>
     has_in_order (isolation_steps demo_seed) t"
proof -
  have "fst (apply_child (rt_compile demo_rt) good_world demo_seed []) = Inr ()" by code_simp
  then have "apply_child (rt_compile demo_rt) good_world demo_seed [] =
      (Inr (), snd (apply_child (rt_compile demo_rt) good_world demo_seed []))" by (simp add: prod_eq_iff)
  from isolation_complete [OF this] show ?thesis .
qed

theorem exec_only_isolated_witness:
  "\<exists>u v. snd demo_boot = u @ v \<and> (Task (Execv ''/sh'' [''/sh'', ''x'']), ROk) \<in> set v \<and>
     isolated_and_announced demo_rt demo_seed u"
proof -
  have "child_exec_static demo_rt good_world demo_seed [] = (fst demo_boot, [] @ snd demo_boot)"
    by (simp add: demo_boot_def)
  from exec_only_isolated [OF this exec_entry] show ?thesis .
qed

theorem child_boot_protocol_witness:
  "\<exists>t. snd demo_boot = t @ [(Task (Execv ''/sh'' [''/sh'', ''x'']), ROk)] \<and>
     sent_text t = ''N'' @ newline @ ''I'' @ newline @ ''S'' @ newline"
proof -
  have "child_exec_static demo_rt good_world demo_seed [] = (Inr (), snd demo_boot)"
    using demo_boot_ok by (simp add: demo_boot_def prod_eq_iff)
  from child_boot_protocol [OF this] show ?thesis by (auto simp: demo_seed_def demo_rt_def)
qed

theorem unknown_profile_fails_closed_witness:
  "\<not> is_ok (fst (apply_child (rt_compile demo_rt) good_world
     (demo_seed\<lparr>sd_security := (sd_security demo_seed)\<lparr>sec_seccomp_profile := Some ''none''\<rparr>\<rparr>) []))"
  using unknown_profile_fails_closed
    [of "demo_seed\<lparr>sd_security := (sd_security demo_seed)\<lparr>sec_seccomp_profile := Some ''none''\<rparr>\<rparr>" "''none''"]
  by simp

theorem exited_status_has_evidence_witness:
  "\<exists>before u. set u \<subseteq> set (snd demo_run) \<and> ns_evidence demo_rt demo_seed ''run'' before u \<and>
     isolation_evidence demo_rt demo_seed ''run'' u \<and> start_evidence demo_rt ''run'' u \<and>
     recorded ''run'' ProcessExit u"
proof -
  obtain u v where uv: "snd demo_run = u @ (StoreCall (UpdateRunStatus ''run'' (RunExited 0) (Some ''now'')), ROk) # v"
    by (rule exited_entry)
  then have "process_run 9 demo_rt good_world demo_seed ''run'' [] =
      (Inr 0, [] @ u @ (StoreCall (UpdateRunStatus ''run'' (RunExited 0) (Some ''now'')), ROk) # v)"
    using demo_run_ok by (simp add: demo_run_def prod_eq_iff)
  from exited_status_has_evidence [OF this] uv show ?thesis by auto
qed

theorem release_after_host_setup_witness:
  "\<exists>u pid pu pg. set u \<subseteq> set (snd demo_run) \<and>
     has_in_order (release_steps demo_seed ''run'' pid pu pg (Some (get_cgroup_path ''demo''))) u"
proof -
  obtain u v where uv: "snd demo_run = u @ (Ctl (CtlWrite ''G''), ROk) # v" by (rule write_entry)
  then have "process_run 9 demo_rt good_world demo_seed ''run'' [] = (Inr 0, [] @ u @ (Ctl (CtlWrite ''G''), ROk) # v)"
    using demo_run_ok by (simp add: demo_run_def prod_eq_iff)
  from release_after_host_setup [OF this] obtain pid pu pg where
    "has_in_order (release_steps demo_seed ''run'' pid pu pg
      (if cgroups_requested demo_seed then Some (get_cgroup_path (sm_id (sd_meta demo_seed))) else None)) u"
    by blast
  moreover have "cgroups_requested demo_seed" "sm_id (sd_meta demo_seed) = ''demo''" by code_simp+
  ultimately have "has_in_order (release_steps demo_seed ''run'' pid pu pg (Some (get_cgroup_path ''demo''))) u"
    by simp
  moreover have "set u \<subseteq> set (snd demo_run)" using uv by auto
  ultimately show ?thesis by blast
qed

text \<open>A world whose kernel enforces the filters of the task.\<close>

definition filtering_world :: env where
  "filtering_world = filtered good_world"

lemma filtering_enforces: "enforces_filters filtering_world"
  unfolding filtering_world_def by (rule documented_enforces [OF filtered_documented])

definition strict_seed :: seed where
  "strict_seed = demo_seed\<lparr>sd_security := (sd_security demo_seed)\<lparr>sec_seccomp_profile := Some ''strict''\<rparr>\<rparr>"

theorem strict_profile_never_execs_witness:
  "\<not> is_ok (fst (child_exec_static demo_rt filtering_world strict_seed [])) \<and>
   (\<forall>p a x. (Task (Execv p a), x) \<notin> set (snd (child_exec_static demo_rt filtering_world strict_seed [])))"
  using strict_profile_never_execs
    [OF filtering_enforces, of strict_seed demo_rt "[]" "fst (child_exec_static demo_rt filtering_world strict_seed [])"
       "snd (child_exec_static demo_rt filtering_world strict_seed [])"]
  by (simp add: strict_seed_def)

theorem child_never_leaked_witness: "settled 7 (snd demo_run)"
proof -
  have "process_run 9 demo_rt good_world demo_seed ''run'' [] = (Inr 0, [] @ snd demo_run)"
    using demo_run_ok by (simp add: demo_run_def prod_eq_iff)
  from child_never_leaked [OF this clone_entry] show ?thesis by simp
qed

end
