(* ===== verification/Store_Memory.thy ===== *)
theory Store_Memory
  imports Store_Iface
begin

text \<open>
  The in-memory store of \<open>src/store/mem.rs\<close>: seeds and runs keyed by id, every event also printed
  as a line on standard output. \<open>ser\<close> stands for \<open>serde_json::to_string\<close>.

  Lemmas: the journal contract on the printed lines, the events of a run against the list of calls,
  the status rules, and the frame of every call.
\<close>

record run_record =
  rr_run_id :: string
  rr_seed_id :: string
  rr_start_ts :: string
  rr_end_ts :: "string option"
  rr_status :: run_status
  rr_events :: "json list"

record mem_store =
  ms_seeds :: "(string, seed_record) fmap"
  ms_runs :: "(string, run_record) fmap"
  ms_stdout :: "string list"

definition mem_new :: mem_store where
  "mem_new = \<lparr>ms_seeds = fmempty, ms_runs = fmempty, ms_stdout = []\<rparr>"

definition mem_upsert_seed :: "seed_record \<Rightarrow> (mem_store, unit) io" where
  "mem_upsert_seed r s = (Inr (), s\<lparr>ms_seeds := fmupd (sr_id r) r (ms_seeds s)\<rparr>)"

definition mem_create_run :: "string \<Rightarrow> string \<Rightarrow> string \<Rightarrow> (mem_store, unit) io" where
  "mem_create_run run_id seed_id start_ts s =
     (let record = \<lparr>rr_run_id = run_id, rr_seed_id = seed_id, rr_start_ts = start_ts,
                    rr_end_ts = None, rr_status = RunInit, rr_events = []\<rparr>
      in (Inr (), s\<lparr>ms_runs := fmupd run_id record (ms_runs s)\<rparr>))"

definition mem_append_event ::
    "(json \<Rightarrow> string result) \<Rightarrow> string \<Rightarrow> json \<Rightarrow> (mem_store, unit) io" where
  "mem_append_event ser run_id event s =
     (case ser event of
        Inl e \<Rightarrow> (Inl e, s)
      | Inr line \<Rightarrow>
          let s1 = s\<lparr>ms_stdout := ms_stdout s @ [line]\<rparr> in
          case fmlookup (ms_runs s1) run_id of
            Some run \<Rightarrow>
              (Inr (), s1\<lparr>ms_runs :=
                 fmupd run_id (run\<lparr>rr_events := rr_events run @ [event]\<rparr>) (ms_runs s1)\<rparr>)
          | None \<Rightarrow> (Inr (), s1))"

definition mem_update_run_status ::
    "string \<Rightarrow> run_status \<Rightarrow> string option \<Rightarrow> (mem_store, unit) io" where
  "mem_update_run_status run_id status end_ts s =
     (case fmlookup (ms_runs s) run_id of
        Some run \<Rightarrow>
          let run1 = run\<lparr>rr_status := status\<rparr>;
              run2 = (case end_ts of None \<Rightarrow> run1 | Some ts \<Rightarrow> run1\<lparr>rr_end_ts := Some ts\<rparr>)
          in (Inr (), s\<lparr>ms_runs := fmupd run_id run2 (ms_runs s)\<rparr>)
      | None \<Rightarrow> (Inr (), s))"

definition mem_ops :: "(json \<Rightarrow> string result) \<Rightarrow> mem_store store_ops" where
  "mem_ops ser =
     \<lparr>st_upsert_seed = mem_upsert_seed, st_create_run = mem_create_run,
      st_append_event = mem_append_event ser, st_update_run_status = mem_update_run_status,
      st_append_metrics = default_append_metrics\<rparr>"

section \<open>The dump\<close>

definition opt_json :: "string option \<Rightarrow> json" where
  "opt_json v = (case v of None \<Rightarrow> JNull | Some s \<Rightarrow> JStr s)"

fun run_status_to_json :: "run_status \<Rightarrow> json" where
  "run_status_to_json RunInit = JStr ''Init''"
| "run_status_to_json RunRunning = JStr ''Running''"
| "run_status_to_json (RunExited code) = jobj [(''Exited'', JInt code)]"
| "run_status_to_json (RunFailed err) = jobj [(''Failed'', JStr err)]"

definition seed_record_to_json :: "seed_record \<Rightarrow> json" where
  "seed_record_to_json r = jobj
     [(''id'', JStr (sr_id r)), (''name'', JStr (sr_name r)),
      (''manifest_yaml'', JStr (sr_manifest_yaml r)), (''created_at'', JStr (sr_created_at r))]"

definition run_record_to_json :: "run_record \<Rightarrow> json" where
  "run_record_to_json r = jobj
     [(''run_id'', JStr (rr_run_id r)), (''seed_id'', JStr (rr_seed_id r)),
      (''start_ts'', JStr (rr_start_ts r)), (''end_ts'', opt_json (rr_end_ts r)),
      (''status'', run_status_to_json (rr_status r)), (''events'', JArr (rr_events r))]"

definition mem_to_json :: "mem_store \<Rightarrow> json" where
  "mem_to_json s = jobj
     [(''seeds'', JObj (fmmap seed_record_to_json (ms_seeds s))),
      (''runs'', JObj (fmmap run_record_to_json (ms_runs s)))]"

definition mem_dump :: "(json \<Rightarrow> string result) \<Rightarrow> mem_store \<Rightarrow> string result" where
  "mem_dump pretty s = pretty (mem_to_json s)"

section \<open>Contract\<close>

text \<open>The records a call leaves on standard output.\<close>

fun mem_enc :: "(json \<Rightarrow> string result) \<Rightarrow> store_call \<Rightarrow> string list" where
  "mem_enc ser (AppendEvent run_id event) = (case ser event of Inl e \<Rightarrow> [] | Inr line \<Rightarrow> [line])"
| "mem_enc ser _ = []"

lemmas mem_op_defs =
  mem_ops_def mem_upsert_seed_def mem_create_run_def mem_append_event_def mem_update_run_status_def

lemma mem_journal:
  "store_do (mem_ops ser) c s = (r, s') \<Longrightarrow>
     ms_stdout s' = ms_stdout s @ (if is_ok r then mem_enc ser c else [])"
  by (cases c) (auto simp: mem_op_defs Let_def split: sum.splits option.splits)

interpretation mem: audit_store "mem_ops ser" ms_stdout "mem_enc ser"
  for ser :: "json \<Rightarrow> string result"
  by unfold_locales (auto dest: mem_journal)

section \<open>Runs against the list of calls\<close>

text \<open>
  What the calls say about one run: \<open>None\<close> before it is created, then its events in order. Creating
  it again starts over.
\<close>

fun events_spec :: "string \<Rightarrow> json list option \<Rightarrow> store_call list \<Rightarrow> json list option" where
  "events_spec rid v [] = v"
| "events_spec rid v (CreateRun r sid ts # cs) = events_spec rid (if r = rid then Some [] else v) cs"
| "events_spec rid v (AppendEvent r e # cs) =
     events_spec rid (if r = rid then map_option (\<lambda>es. es @ [e]) v else v) cs"
| "events_spec rid v (c # cs) = events_spec rid v cs"

definition mem_events :: "string \<Rightarrow> mem_store \<Rightarrow> json list option" where
  "mem_events rid s = map_option rr_events (fmlookup (ms_runs s) rid)"

lemma mem_events_step:
  assumes "\<And>j. is_ok (ser j)"
  shows "\<exists>s'. store_do (mem_ops ser) c s = (Inr (), s') \<and>
           mem_events rid s' = events_spec rid (mem_events rid s) [c]"
proof (cases c)
  case (AppendEvent r e)
  obtain line where "ser e = Inr line" using assms [of e] by (auto simp: is_ok_iff)
  then show ?thesis using AppendEvent
    by (auto simp: mem_op_defs mem_events_def Let_def split: option.splits)
qed (auto simp: mem_op_defs mem_events_def Let_def split: option.splits)

lemma events_spec_Cons: "events_spec rid v (c # cs) = events_spec rid (events_spec rid v [c]) cs"
  by (cases c) auto

text \<open>C21: With a serializer that never fails the in-memory store accepts every sequence of calls, and
  the events it holds for a run are those appended to that run since its creation, in order,
  whatever the calls for other runs in between.\<close>
theorem mem_store_refines_events:
  assumes "\<And>j. is_ok (ser j)"
  shows "fst (store_run (mem_ops ser) cs s) = cs \<and>
         mem_events rid (snd (store_run (mem_ops ser) cs s)) = events_spec rid (mem_events rid s) cs"
proof (induction cs arbitrary: s)
  case (Cons c cs)
  obtain s1 where "store_do (mem_ops ser) c s = (Inr (), s1)"
    and "mem_events rid s1 = events_spec rid (mem_events rid s) [c]"
    using mem_events_step [where ser = ser and c = c and s = s and rid = rid] assms by auto
  then show ?case
    using Cons.IH [of s1] events_spec_Cons [of rid "mem_events rid s" c cs]
    by (auto split: prod.splits)
qed simp

theorem mem_store_refines_events_witness:
  "mem_events ''r'' (snd (store_run (mem_ops (\<lambda>_. Inr ''x''))
      [CreateRun ''r'' ''s'' ''t'', AppendEvent ''r'' (JInt 1), AppendEvent ''q'' (JInt 7),
       AppendEvent ''r'' (JInt 2)] mem_new)) = Some [JInt 1, JInt 2]"
  using conjunct2 [OF mem_store_refines_events [of "\<lambda>_. Inr ''x''"
      "[CreateRun ''r'' ''s'' ''t'', AppendEvent ''r'' (JInt 1), AppendEvent ''q'' (JInt 7),
        AppendEvent ''r'' (JInt 2)]" mem_new "''r''"]]
  by (simp add: mem_events_def mem_new_def del: store_run.simps)

text \<open>Updating the status of a run changes nothing but that run's status and, when an end time
  is given, its end time; an end time once recorded is never cleared, and an unknown run is left
  unknown.\<close>
theorem mem_update_status_frame:
  assumes "mem_update_run_status rid st ts s = (r, s')"
  shows "r = Inr () \<and> ms_seeds s' = ms_seeds s \<and> ms_stdout s' = ms_stdout s \<and>
     fmlookup (ms_runs s') q =
       (if q = rid then map_option (\<lambda>run. run\<lparr>rr_status := st,
            rr_end_ts := (case ts of None \<Rightarrow> rr_end_ts run | Some t \<Rightarrow> Some t)\<rparr>) (fmlookup (ms_runs s) q)
        else fmlookup (ms_runs s) q)"
  using assms by (auto simp: mem_update_run_status_def Let_def split: option.splits)

theorem mem_update_status_frame_witness:
  "\<exists>r s'. mem_update_run_status ''r'' RunRunning None (snd (mem_create_run ''r'' ''s'' ''t'' mem_new)) = (r, s')
     \<and> map_option rr_status (fmlookup (ms_runs s') ''r'') = Some RunRunning"
proof -
  let ?s = "snd (mem_create_run ''r'' ''s'' ''t'' mem_new)"
  obtain r s' where u: "mem_update_run_status ''r'' RunRunning None ?s = (r, s')" by fastforce
  from mem_update_status_frame [OF u, of "''r''"] u show ?thesis
    by (auto simp: mem_create_run_def mem_new_def)
qed

end
