(* ===== verification/Store_Liminal.thy ===== *)
theory Store_Liminal
  imports Store_Iface
begin

text \<open>
  The LiminalDB adapter of \<open>src/store/liminal.rs\<close>: every store call becomes one text frame, queued in
  a bounded outbox and written to a WebSocket in order.

  The WebSocket library is outside the repository: \<open>net n\<close> says whether the \<open>n\<close>-th operation on it
  (a connect or a send) succeeds, and nothing is assumed of it. \<open>ser\<close> is \<open>serde_json::to_string\<close>.
  \<open>ls_sent\<close> and \<open>ls_ops\<close> are history variables: the frames the transport accepted so far and the
  number of operations tried on it.

  Lemmas: the store contract over \<open>ls_sent\<close> followed by \<open>ls_pending\<close>, the capacity bound, draining
  when the network works, and the state from which a full outbox never recovers.
\<close>

section \<open>State and transport\<close>

record liminal =
  ls_socket :: bool
  ls_pending :: "string list"
  ls_sent :: "string list"
  ls_ops :: nat
  ls_url :: string

definition max_pending_impulses :: nat where
  "max_pending_impulses = 1024"

definition lifecycle_pattern_prefix :: string where
  "lifecycle_pattern_prefix = ''garden.lifecycle.v1:''"

definition lifecycle_ttl_ms :: int where
  "lifecycle_ttl_ms = 86400000"

text \<open>The decimal literal \<open>0.85\<close>.\<close>

definition lifecycle_strength :: json where
  "lifecycle_strength = JDec 85 2"

definition default_liminal_url :: string where
  "default_liminal_url = ''ws://127.0.0.1:8787''"

definition with_url :: "(nat \<Rightarrow> bool) \<Rightarrow> string \<Rightarrow> nat \<Rightarrow> liminal" where
  "with_url net url n = \<lparr>ls_socket = net n, ls_pending = [], ls_sent = [], ls_ops = Suc n, ls_url = url\<rparr>"

definition liminal_new :: "(nat \<Rightarrow> bool) \<Rightarrow> nat \<Rightarrow> liminal" where
  "liminal_new net n = with_url net default_liminal_url n"

text \<open>\<open>var\<close> is the value of \<open>LIMINAL_URL\<close>, when it is set.\<close>

definition liminal_store_from_env :: "(nat \<Rightarrow> bool) \<Rightarrow> string option \<Rightarrow> nat \<Rightarrow> liminal" where
  "liminal_store_from_env net var n =
     with_url net (case var of None \<Rightarrow> default_liminal_url | Some url \<Rightarrow> url) n"

definition encode_lifecycle_impulse :: "(json \<Rightarrow> string result) \<Rightarrow> json \<Rightarrow> string result" where
  "encode_lifecycle_impulse ser data =
     (let record_type = to_ascii_lowercase
            (case Option.bind (json_get ''type'' data) json_as_str of None \<Rightarrow> ''UNKNOWN'' | Some t \<Rightarrow> t)
      in res_bind (with_ctx ''Failed to serialize Garden lifecycle envelope'' (ser data)) (\<lambda>lifecycle_json.
         with_ctx ''Failed to serialize LiminalDB impulse command''
           (ser (jobj
             [(''cmd'', JStr ''impulse''),
              (''data'', jobj
                [(''pattern'', JStr (lifecycle_pattern_prefix @ lifecycle_json)),
                 (''strength'', lifecycle_strength),
                 (''ttl_ms'', JInt lifecycle_ttl_ms),
                 (''kind'', JStr ''write''),
                 (''tags'', JArr [JStr ''garden'', JStr ''lifecycle'', JStr record_type])])]))))"

text \<open>The \<open>while\<close> loop of \<open>flush_pending\<close>; \<open>expect\<close> panics on a missing socket.\<close>

function flush_loop :: "(nat \<Rightarrow> bool) \<Rightarrow> (liminal, unit) io" where
  "flush_loop net s =
     (case ls_pending s of
        [] \<Rightarrow> (Inr (), s)
      | text # rest \<Rightarrow>
          if \<not> ls_socket s then (Inl (Panic ''socket established before flush''), s)
          else
            let s1 = s\<lparr>ls_ops := Suc (ls_ops s)\<rparr> in
            if net (ls_ops s)
            then flush_loop net (s1\<lparr>ls_pending := rest, ls_sent := ls_sent s @ [text]\<rparr>)
            else (Inr (), s1\<lparr>ls_socket := False\<rparr>))"
  by pat_completeness auto
termination
  by (relation "measure (\<lambda>(net, s). length (ls_pending s))") auto

declare flush_loop.simps [simp del]

definition flush_pending :: "(nat \<Rightarrow> bool) \<Rightarrow> (liminal, unit) io" where
  "flush_pending net s =
     (if ls_pending s = [] then (Inr (), s)
      else if \<not> ls_socket s then
        (let s1 = s\<lparr>ls_ops := Suc (ls_ops s)\<rparr> in
         if net (ls_ops s) then flush_loop net (s1\<lparr>ls_socket := True\<rparr>) else (Inr (), s1))
      else flush_loop net s)"

definition send_impulse ::
    "(nat \<Rightarrow> bool) \<Rightarrow> (json \<Rightarrow> string result) \<Rightarrow> json \<Rightarrow> (liminal, unit) io" where
  "send_impulse net ser data s =
     (case encode_lifecycle_impulse ser data of
        Inl e \<Rightarrow> (Inl e, s)
      | Inr text \<Rightarrow>
          if max_pending_impulses \<le> length (ls_pending s)
          then (bail (''LiminalDB pending outbox is full ('' @ show_nat max_pending_impulses @
                      '' impulses); refusing to drop audit evidence''), s)
          else flush_pending net (s\<lparr>ls_pending := ls_pending s @ [text]\<rparr>))"

section \<open>The store operations\<close>

definition lim_upsert_payload :: "seed_record \<Rightarrow> json" where
  "lim_upsert_payload s = jobj
     [(''type'', JStr ''SEED_UPSERT''), (''seed_id'', JStr (sr_id s)), (''seed_name'', JStr (sr_name s))]"

definition lim_create_payload :: "string \<Rightarrow> string \<Rightarrow> string \<Rightarrow> json" where
  "lim_create_payload run_id seed_id start_ts = jobj
     [(''type'', JStr ''RUN_CREATED''), (''run_id'', JStr run_id), (''seed_id'', JStr seed_id),
      (''start_ts'', JStr start_ts)]"

definition lim_event_payload :: "string \<Rightarrow> json \<Rightarrow> json" where
  "lim_event_payload run_id event = jobj
     [(''type'', JStr ''EVENT''), (''run_id'', JStr run_id), (''event'', event)]"

fun status_str :: "run_status \<Rightarrow> string" where
  "status_str RunInit = ''init''"
| "status_str RunRunning = ''running''"
| "status_str (RunExited _) = ''exited''"
| "status_str (RunFailed _) = ''failed''"

definition lim_status_payload :: "string \<Rightarrow> run_status \<Rightarrow> string option \<Rightarrow> json" where
  "lim_status_payload run_id status end_ts = jobj
     ([(''type'', JStr ''RUN_STATUS''), (''run_id'', JStr run_id), (''status'', JStr (status_str status))] @
      (case end_ts of Some ts \<Rightarrow> [(''end_ts'', JStr ts)] | None \<Rightarrow> []) @
      (case status of
         RunExited code \<Rightarrow> [(''exit_code'', JInt code)]
       | RunFailed err \<Rightarrow> [(''error'', JStr err)]
       | _ \<Rightarrow> []))"

definition liminal_ops ::
    "(nat \<Rightarrow> bool) \<Rightarrow> (json \<Rightarrow> string result) \<Rightarrow> liminal store_ops" where
  "liminal_ops net ser =
     \<lparr>st_upsert_seed = \<lambda>s. send_impulse net ser (lim_upsert_payload s),
      st_create_run = \<lambda>run_id seed_id start_ts.
        send_impulse net ser (lim_create_payload run_id seed_id start_ts),
      st_append_event = \<lambda>run_id event. send_impulse net ser (lim_event_payload run_id event),
      st_update_run_status = \<lambda>run_id status end_ts.
        send_impulse net ser (lim_status_payload run_id status end_ts),
      st_append_metrics = default_append_metrics\<rparr>"

fun lim_payload :: "store_call \<Rightarrow> json" where
  "lim_payload (UpsertSeed s) = lim_upsert_payload s"
| "lim_payload (CreateRun run_id seed_id start_ts) = lim_create_payload run_id seed_id start_ts"
| "lim_payload (AppendEvent run_id event) = lim_event_payload run_id event"
| "lim_payload (UpdateRunStatus run_id status end_ts) = lim_status_payload run_id status end_ts"

definition lim_enc :: "(json \<Rightarrow> string result) \<Rightarrow> store_call \<Rightarrow> string list" where
  "lim_enc ser c =
     (case encode_lifecycle_impulse ser (lim_payload c) of Inl e \<Rightarrow> [] | Inr text \<Rightarrow> [text])"

definition lim_journal :: "liminal \<Rightarrow> string list" where
  "lim_journal s = ls_sent s @ ls_pending s"

lemma store_do_liminal: "store_do (liminal_ops net ser) c = send_impulse net ser (lim_payload c)"
  by (cases c) (simp_all add: liminal_ops_def)

section \<open>The flush\<close>

lemma flush_loop_ok: "ls_socket s \<Longrightarrow> fst (flush_loop net s) = Inr ()"
  by (induction net s rule: flush_loop.induct) (subst flush_loop.simps, auto split: list.splits simp: Let_def)

lemma flush_loop_journal: "lim_journal (snd (flush_loop net s)) = lim_journal s"
  by (induction net s rule: flush_loop.induct)
    (subst flush_loop.simps, auto split: list.splits simp: Let_def lim_journal_def)

lemma flush_loop_length: "length (ls_pending (snd (flush_loop net s))) \<le> length (ls_pending s)"
proof (induction net s rule: flush_loop.induct)
  case (1 net s)
  show ?case
  proof (cases "ls_pending s")
    case Nil
    then show ?thesis by (subst flush_loop.simps) simp
  next
    case (Cons t rest)
    then show ?thesis
      using "1.IH" [OF Cons] by (subst flush_loop.simps) (auto simp: Let_def)
  qed
qed

lemma flush_loop_drains:
  "ls_socket s \<Longrightarrow> (\<And>n. ls_ops s \<le> n \<Longrightarrow> net n) \<Longrightarrow> ls_pending (snd (flush_loop net s)) = []"
proof (induction net s rule: flush_loop.induct)
  case (1 net s)
  show ?case
  proof (cases "ls_pending s")
    case Nil
    then show ?thesis by (subst flush_loop.simps) simp
  next
    case (Cons t rest)
    then show ?thesis
      using "1.IH" [OF Cons] "1.prems" by (subst flush_loop.simps) (simp add: Let_def)
  qed
qed

lemma flush_pending_ok: "fst (flush_pending net s) = Inr ()"
  by (auto simp: flush_pending_def Let_def flush_loop_ok)

lemma flush_pending_journal: "lim_journal (snd (flush_pending net s)) = lim_journal s"
  by (auto simp: flush_pending_def Let_def flush_loop_journal) (auto simp: lim_journal_def)

lemma flush_pending_length: "length (ls_pending (snd (flush_pending net s))) \<le> length (ls_pending s)"
  using flush_loop_length [of net s] flush_loop_length [of net "s\<lparr>ls_ops := Suc (ls_ops s), ls_socket := True\<rparr>"]
  by (auto simp: flush_pending_def Let_def)

lemma flush_pending_drains:
  "(\<And>n. ls_ops s \<le> n \<Longrightarrow> net n) \<Longrightarrow> ls_pending (snd (flush_pending net s)) = []"
  using flush_loop_drains [of s net]
    flush_loop_drains [of "s\<lparr>ls_ops := Suc (ls_ops s), ls_socket := True\<rparr>" net]
  by (auto simp: flush_pending_def Let_def)

lemma send_impulse_accepts:
  "send_impulse net ser j s = (Inr u, s') \<longleftrightarrow>
     length (ls_pending s) < max_pending_impulses \<and>
     (\<exists>text. encode_lifecycle_impulse ser j = Inr text \<and>
        s' = snd (flush_pending net (s\<lparr>ls_pending := ls_pending s @ [text]\<rparr>)))"
  using flush_pending_ok
  by (auto simp: send_impulse_def prod_eq_iff split: sum.splits)

lemma send_impulse_refuses: "send_impulse net ser j s = (Inl e, s') \<Longrightarrow> s' = s"
  using flush_pending_ok [of net]
  by (auto simp: send_impulse_def prod_eq_iff split: sum.splits if_splits)

interpretation lim: audit_store "liminal_ops net ser" lim_journal "lim_enc ser"
  for net :: "nat \<Rightarrow> bool" and ser :: "json \<Rightarrow> string result"
proof unfold_locales
  fix c s u s'
  assume "store_do (liminal_ops net ser) c s = (Inr u, s')"
  then show "lim_journal s' = lim_journal s @ lim_enc ser c"
    by (auto simp: store_do_liminal send_impulse_accepts flush_pending_journal lim_enc_def)
      (simp add: lim_journal_def)
next
  fix c s e s'
  assume "store_do (liminal_ops net ser) c s = (Inl e, s')"
  then show "lim_journal s' = lim_journal s"
    by (auto simp: store_do_liminal dest: send_impulse_refuses)
qed

section \<open>Properties\<close>

lemma store_run_invariant:
  assumes "\<And>c s. P s \<Longrightarrow> P (snd (store_do ops c s))" "P s"
  shows "P (snd (store_run ops cs s))"
  using assms(2)
proof (induction cs arbitrary: s)
  case (Cons c cs)
  show ?case
    using Cons.IH [of "snd (store_do ops c s)"] assms(1) [OF Cons.prems, of c]
    by (cases "store_do ops c s"; cases "fst (store_do ops c s)") (auto split: prod.splits)
qed simp

lemma capacity_step:
  assumes "length (ls_pending s) \<le> max_pending_impulses"
  shows "length (ls_pending (snd (store_do (liminal_ops net ser) c s))) \<le> max_pending_impulses"
proof (cases "store_do (liminal_ops net ser) c s")
  case (Pair r s')
  then show ?thesis
  proof (cases r)
    case (Inr u)
    then obtain frm where "length (ls_pending s) < max_pending_impulses"
      and "s' = snd (flush_pending net (s\<lparr>ls_pending := ls_pending s @ [frm]\<rparr>))"
      using Pair by (auto simp: store_do_liminal send_impulse_accepts)
    then show ?thesis
      using Pair flush_pending_length [of net "s\<lparr>ls_pending := ls_pending s @ [frm]\<rparr>"] by simp
  next
    case (Inl e)
    then show ?thesis
      using assms Pair send_impulse_refuses [of net ser "lim_payload c" s e s']
      by (simp add: store_do_liminal)
  qed
qed

text \<open>C20: Whatever the network does and whatever is called, the frames written to the socket followed
  by those still in the outbox are the frames of exactly the accepted calls, in call order: nothing
  accepted is lost, duplicated or reordered. The outbox never holds more than 1024 frames.\<close>
theorem liminal_audit_trail:
  "(let (acc, s) = store_run (liminal_ops net ser) cs (with_url net url n)
    in ls_sent s @ ls_pending s = concat (map (lim_enc ser) acc) \<and> subseq acc cs \<and>
       length (ls_pending s) \<le> max_pending_impulses)"
proof -
  obtain acc s where r: "store_run (liminal_ops net ser) cs (with_url net url n) = (acc, s)" by fastforce
  have "length (ls_pending (snd (store_run (liminal_ops net ser) cs (with_url net url n)))) \<le> max_pending_impulses"
    by (rule store_run_invariant, rule capacity_step) (simp_all add: with_url_def)
  with r lim.journal_run [OF r] lim.run_accepts_subsequence [OF r] show ?thesis
    by (simp add: lim_journal_def with_url_def)
qed

text \<open>A store call is refused exactly when its record cannot be serialized or the outbox is full;
  a refused call changes nothing, and an accepted one reports success although its frame may still
  be in the outbox.\<close>
theorem liminal_refusal:
  "is_ok (fst (store_do (liminal_ops net ser) c s)) \<longleftrightarrow>
     is_ok (encode_lifecycle_impulse ser (lim_payload c)) \<and>
     length (ls_pending s) < max_pending_impulses"
  by (auto simp: store_do_liminal send_impulse_def is_ok_iff flush_pending_ok split: sum.splits)

lemma liminal_refused_when_full:
  "max_pending_impulses \<le> length (ls_pending s) \<Longrightarrow>
     store_do (liminal_ops net ser) c s = (r, s') \<Longrightarrow> \<not> is_ok r \<and> s' = s"
  by (auto simp: store_do_liminal send_impulse_def split: sum.splits)

text \<open>C29: When every operation of the network succeeds from here on, an accepted call empties the
  outbox: all queued frames are on the socket, oldest first, this call's frame last.\<close>
theorem liminal_drains:
  assumes "\<And>n. ls_ops s \<le> n \<Longrightarrow> net n"
    and "store_do (liminal_ops net ser) c s = (Inr u, s')"
  shows "ls_pending s' = [] \<and> ls_sent s' = ls_sent s @ ls_pending s @ lim_enc ser c"
proof -
  obtain frm where "encode_lifecycle_impulse ser (lim_payload c) = Inr frm"
    and s': "s' = snd (flush_pending net (s\<lparr>ls_pending := ls_pending s @ [frm]\<rparr>))"
    using assms(2) by (auto simp: store_do_liminal send_impulse_accepts)
  then have "ls_pending s' = []"
    using assms(1) by (auto intro: flush_pending_drains)
  with lim.accepted [OF assms(2)] show ?thesis by (simp add: lim_journal_def)
qed

theorem liminal_drains_witness:
  "\<exists>u s'. store_do (liminal_ops (\<lambda>n. 0 < n) (\<lambda>_. Inr ''x'')) (CreateRun ''r'' ''s'' ''t'')
       \<lparr>ls_socket = False, ls_pending = [''old''], ls_sent = [], ls_ops = 1, ls_url = default_liminal_url\<rparr> = (Inr u, s') \<and>
     ls_sent s' = [''old'', ''x'']"
proof -
  let ?s = "\<lparr>ls_socket = False, ls_pending = [''old''], ls_sent = [], ls_ops = 1, ls_url = default_liminal_url\<rparr>"
  let ?do = "store_do (liminal_ops (\<lambda>n. 0 < n) (\<lambda>_. Inr ''x'')) (CreateRun ''r'' ''s'' ''t'') ?s"
  have "is_ok (fst ?do)"
    by (simp del: store_do.simps
        add: store_do_liminal send_impulse_def encode_lifecycle_impulse_def flush_pending_ok
        max_pending_impulses_def)
  then obtain u s' where d: "?do = (Inr u, s')" by (cases ?do) (auto simp: is_ok_iff)
  from liminal_drains [OF _ d] show ?thesis
    using d by (simp add: lim_enc_def encode_lifecycle_impulse_def)
qed

text \<open>C30: A full outbox is never left: the capacity check comes before the flush, so every further call
  is refused without touching the network, even when the server is back.\<close>
theorem liminal_full_outbox_is_permanent:
  assumes "max_pending_impulses \<le> length (ls_pending s)"
  shows "store_run (liminal_ops net ser) cs s = ([], s)"
proof (induction cs)
  case (Cons c cs)
  obtain r s' where d: "store_do (liminal_ops net ser) c s = (r, s')" by fastforce
  with liminal_refused_when_full [OF assms d] Cons show ?case by (cases r) auto
qed simp

theorem liminal_full_outbox_is_permanent_witness:
  "store_run (liminal_ops (\<lambda>_. True) (\<lambda>_. Inr [])) [CreateRun ''r'' ''s'' ''t'']
       \<lparr>ls_socket = True, ls_pending = replicate 1024 ''x'', ls_sent = [], ls_ops = 0, ls_url = default_liminal_url\<rparr> =
     ([], \<lparr>ls_socket = True, ls_pending = replicate 1024 ''x'', ls_sent = [], ls_ops = 0, ls_url = default_liminal_url\<rparr>)"
  by (rule liminal_full_outbox_is_permanent) (simp add: max_pending_impulses_def)

text \<open>The decoder of the test module: the pattern without its prefix is the lifecycle record.\<close>

definition decode_lifecycle_frame :: "(string \<Rightarrow> json option) \<Rightarrow> string \<Rightarrow> json option" where
  "decode_lifecycle_frame de frame =
     Option.bind (de frame) (\<lambda>j. Option.bind (json_get ''data'' j) (\<lambda>d.
       Option.bind (Option.bind (json_get ''pattern'' d) json_as_str) (\<lambda>p.
         Option.bind (strip_prefix lifecycle_pattern_prefix p) de)))"

text \<open>The lifecycle record is recovered from its frame without loss, for any JSON library whose
  parser inverts its printer.\<close>
theorem lifecycle_frame_roundtrip:
  assumes "\<And>j t. ser j = Inr t \<Longrightarrow> de t = Some j"
    and "encode_lifecycle_impulse ser data = Inr frame"
  shows "decode_lifecycle_frame de frame = Some data"
  using assms by (auto simp: encode_lifecycle_impulse_def decode_lifecycle_frame_def)

text \<open>A JSON library that knows two values, a record and the frame made from its text.\<close>

definition demo_frame :: json where
  "demo_frame = jobj
     [(''cmd'', JStr ''impulse''),
      (''data'', jobj
        [(''pattern'', JStr ''garden.lifecycle.v1:7''), (''strength'', lifecycle_strength),
         (''ttl_ms'', JInt lifecycle_ttl_ms), (''kind'', JStr ''write''),
         (''tags'', JArr [JStr ''garden'', JStr ''lifecycle'', JStr ''unknown''])])]"

definition demo_ser :: "json \<Rightarrow> string result" where
  "demo_ser j = (if j = JInt 7 then Inr ''7'' else if j = demo_frame then Inr ''frame'' else bail ''json'')"

definition demo_de :: "string \<Rightarrow> json option" where
  "demo_de t = (if t = ''7'' then Some (JInt 7) else if t = ''frame'' then Some demo_frame else None)"

theorem lifecycle_frame_roundtrip_witness:
  "encode_lifecycle_impulse demo_ser (JInt 7) = Inr ''frame'' \<and>
   decode_lifecycle_frame demo_de ''frame'' = Some (JInt 7)"
proof -
  have "\<And>j t. demo_ser j = Inr t \<Longrightarrow> demo_de t = Some j"
    by (auto simp: demo_ser_def demo_de_def split: if_splits)
  moreover have "encode_lifecycle_impulse demo_ser (JInt 7) = Inr ''frame''"
  proof -
    have low: "to_ascii_lowercase ''UNKNOWN'' = ''unknown''" by code_simp
    have ne: "demo_frame \<noteq> JInt 7" by (simp add: demo_frame_def jobj_def)
    show ?thesis
      unfolding encode_lifecycle_impulse_def lifecycle_pattern_prefix_def
      using ne by (simp add: demo_ser_def low demo_frame_def [symmetric])
  qed
  ultimately show ?thesis
    using lifecycle_frame_roundtrip [of demo_ser demo_de "JInt 7" "''frame''"] by simp
qed

end
