(* ===== verification/Stores.thy ===== *)
theory Stores
  imports Store_Memory Store_Liminal
begin

text \<open>
  The store behind the trait object, \<open>StoreKind::create\<close> of \<open>src/store/mod.rs\<close>: a value of one of the two
  implementations, every call dispatched to its own. What both promise of their journals holds of whichever
  store a kind names.
\<close>

datatype any_store = InMemory mem_store | OnLiminal liminal

definition store_create :: "(nat \<Rightarrow> bool) \<Rightarrow> nat \<Rightarrow> store_kind \<Rightarrow> any_store" where
  "store_create net n kind =
     (case kind of MemoryKind \<Rightarrow> InMemory mem_new | LiminalKind \<Rightarrow> OnLiminal (liminal_new net n))"

text \<open>A method call on the trait object.\<close>

fun dispatch :: "(mem_store, 'a) io \<Rightarrow> (liminal, 'a) io \<Rightarrow> (any_store, 'a) io" where
  "dispatch m l (InMemory s) = (case m s of (r, s') \<Rightarrow> (r, InMemory s'))"
| "dispatch m l (OnLiminal s) = (case l s of (r, s') \<Rightarrow> (r, OnLiminal s'))"

definition dyn_ops :: "(nat \<Rightarrow> bool) \<Rightarrow> (json \<Rightarrow> string result) \<Rightarrow> any_store store_ops" where
  "dyn_ops net ser =
     \<lparr>st_upsert_seed = (\<lambda>r. dispatch (st_upsert_seed (mem_ops ser) r) (st_upsert_seed (liminal_ops net ser) r)),
      st_create_run = (\<lambda>run_id seed_id ts. dispatch (st_create_run (mem_ops ser) run_id seed_id ts)
        (st_create_run (liminal_ops net ser) run_id seed_id ts)),
      st_append_event = (\<lambda>run_id e. dispatch (st_append_event (mem_ops ser) run_id e)
        (st_append_event (liminal_ops net ser) run_id e)),
      st_update_run_status = (\<lambda>run_id status ts. dispatch (st_update_run_status (mem_ops ser) run_id status ts)
        (st_update_run_status (liminal_ops net ser) run_id status ts)),
      st_append_metrics = (\<lambda>run_id container m. dispatch (st_append_metrics (mem_ops ser) run_id container m)
        (st_append_metrics (liminal_ops net ser) run_id container m))\<rparr>"

lemma dyn_do: "store_do (dyn_ops net ser) c = dispatch (store_do (mem_ops ser) c) (store_do (liminal_ops net ser) c)"
  by (cases c) (simp_all add: dyn_ops_def)

fun dyn_journal :: "any_store \<Rightarrow> string list" where
  "dyn_journal (InMemory s) = ms_stdout s"
| "dyn_journal (OnLiminal s) = lim_journal s"

fun dyn_enc :: "(json \<Rightarrow> string result) \<Rightarrow> store_kind \<Rightarrow> store_call \<Rightarrow> string list" where
  "dyn_enc ser MemoryKind = mem_enc ser"
| "dyn_enc ser LiminalKind = lim_enc ser"

lemma run_memory:
  "store_run (dyn_ops net ser) cs (InMemory s) = map_prod id InMemory (store_run (mem_ops ser) cs s)"
  by (induction cs arbitrary: s) (auto simp: dyn_do split: prod.splits sum.splits)

lemma run_liminal:
  "store_run (dyn_ops net ser) cs (OnLiminal s) = map_prod id OnLiminal (store_run (liminal_ops net ser) cs s)"
  by (induction cs arbitrary: s) (auto simp: dyn_do split: prod.splits sum.splits)

text \<open>Whichever store a kind names, the records it has written or queued since it was created are those of
  exactly the calls it accepted, in the order of the calls, whatever the network does.\<close>
theorem created_store_journal:
  "(let (acc, s) = store_run (dyn_ops net ser) cs (store_create net n kind)
    in dyn_journal s = concat (map (dyn_enc ser kind) acc) \<and> subseq acc cs)"
proof (cases kind)
  case MemoryKind
  obtain acc s where r: "store_run (mem_ops ser) cs mem_new = (acc, s)" by fastforce
  from mem.journal_run [OF r] mem.run_accepts_subsequence [OF r] r MemoryKind show ?thesis
    by (simp add: store_create_def run_memory mem_new_def)
next
  case LiminalKind
  obtain acc s where r: "store_run (liminal_ops net ser) cs (liminal_new net n) = (acc, s)" by fastforce
  from lim.journal_run [OF r] lim.run_accepts_subsequence [OF r] r LiminalKind show ?thesis
    by (simp add: store_create_def run_liminal liminal_new_def with_url_def lim_journal_def)
qed

end
