(* ===== verification/Ipam.thy ===== *)
theory Ipam
  imports Rust_Str
begin

text \<open>
  The address allocator of \<open>src/isolate/net.rs\<close>: two cursors of one byte each over the pool
  \<open>10.44.S.H\<close> and the set of addresses in use. The loop of \<open>allocate\<close> terminates because every round
  moves the cursors forward; \<open>+=\<close> on a byte is addition on \<open>8 word\<close>.

  Lemmas: an address handed out was free; over any sequence of calls on a fresh allocator the k-th
  allocation is the k-th address of the pool, so nothing is handed out twice and nothing released
  ever comes back.
\<close>

record ip_allocator =
  ia_allocated :: "string set"
  ia_next_subnet :: u8
  ia_next_host :: u8

definition ip_new :: ip_allocator where
  "ip_new = \<lparr>ia_allocated = {}, ia_next_subnet = 1, ia_next_host = 10\<rparr>"

definition ip_text :: "nat \<Rightarrow> nat \<Rightarrow> string" where
  "ip_text s h = ''10.44.'' @ show_nat s @ ''.'' @ show_nat h"

definition pool_exhausted :: string where
  "pool_exhausted = ''IP pool exhausted (all subnets used)''"

lemma byte_succ: "x < y \<Longrightarrow> unat (x + 1) = Suc (unat x)" for x y :: u8
proof -
  assume "x < y"
  then have "unat x < unat y" by (simp add: word_less_nat_alt)
  moreover have "unat y < 256" using unsigned_less [of y] by simp
  ultimately show ?thesis by (simp add: unat_word_ariths)
qed

text \<open>The name of the pod is only logged.\<close>

function ip_allocate :: "string \<Rightarrow> (ip_allocator, string) io" where
  "ip_allocate pod_id a =
     (if 255 \<le> ia_next_subnet a then (bail pool_exhausted, a)
      else if 254 \<le> ia_next_host a
      then ip_allocate pod_id (a\<lparr>ia_next_subnet := ia_next_subnet a + 1, ia_next_host := 10\<rparr>)
      else
        let ip = ip_text (unat (ia_next_subnet a)) (unat (ia_next_host a));
            a1 = a\<lparr>ia_next_host := ia_next_host a + 1\<rparr>
        in if ip \<notin> ia_allocated a1 then (Inr ip, a1\<lparr>ia_allocated := insert ip (ia_allocated a1)\<rparr>)
           else ip_allocate pod_id a1)"
  by pat_completeness auto

termination
proof (relation "measure (\<lambda>(pod_id, a). (255 - unat (ia_next_subnet a)) * 256 + (255 - unat (ia_next_host a)))")
  fix pod_id :: string and a :: ip_allocator
  assume "\<not> 255 \<le> ia_next_subnet a"
  then have s: "ia_next_subnet a < 255" by simp
  then have u: "unat (ia_next_subnet a) < 255" by (simp add: word_less_nat_alt)
  show "((pod_id, a\<lparr>ia_next_subnet := ia_next_subnet a + 1, ia_next_host := 10\<rparr>), (pod_id, a)) \<in>
      measure (\<lambda>(pod_id, a). (255 - unat (ia_next_subnet a)) * 256 + (255 - unat (ia_next_host a)))"
    using byte_succ [OF s] u by (simp add: diff_mult_distrib)
next
  fix pod_id :: string and a :: ip_allocator and ip a1
  assume "\<not> 254 \<le> ia_next_host a" and a1: "a1 = a\<lparr>ia_next_host := ia_next_host a + 1\<rparr>"
  then have h: "ia_next_host a < 254" by simp
  then have u: "unat (ia_next_host a) < 254" by (simp add: word_less_nat_alt)
  show "((pod_id, a1), (pod_id, a)) \<in>
      measure (\<lambda>(pod_id, a). (255 - unat (ia_next_subnet a)) * 256 + (255 - unat (ia_next_host a)))"
    using byte_succ [OF h] u by (simp add: a1)
qed simp

declare ip_allocate.simps [simp del]

definition ip_release :: "string \<Rightarrow> (ip_allocator, unit) io" where
  "ip_release ip a = (Inr (), a\<lparr>ia_allocated := ia_allocated a - {ip}\<rparr>)"

definition allocated_count :: "ip_allocator \<Rightarrow> nat" where
  "allocated_count a = card (ia_allocated a)"

definition is_allocated :: "ip_allocator \<Rightarrow> string \<Rightarrow> bool" where
  "is_allocated a ip \<longleftrightarrow> ip \<in> ia_allocated a"

section \<open>The pool\<close>

definition pool_size :: nat where
  "pool_size = 254 * 244"

definition pool_at :: "nat \<Rightarrow> string" where
  "pool_at k = ip_text (1 + k div 244) (10 + k mod 244)"

lemma ip_text_inj: "ip_text s h = ip_text s' h' \<longleftrightarrow> s = s' \<and> h = h'"
proof
  assume eq: "ip_text s h = ip_text s' h'"
  have dot: "CHR ''.'' \<notin> set (show_nat n)" for n
    by (rule show_nat_no) code_simp
  have d: "takeWhile (\<lambda>c. c \<noteq> CHR ''.'') (show_nat n @ ''.'' @ xs) = show_nat n"
    "dropWhile (\<lambda>c. c \<noteq> CHR ''.'') (show_nat n @ ''.'' @ xs) = ''.'' @ xs" for n xs
    using dot [of n] by (auto simp: takeWhile_append dropWhile_append)
  from eq have e: "show_nat s @ ''.'' @ show_nat h = show_nat s' @ ''.'' @ show_nat h'"
    by (simp add: ip_text_def)
  from arg_cong [OF e, of "takeWhile (\<lambda>c. c \<noteq> CHR ''.'')"] have "show_nat s = show_nat s'" by (simp only: d)
  moreover from arg_cong [OF e, of "dropWhile (\<lambda>c. c \<noteq> CHR ''.'')"] have "show_nat h = show_nat h'"
    by (simp only: d) simp
  ultimately show "s = s' \<and> h = h'" using show_nat_inj by blast
qed simp

lemma pool_at_inj: "pool_at j = pool_at k \<longleftrightarrow> j = k"
proof
  assume "pool_at j = pool_at k"
  then have "j div 244 = k div 244" "j mod 244 = k mod 244" by (auto simp: pool_at_def ip_text_inj)
  then show "j = k" by (metis div_mult_mod_eq)
qed simp

text \<open>The two cursors as one position in the pool; everything handed out lies before it.\<close>

definition at_position :: "nat \<Rightarrow> ip_allocator \<Rightarrow> bool" where
  "at_position k a \<longleftrightarrow>
     1 \<le> unat (ia_next_subnet a) \<and> unat (ia_next_subnet a) \<le> 255 \<and>
     10 \<le> unat (ia_next_host a) \<and> unat (ia_next_host a) \<le> 254 \<and>
     (unat (ia_next_subnet a) = 255 \<longrightarrow> unat (ia_next_host a) = 10) \<and>
     k = (unat (ia_next_subnet a) - 1) * 244 + (unat (ia_next_host a) - 10) \<and>
     ia_allocated a \<subseteq> pool_at ` {..<k}"

lemma at_position_new: "at_position 0 ip_new"
  by (simp add: at_position_def ip_new_def)

lemma position_text:
  assumes "at_position k a" "ia_next_subnet a < 255" "ia_next_host a < 254"
  shows "ip_text (unat (ia_next_subnet a)) (unat (ia_next_host a)) = pool_at k \<and> k < pool_size"
proof -
  define s h where "s = unat (ia_next_subnet a)" and "h = unat (ia_next_host a)"
  have b: "1 \<le> s" "s < 255" "10 \<le> h" "h < 254" "k = (s - 1) * 244 + (h - 10)"
    using assms by (auto simp: at_position_def word_less_nat_alt s_def h_def)
  then obtain q r where "s = Suc q" "h = 10 + r" "r < 244" by (auto simp: le_iff_add)
  then have "k div 244 = s - 1" "k mod 244 = h - 10" using b by simp_all
  moreover have "k < pool_size"
  proof -
    have "(s - 1) * 244 \<le> 253 * 244" using b by (intro mult_right_mono) auto
    then show ?thesis using b by (simp add: pool_size_def)
  qed
  moreover have "1 + (s - 1) = s" "10 + (h - 10) = h" using b by simp_all
  ultimately show ?thesis unfolding pool_at_def s_def [symmetric] h_def [symmetric] by metis
qed

lemma allocate_at_host:
  assumes "at_position k a" "ia_next_subnet a < 255" "ia_next_host a < 254"
  shows "\<exists>a'. ip_allocate pod a = (Inr (pool_at k), a') \<and> at_position (Suc k) a' \<and>
     ia_allocated a' = insert (pool_at k) (ia_allocated a)"
proof -
  let ?a = "a\<lparr>ia_next_host := ia_next_host a + 1, ia_allocated := insert (pool_at k) (ia_allocated a)\<rparr>"
  from position_text [OF assms] have t: "ip_text (unat (ia_next_subnet a)) (unat (ia_next_host a)) = pool_at k"
    by simp
  have "pool_at k \<notin> ia_allocated a" using assms(1) by (auto simp: at_position_def pool_at_inj)
  moreover have "\<not> 255 \<le> ia_next_subnet a" "\<not> 254 \<le> ia_next_host a" using assms(2,3) by simp_all
  ultimately have "ip_allocate pod a = (Inr (pool_at k), ?a)"
    using t by (simp add: ip_allocate.simps [of pod a] Let_def)
  moreover have "at_position (Suc k) ?a"
    using assms byte_succ [OF assms(3)] by (auto simp: at_position_def lessThan_Suc word_less_nat_alt)
  ultimately show ?thesis by auto
qed

lemma next_subnet:
  assumes "at_position k a" "ia_next_subnet a < 255" "\<not> ia_next_host a < 254"
  shows "at_position k (a\<lparr>ia_next_subnet := ia_next_subnet a + 1, ia_next_host := 10\<rparr>)"
proof -
  define s where "s = unat (ia_next_subnet a)"
  have "unat (ia_next_host a) = 254" "1 \<le> s" "s < 255"
    using assms by (auto simp: at_position_def word_less_nat_alt s_def)
  moreover have "unat (ia_next_subnet a + 1) = Suc s" using byte_succ [OF assms(2)] by (simp add: s_def)
  moreover have "(s - 1) * 244 + 244 = s * 244" using \<open>1 \<le> s\<close> by (cases s) auto
  ultimately show ?thesis using assms(1) by (auto simp: at_position_def s_def)
qed

lemma allocate_position:
  assumes "at_position k a"
  shows "\<exists>a'. at_position (if k < pool_size then Suc k else k) a' \<and>
     ip_allocate pod a = (if k < pool_size then Inr (pool_at k) else bail pool_exhausted, a')"
proof (cases "ia_next_subnet a < 255")
  case s: True
  show ?thesis
  proof (cases "ia_next_host a < 254")
    case True
    from allocate_at_host [OF assms s True] position_text [OF assms s True] show ?thesis by auto
  next
    case False
    let ?a = "a\<lparr>ia_next_subnet := ia_next_subnet a + 1, ia_next_host := 10\<rparr>"
    have "\<not> 255 \<le> ia_next_subnet a" "254 \<le> ia_next_host a" using s False by simp_all
    then have step: "ip_allocate pod a = ip_allocate pod ?a" by (simp add: ip_allocate.simps [of pod a])
    note p = next_subnet [OF assms s False]
    show ?thesis
    proof (cases "ia_next_subnet ?a < 255")
      case True
      have h: "ia_next_host ?a < 254" by simp
      from allocate_at_host [OF p True h] position_text [OF p True h] step show ?thesis by auto
    next
      case last: False
      then have "unat (ia_next_subnet ?a) = 255" using p by (auto simp: at_position_def word_less_nat_alt)
      then have "k = pool_size" using p by (auto simp: at_position_def pool_size_def)
      moreover have "255 \<le> ia_next_subnet ?a" using last by simp
      then have "ip_allocate pod ?a = (bail pool_exhausted, ?a)" by (simp add: ip_allocate.simps [of pod ?a])
      ultimately show ?thesis using p step by auto
    qed
  qed
next
  case False
  then have "unat (ia_next_subnet a) = 255" using assms by (auto simp: at_position_def word_less_nat_alt)
  then have "k = pool_size" using assms by (auto simp: at_position_def pool_size_def)
  moreover have "255 \<le> ia_next_subnet a" using False by simp
  then have "ip_allocate pod a = (bail pool_exhausted, a)" by (simp add: ip_allocate.simps [of pod a])
  ultimately show ?thesis using assms by auto
qed

section \<open>Properties\<close>

datatype ip_op = Allocate string | Release string

text \<open>The results of the allocations of a sequence of calls.\<close>

fun ip_run :: "ip_op list \<Rightarrow> ip_allocator \<Rightarrow> string result list" where
  "ip_run [] a = []"
| "ip_run (Allocate pod_id # ops) a = (case ip_allocate pod_id a of (r, a') \<Rightarrow> r # ip_run ops a')"
| "ip_run (Release ip # ops) a = (case ip_release ip a of (_, a') \<Rightarrow> ip_run ops a')"

fun allocations :: "ip_op list \<Rightarrow> nat" where
  "allocations [] = 0"
| "allocations (Allocate pod_id # ops) = Suc (allocations ops)"
| "allocations (Release ip # ops) = allocations ops"

definition pool_result :: "nat \<Rightarrow> string result" where
  "pool_result k = (if k < pool_size then Inr (pool_at k) else bail pool_exhausted)"

lemma ip_run_position:
  "at_position (min k pool_size) a \<Longrightarrow> ip_run ops a = map pool_result [k ..< k + allocations ops]"
proof (induction ops arbitrary: k a)
  case (Cons c ops)
  show ?case
  proof (cases c)
    case (Allocate pod)
    from allocate_position [OF Cons.prems, of pod] obtain a' where
      a': "at_position (min (Suc k) pool_size) a'" "ip_allocate pod a = (pool_result k, a')"
      by (auto simp: pool_result_def min_def split: if_splits)
    from Cons.IH [OF a'(1)] show ?thesis by (simp add: Allocate a'(2) upt_rec [of k])
  next
    case (Release ip)
    have "at_position (min k pool_size) (a\<lparr>ia_allocated := ia_allocated a - {ip}\<rparr>)"
      using Cons.prems by (auto simp: at_position_def)
    from Cons.IH [OF this] show ?thesis by (simp add: Release ip_release_def)
  qed
qed simp

lemma pool_distinct: "distinct (map pool_at [0 ..< n])"
  by (simp add: distinct_map inj_on_def pool_at_inj)

text \<open>C31: On a fresh allocator, whatever is released in between, the k-th allocation is the k-th address
  of the pool and every allocation after the last address is refused: 61976 addresses, all
  different, none handed out twice, none that was released ever handed out again.\<close>
theorem ipam_sequence:
  "ip_run ops ip_new = map pool_result [0 ..< allocations ops] \<and> pool_size = 61976 \<and>
   distinct (map pool_at [0 ..< pool_size])"
  using ip_run_position [of 0 ip_new ops] at_position_new pool_distinct by (simp add: pool_size_def)

text \<open>From any state, reachable or not, an allocation that succeeds returns an address that was not in
  use, marks exactly it, and releasing it gives back the addresses in use before.\<close>
theorem allocate_fresh:
  assumes "ip_allocate pod a = (Inr ip, a')"
  shows "\<not> is_allocated a ip \<and> ia_allocated a' = insert ip (ia_allocated a) \<and>
    ia_allocated (snd (ip_release ip a')) = ia_allocated a"
  using assms
proof (induction pod a rule: ip_allocate.induct)
  case (1 pod a)
  then show ?case
    by (subst (asm) (3) ip_allocate.simps) (auto simp: Let_def is_allocated_def ip_release_def split: if_splits)
qed

theorem allocate_fresh_witness:
  "\<not> is_allocated ip_new ''10.44.1.10'' \<and>
   ia_allocated (snd (ip_allocate ''pod'' ip_new)) = insert ''10.44.1.10'' (ia_allocated ip_new)"
proof -
  have "fst (ip_allocate ''pod'' ip_new) = Inr ''10.44.1.10''" by code_simp
  then have "ip_allocate ''pod'' ip_new = (Inr ''10.44.1.10'', snd (ip_allocate ''pod'' ip_new))"
    by (simp add: prod_eq_iff)
  from allocate_fresh [OF this] show ?thesis by simp
qed

end
