(* ===== verification/Network.thy ===== *)
theory Network
  imports Sys Ipam
begin

text \<open>
  The host network of \<open>src/isolate/net.rs\<close>, driven through the \<open>ip\<close> command: bridge, network
  namespaces, veth pairs, addresses and routes. A command is one call with its whole argument list;
  its reply is the success flag and the text of its standard error.

  Text is the bytes of UTF-8, so a slice of a name is a slice of bytes and panics inside a character.

  Lemmas: what a successful setup has executed, in order; which commands each function can run at
  all; two names that share their first eight bytes share their host interface.
\<close>

section \<open>Text\<close>

fun debug_char :: "char \<Rightarrow> string" where
  "debug_char c =
     (if c = CHR 0x22 then [CHR 0x5C, CHR 0x22]
      else if c = CHR 0x5C then [CHR 0x5C, CHR 0x5C]
      else if c = CHR 0x0A then [CHR 0x5C, CHR ''n'']
      else if c = CHR 0x0D then [CHR 0x5C, CHR ''r'']
      else if c = CHR 0x09 then [CHR 0x5C, CHR ''t'']
      else [c])"

definition debug_str :: "string \<Rightarrow> string" where
  "debug_str s = [CHR 0x22] @ concat (map debug_char s) @ [CHR 0x22]"

definition debug_list :: "string list \<Rightarrow> string" where
  "debug_list ss = ''['' @ join '', '' (map debug_str ss) @ '']''"

definition continuation_byte :: "char \<Rightarrow> bool" where
  "continuation_byte c \<longleftrightarrow> CHR 0x80 \<le> c \<and> c \<le> CHR 0xBF"

text \<open>The slice \<open>s[..n]\<close>.\<close>

definition str_prefix :: "string \<Rightarrow> nat \<Rightarrow> string result" where
  "str_prefix s n =
     (if n = length s \<or> n < length s \<and> \<not> continuation_byte (s ! n) then Inr (take n s)
      else Inl (Panic ''byte index is not a char boundary''))"

section \<open>Commands\<close>

definition sys_output :: "env \<Rightarrow> string \<Rightarrow> string list \<Rightarrow> (history, bool \<times> string) io" where
  "sys_output env program args =
     io_bind (sys env (Pod (RunCommand program args))) (\<lambda>r.
     case r of ROutput success stderr \<Rightarrow> io_return (success, stderr) | _ \<Rightarrow> io_bail (os_error r))"

definition run_cmd :: "env \<Rightarrow> string \<Rightarrow> string list \<Rightarrow> (history, unit) io" where
  "run_cmd env program args =
     io_bind (io_ctx (''Failed to execute: '' @ program @ '' '' @ debug_list args) (sys_output env program args))
       (\<lambda>(success, stderr).
          if success then io_return ()
          else io_bail (''Command failed: '' @ program @ '' '' @ debug_list args @ [CHR 0x0A] @ ''Stderr: '' @ stderr))"

definition ip_cmd :: "env \<Rightarrow> string \<Rightarrow> string list \<Rightarrow> (history, unit) io" where
  "ip_cmd env what args = io_ctx what (run_cmd env ''ip'' args)"

section \<open>Bridge\<close>

definition bridge_name :: string where
  "bridge_name = ''gl0''"

definition bridge_ip :: string where
  "bridge_ip = ''10.44.0.1/16''"

definition default_subnet :: string where
  "default_subnet = ''10.44.0.0/16''"

definition bridge_exists :: "env \<Rightarrow> (history, bool) io" where
  "bridge_exists env =
     io_bind (io_ctx ''Failed to check bridge existence'' (sys_output env ''ip'' [''link'', ''show'', bridge_name]))
       (\<lambda>(success, _). io_return success)"

definition ensure_bridge :: "env \<Rightarrow> (history, unit) io" where
  "ensure_bridge env =
     io_bind (bridge_exists env) (\<lambda>present.
     if present then io_return ()
     else
       io_seq (ip_cmd env ''Failed to create bridge'' [''link'', ''add'', bridge_name, ''type'', ''bridge''])
       (io_seq (ip_cmd env ''Failed to bring bridge up'' [''link'', ''set'', bridge_name, ''up''])
         (ip_cmd env ''Failed to assign IP to bridge'' [''addr'', ''add'', bridge_ip, ''dev'', bridge_name])))"

record bridge_info =
  bi_name :: string
  bi_ip :: string
  bi_prefix_len :: u8

definition ensure_garden_bridge :: "env \<Rightarrow> (history, bridge_info) io" where
  "ensure_garden_bridge env =
     io_seq (ensure_bridge env)
       (let parts = split_on (CHR ''/'') bridge_ip in
        io_return \<lparr>bi_name = bridge_name, bi_ip = parts ! 0,
          bi_prefix_len =
            (if 1 < length parts
             then (case parse_uint (2 ^ 8) (parts ! 1) of Inr n \<Rightarrow> of_nat n | Inl _ \<Rightarrow> 16)
             else 16)\<rparr>)"

record ipam_stats =
  is_pool_cidr :: string
  is_allocated_count :: nat
  is_available_count :: nat

definition get_ipam_stats :: ipam_stats where
  "get_ipam_stats = \<lparr>is_pool_cidr = default_subnet, is_allocated_count = 0, is_available_count = 65000\<rparr>"

section \<open>Network namespaces\<close>

definition netns_path :: "string \<Rightarrow> string" where
  "netns_path name = ''/var/run/netns/'' @ name"

definition netns_exists :: "env \<Rightarrow> string \<Rightarrow> (history, bool) io" where
  "netns_exists env name = sys_exists env (netns_path name)"

definition create_netns :: "env \<Rightarrow> string \<Rightarrow> (history, unit) io" where
  "create_netns env name =
     io_bind (netns_exists env name) (\<lambda>present.
     if present then io_return ()
     else ip_cmd env ''Failed to create network namespace'' [''netns'', ''add'', name])"

definition delete_netns :: "env \<Rightarrow> string \<Rightarrow> (history, unit) io" where
  "delete_netns env name =
     io_bind (netns_exists env name) (\<lambda>present.
     if \<not> present then io_return ()
     else ip_cmd env ''Failed to delete network namespace'' [''netns'', ''del'', name])"

definition exec_in_netns :: "env \<Rightarrow> string \<Rightarrow> string \<Rightarrow> string list \<Rightarrow> (history, unit) io" where
  "exec_in_netns env netns cmd args =
     ip_cmd env (''Failed to execute command in netns '' @ netns) ([''netns'', ''exec'', netns, cmd] @ args)"

section \<open>Pod interfaces\<close>

definition veth_host_name :: "string \<Rightarrow> string result" where
  "veth_host_name container_name =
     res_bind (str_prefix container_name (min 8 (length container_name))) (\<lambda>p. Inr (''veth-'' @ p))"

definition setup_veth_pair :: "env \<Rightarrow> string \<Rightarrow> string \<Rightarrow> (history, string \<times> string) io" where
  "setup_veth_pair env container_name pod_netns =
     io_bind (io_lift (veth_host_name container_name)) (\<lambda>veth_host.
     let veth_pod = ''eth0'' in
     io_seq (ip_cmd env ''Failed to create veth pair''
       [''link'', ''add'', veth_host, ''type'', ''veth'', ''peer'', ''name'', veth_pod])
     (io_seq (ip_cmd env ''Failed to move veth to netns'' [''link'', ''set'', veth_pod, ''netns'', pod_netns])
     (io_seq (ip_cmd env ''Failed to attach veth to bridge'' [''link'', ''set'', veth_host, ''master'', bridge_name])
     (io_seq (ip_cmd env ''Failed to bring up host veth'' [''link'', ''set'', veth_host, ''up''])
       (io_return (veth_host, veth_pod))))))"

definition resolv_conf :: string where
  "resolv_conf = ''/etc/resolv.conf''"

definition nameserver_lines :: "string list \<Rightarrow> string" where
  "nameserver_lines dns_servers = concat (map (\<lambda>server. ''nameserver '' @ server @ [CHR 0x0A]) dns_servers)"

definition setup_dns :: "env \<Rightarrow> string list \<Rightarrow> (history, unit) io" where
  "setup_dns env dns_servers =
     io_ctx (''Failed to write '' @ resolv_conf)
       (sys_unit env (File (WriteFile resolv_conf (nameserver_lines dns_servers))))"

definition configure_pod_network :: "env \<Rightarrow> string \<Rightarrow> string list \<Rightarrow> (history, unit) io" where
  "configure_pod_network env pod_ip dns_servers =
     io_seq (ip_cmd env ''Failed to bring up loopback'' [''link'', ''set'', ''lo'', ''up''])
     (io_seq (ip_cmd env ''Failed to assign IP to eth0'' [''addr'', ''add'', pod_ip, ''dev'', ''eth0''])
     (io_seq (ip_cmd env ''Failed to bring up eth0'' [''link'', ''set'', ''eth0'', ''up''])
     (io_seq (ip_cmd env ''Failed to add default route'' [''route'', ''add'', ''default'', ''via'', ''10.44.0.1''])
       (setup_dns env dns_servers))))"

definition cleanup_veth :: "env \<Rightarrow> string \<Rightarrow> (history, unit) io" where
  "cleanup_veth env veth_name =
     io_bind (io_attempt (sys_output env ''ip'' [''link'', ''show'', veth_name])) (\<lambda>check.
     case check of
       Inr (True, _) \<Rightarrow> ip_cmd env (''Failed to delete veth '' @ veth_name) [''link'', ''del'', veth_name]
     | _ \<Rightarrow> io_return ())"

section \<open>Lemmas\<close>

lemma emits_sys_output [emits_intros]:
  "(\<And>r. P (Pod (RunCommand p as), r)) \<Longrightarrow> emits P (sys_output env p as)"
  unfolding sys_output_def by (auto intro!: emits_intros split: reply.splits)

lemma emits_ip_cmd [emits_intros]:
  "(\<And>r. P (Pod (RunCommand ''ip'' as), r)) \<Longrightarrow> emits P (ip_cmd env what as)"
  unfolding ip_cmd_def run_cmd_def by (auto intro!: emits_intros split: prod.splits)

lemma emits_ensure_bridge [emits_intros]:
  "(\<And>as r. P (Pod (RunCommand ''ip'' as), r)) \<Longrightarrow> emits P (ensure_bridge env)"
  unfolding ensure_bridge_def bridge_exists_def by (auto intro!: emits_intros split: prod.splits)

lemma emits_netns [emits_intros]:
  assumes "\<And>as r. P (Pod (RunCommand ''ip'' as), r)" "\<And>p r. P (File (PathExists p), r)"
  shows "emits P (create_netns env name)" "emits P (delete_netns env name)"
  unfolding create_netns_def delete_netns_def netns_exists_def by (intro emits_intros assms)+

lemma emits_veth [emits_intros]:
  "(\<And>as r. P (Pod (RunCommand ''ip'' as), r)) \<Longrightarrow> emits P (setup_veth_pair env n ns)"
  unfolding setup_veth_pair_def Let_def by (intro emits_intros)

lemma sys_output_ok:
  "sys_output env p as h = (Inr (ok, e), h') \<longleftrightarrow>
     env h (Pod (RunCommand p as)) = ROutput ok e \<and> h' = h @ [(Pod (RunCommand p as), ROutput ok e)]"
  by (auto simp: sys_output_def io_bind_ok sys_ok split: reply.splits)

definition succeeded :: "string list \<Rightarrow> call \<times> reply \<Rightarrow> bool" where
  "succeeded args e \<longleftrightarrow> (\<exists>out. e = (Pod (RunCommand ''ip'' args), ROutput True out))"

lemma must_ip_cmd: "must [succeeded as] (ip_cmd env what as)"
  by (auto simp: must_def ip_cmd_def run_cmd_def io_bind_ok sys_output_ok succeeded_def split: if_splits)

lemma take_min_length: "take (min n (length xs)) xs = take n xs"
  by (simp add: min_def)

lemma str_prefix_ok: "str_prefix s n = Inr t \<Longrightarrow> t = take n s"
  by (auto simp: str_prefix_def split: if_splits)

text \<open>The steps of a pod's interface, in the order the kernel needs them.\<close>

definition veth_steps :: "string \<Rightarrow> string \<Rightarrow> (call \<times> reply \<Rightarrow> bool) list" where
  "veth_steps host netns =
     [succeeded [''link'', ''add'', host, ''type'', ''veth'', ''peer'', ''name'', ''eth0''],
      succeeded [''link'', ''set'', ''eth0'', ''netns'', netns],
      succeeded [''link'', ''set'', host, ''master'', bridge_name],
      succeeded [''link'', ''set'', host, ''up'']]"

lemma veth_ok:
  assumes "setup_veth_pair env name netns h = (Inr (host, pod), h')"
  shows "host = ''veth-'' @ take 8 name \<and> pod = ''eth0'' \<and>
    (\<exists>t. h' = h @ t \<and> has_in_order (veth_steps host netns) t)"
proof -
  let ?tail = "\<lambda>host :: string. io_seq (ip_cmd env ''Failed to create veth pair''
       [''link'', ''add'', host, ''type'', ''veth'', ''peer'', ''name'', ''eth0''])
     (io_seq (ip_cmd env ''Failed to move veth to netns'' [''link'', ''set'', ''eth0'', ''netns'', netns])
     (io_seq (ip_cmd env ''Failed to attach veth to bridge'' [''link'', ''set'', host, ''master'', bridge_name])
     (io_seq (ip_cmd env ''Failed to bring up host veth'' [''link'', ''set'', host, ''up''])
       (io_return (host, ''eth0'')))))"
  have r: "must [] (io_return x)" for x :: "string \<times> string" by (auto simp: must_def)
  have m: "must (veth_steps v netns) (?tail v)" for v
    using must_seq [OF must_ip_cmd must_seq [OF must_ip_cmd must_seq [OF must_ip_cmd must_seq [OF must_ip_cmd r]]]]
    by (simp add: veth_steps_def)
  from assms obtain v where v: "veth_host_name name = Inr v" "?tail v h = (Inr (host, pod), h')"
    by (auto simp: setup_veth_pair_def Let_def io_bind_ok)
  have "host = v \<and> pod = ''eth0''" using v(2) by (auto simp: io_seq_ok)
  moreover have "v = ''veth-'' @ take 8 name"
    using v(1) by (auto simp: veth_host_name_def take_min_length dest!: str_prefix_ok)
  ultimately show ?thesis using mustD [OF m v(2)] by auto
qed

end
