(* ===== verification/Overlay.thy ===== *)
theory Overlay
  imports Sys Seed_Manifest
begin

text \<open>
  Root file systems of containers, \<open>src/isolate/overlay.rs\<close>: a plain path, or an overlay of layers
  mounted in a directory of its own under \<open>/tmp\<close>.

  Lemmas: what a successful preparation has checked, created and mounted, and the option string.
\<close>

record overlay_mount =
  ov_lower_dirs :: "string list"
  ov_upper_dir :: string
  ov_work_dir :: string
  ov_merged_dir :: string

definition from_layers :: "layers_spec \<Rightarrow> string \<Rightarrow> overlay_mount" where
  "from_layers layers container_name =
     \<lparr>ov_lower_dirs = ly_lower layers, ov_upper_dir = ly_upper layers, ov_work_dir = ly_work layers,
      ov_merged_dir = ''/tmp/gl-merged-'' @ container_name\<rparr>"

definition create_if_absent :: "env \<Rightarrow> string \<Rightarrow> string \<Rightarrow> (history, unit) io" where
  "create_if_absent env what dir =
     io_bind (sys_exists env dir) (\<lambda>present.
     io_when (\<not> present) (io_ctx (what @ dir) (sys_unit env (File (CreateDirAll dir)))))"

definition check_lower :: "env \<Rightarrow> string \<Rightarrow> (history, unit) io" where
  "check_lower env lower =
     io_bind (sys_exists env lower) (\<lambda>present.
     if present then io_return () else io_bail (''Lower dir does not exist: '' @ lower))"

definition overlay_prepare :: "env \<Rightarrow> overlay_mount \<Rightarrow> (history, unit) io" where
  "overlay_prepare env ov =
     io_seq (create_if_absent env ''Failed to create upper dir: '' (ov_upper_dir ov))
     (io_seq (create_if_absent env ''Failed to create work dir: '' (ov_work_dir ov))
     (io_seq (io_each (check_lower env) (ov_lower_dirs ov))
       (create_if_absent env ''Failed to create merged dir: '' (ov_merged_dir ov))))"

definition overlay_options :: "overlay_mount \<Rightarrow> string" where
  "overlay_options ov =
     ''lowerdir='' @ join '':'' (ov_lower_dirs ov) @ '',upperdir='' @ ov_upper_dir ov @ '',workdir='' @ ov_work_dir ov"

definition overlay_mount_fs :: "env \<Rightarrow> overlay_mount \<Rightarrow> (history, string) io" where
  "overlay_mount_fs env ov =
     io_seq (overlay_prepare env ov)
     (io_seq (io_ctx (''Failed to mount overlay at '' @ ov_merged_dir ov)
        (sys_unit env (Mnt (MountData (Some ''overlay'') (ov_merged_dir ov) (Some ''overlay'') (overlay_options ov)))))
       (io_return (ov_merged_dir ov)))"

definition overlay_unmount :: "env \<Rightarrow> overlay_mount \<Rightarrow> (history, unit) io" where
  "overlay_unmount env ov =
     io_bind (sys_exists env (ov_merged_dir ov)) (\<lambda>present.
     io_when present
       (io_seq (io_ctx (''Failed to unmount overlay at '' @ ov_merged_dir ov) (sys_unit env (Mnt (Umount (ov_merged_dir ov)))))
         (io_ctx (''Failed to remove merged dir: '' @ ov_merged_dir ov) (sys_unit env (File (RemoveDir (ov_merged_dir ov)))))))"

definition prepare_rootfs :: "env \<Rightarrow> string \<Rightarrow> container_rootfs \<Rightarrow> (history, string) io" where
  "prepare_rootfs env container_name rootfs =
     (case rootfs of
        RootPath path \<Rightarrow>
          io_bind (sys_exists env path) (\<lambda>present.
          if present then io_return path else io_bail (''Rootfs path does not exist: '' @ path))
      | RootLayers layers \<Rightarrow> overlay_mount_fs env (from_layers layers container_name))"

definition cleanup_rootfs :: "env \<Rightarrow> string \<Rightarrow> container_rootfs \<Rightarrow> (history, unit) io" where
  "cleanup_rootfs env container_name rootfs =
     (case rootfs of
        RootPath path \<Rightarrow> io_return ()
      | RootLayers layers \<Rightarrow> overlay_unmount env (from_layers layers container_name))"

section \<open>Lemmas\<close>

lemma emits_create_if_absent [emits_intros]:
  "(\<And>c r. P (File c, r)) \<Longrightarrow> emits P (create_if_absent env w d)"
  unfolding create_if_absent_def by (intro emits_intros)

lemma emits_check_lower [emits_intros]: "(\<And>c r. P (File c, r)) \<Longrightarrow> emits P (check_lower env d)"
  unfolding check_lower_def by (intro emits_intros)

lemma emits_prepare_rootfs [emits_intros]:
  "(\<And>c r. P (File c, r)) \<Longrightarrow> (\<And>c r. P (Mnt c, r)) \<Longrightarrow> emits P (prepare_rootfs env n r)"
  unfolding prepare_rootfs_def overlay_mount_fs_def overlay_prepare_def
  by (cases r) (auto intro!: emits_intros)

text \<open>What stands behind a root file system that was prepared: an existing directory, or an overlay whose
  lower directories all exist.\<close>

definition rootfs_ready :: "string \<Rightarrow> container_rootfs \<Rightarrow> string \<Rightarrow> history \<Rightarrow> bool" where
  "rootfs_ready container_name rootfs path t \<longleftrightarrow>
     (case rootfs of
        RootPath p \<Rightarrow> path = p \<and> (File (PathExists p), RBool True) \<in> set t
      | RootLayers l \<Rightarrow> path = ''/tmp/gl-merged-'' @ container_name \<and>
          (\<forall>lower \<in> set (ly_lower l). (File (PathExists lower), RBool True) \<in> set t) \<and>
          (Mnt (MountData (Some ''overlay'') path (Some ''overlay'') (overlay_options (from_layers l container_name))), ROk)
            \<in> set t)"

lemma exists_true: "sys_exists env p h = (Inr True, h') \<Longrightarrow> h' = h @ [(File (PathExists p), RBool True)]"
proof -
  assume "sys_exists env p h = (Inr True, h')"
  then have "as_bool (env h (File (PathExists p)))" "h' = h @ [(File (PathExists p), env h (File (PathExists p)))]"
    by (auto simp: sys_exists_def io_bind_ok sys_ok)
  then show ?thesis by (cases "env h (File (PathExists p))") auto
qed

lemma check_lower_ok: "check_lower env d h = (Inr (), h') \<Longrightarrow> h' = h @ [(File (PathExists d), RBool True)]"
  by (auto simp: check_lower_def io_bind_ok split: if_splits dest: exists_true)

lemma prepare_rootfs_ready:
  assumes "prepare_rootfs env n rootfs h = (Inr path, h')"
  shows "\<exists>t. h' = h @ t \<and> rootfs_ready n rootfs path t"
proof (cases rootfs)
  case (RootPath p)
  with assms show ?thesis
    by (auto simp: prepare_rootfs_def rootfs_ready_def io_bind_ok split: if_splits dest: exists_true)
next
  case (RootLayers l)
  let ?ov = "from_layers l n"
  let ?T = "\<lambda>_ :: call \<times> reply. True"
  from assms RootLayers obtain h1 h2 h3 h4 where
    1: "create_if_absent env ''Failed to create upper dir: '' (ov_upper_dir ?ov) h = (Inr (), h1)"
    and 2: "create_if_absent env ''Failed to create work dir: '' (ov_work_dir ?ov) h1 = (Inr (), h2)"
    and 3: "io_each (check_lower env) (ov_lower_dirs ?ov) h2 = (Inr (), h3)"
    and 4: "create_if_absent env ''Failed to create merged dir: '' (ov_merged_dir ?ov) h3 = (Inr (), h4)"
    and 5: "h' = h4 @ [(Mnt (MountData (Some ''overlay'') (ov_merged_dir ?ov) (Some ''overlay'') (overlay_options ?ov)), ROk)]"
      "path = ov_merged_dir ?ov"
    by (auto simp: prepare_rootfs_def overlay_mount_fs_def overlay_prepare_def io_seq_ok sys_unit_ok)
  have E: "emits ?T (create_if_absent env w d)" "emits ?T (check_lower env d)" for w d by (intro emits_intros; simp)+
  obtain a where a: "h1 = h @ a" using emits_grows [OF E(1) 1] by blast
  obtain b where b: "h2 = h1 @ b" using emits_grows [OF E(1) 2] by blast
  obtain d where d: "h4 = h3 @ d" using emits_grows [OF E(1) 4] by blast
  from io_each_ok [OF 3 E(2)] obtain c where c: "h3 = h2 @ c"
    "\<forall>x \<in> set (ov_lower_dirs ?ov). \<exists>k t1. check_lower env x k = (Inr (), k @ t1) \<and> set t1 \<subseteq> set c" by blast
  have "\<forall>lower \<in> set (ly_lower l). (File (PathExists lower), RBool True) \<in> set c"
    using c(2) by (auto simp: from_layers_def dest!: bspec check_lower_ok)
  with a b c(1) d 5 RootLayers show ?thesis
    by (intro exI [of _ "a @ b @ c @ d @ [(Mnt (MountData (Some ''overlay'') path (Some ''overlay'') (overlay_options ?ov)), ROk)]"])
      (auto simp: rootfs_ready_def from_layers_def)
qed

end
