(* ===== verification/Steps.thy ===== *)
theory Steps
  imports Prelude
begin

text \<open>
  State-and-error functions as sequences of steps. \<open>within R m\<close> says that every run of \<open>m\<close>, failed
  or not, takes the state through finitely many \<open>R\<close>-steps. It is closed under every construct of
  the program without side conditions, so an operation refines a step relation as soon as its
  elementary parts do, and what holds along the steps holds of the operation:

  \<^item> \<open>within_inv\<close>: an invariant of the steps is an invariant of the operation;
  \<^item> \<open>within_rel\<close>: a reflexive and transitive relation that contains the steps relates the state
    before the operation to the state after it.
\<close>

named_theorems within_intros "closure of \<open>within\<close> under the program constructs"

definition within :: "('s \<Rightarrow> 's \<Rightarrow> bool) \<Rightarrow> ('s, 'a) io \<Rightarrow> bool" where
  "within R m \<longleftrightarrow> (\<forall>s r s'. m s = (r, s') \<longrightarrow> R\<^sup>*\<^sup>* s s')"

lemma withinI: "(\<And>s r s'. m s = (r, s') \<Longrightarrow> R\<^sup>*\<^sup>* s s') \<Longrightarrow> within R m"
  by (simp add: within_def)

lemma withinD: "within R m \<Longrightarrow> m s = (r, s') \<Longrightarrow> R\<^sup>*\<^sup>* s s'"
  unfolding within_def by blast

lemma within_one: "(\<And>s r s'. m s = (r, s') \<Longrightarrow> R s s') \<Longrightarrow> within R m"
  by (auto simp: within_def)

lemma within_pure [within_intros]: "within R (io_return x)" "within R (io_lift r)" "within R (io_bail c)"
  by (auto simp: within_def)

lemma within_bind [within_intros]:
  assumes "within R m" "\<And>x. within R (f x)"
  shows "within R (io_bind m f)"
proof (rule withinI)
  fix s r s'
  assume "io_bind m f s = (r, s')"
  then consider e where "m s = (Inl e, s')" | x s1 where "m s = (Inr x, s1)" "f x s1 = (r, s')"
    by (auto simp: io_bind_cases)
  then show "R\<^sup>*\<^sup>* s s'"
  proof cases
    case 2
    from withinD [OF assms(1) 2(1)] withinD [OF assms(2) 2(2)] show ?thesis by (rule rtranclp_trans)
  qed (rule withinD [OF assms(1)])
qed

lemma within_seq [within_intros]: "within R m \<Longrightarrow> within R n \<Longrightarrow> within R (io_seq m n)"
  by (simp add: io_seq_def within_bind)

lemma within_ctx [within_intros]: "within R m \<Longrightarrow> within R (io_ctx c m)"
  unfolding within_def by (auto simp: io_ctx_cases)

lemma within_attempt [within_intros]: "within R m \<Longrightarrow> within R (io_attempt m)"
  unfolding within_def by (auto simp: io_attempt_def split: prod.splits sum.splits error.splits)

lemma within_when [within_intros]: "(b \<Longrightarrow> within R m) \<Longrightarrow> within R (io_when b m)"
  by (simp add: io_when_def within_pure)

lemma within_if [within_intros]: "(b \<Longrightarrow> within R m) \<Longrightarrow> (\<not> b \<Longrightarrow> within R n) \<Longrightarrow> within R (if b then m else n)"
  by simp

lemma within_case_option [within_intros]:
  "(v = None \<Longrightarrow> within R m) \<Longrightarrow> (\<And>x. v = Some x \<Longrightarrow> within R (f x)) \<Longrightarrow>
     within R (case v of None \<Rightarrow> m | Some x \<Rightarrow> f x)"
  by (cases v) auto

lemma within_case_sum [within_intros]:
  "(\<And>x. within R (f x)) \<Longrightarrow> (\<And>x. within R (g x)) \<Longrightarrow> within R (case v of Inl x \<Rightarrow> f x | Inr x \<Rightarrow> g x)"
  by (cases v) auto

lemma within_case_prod [within_intros]:
  "(\<And>a b. within R (f a b)) \<Longrightarrow> within R (case p of (a, b) \<Rightarrow> f a b)"
  by (cases p) auto

lemma within_each [within_intros]: "(\<And>x. within R (f x)) \<Longrightarrow> within R (io_each f xs)"
  by (induction xs) (auto intro: within_intros)

lemma within_mono: "within R m \<Longrightarrow> (\<And>s s'. R s s' \<Longrightarrow> S\<^sup>*\<^sup>* s s') \<Longrightarrow> within S m"
  by (rule withinI) (auto dest!: withinD intro: rtranclp_mono [THEN predicate2D, of R "S\<^sup>*\<^sup>*", simplified])

lemma within_inv:
  assumes "within R m" "m s = (r, s')" "I s" "\<And>s s'. R s s' \<Longrightarrow> I s \<Longrightarrow> I s'"
  shows "I s'"
  using withinD [OF assms(1,2)] assms(3,4) by (induction rule: rtranclp_induct) auto

lemma within_rel:
  assumes "within R m" "m s = (r, s')" "\<And>s s'. R s s' \<Longrightarrow> S s s'" "reflp S" "transp S"
  shows "S s s'"
  using withinD [OF assms(1,2)]
proof (induction rule: rtranclp_induct)
  case base
  show ?case using assms(4) by (rule reflpD)
next
  case (step y z)
  then show ?case using assms(3) [of y z] assms(5) by (blast dest: transpD)
qed

section \<open>A component's state beside the history\<close>

text \<open>A function of the history alone, in a state that holds more.\<close>

definition on_history :: "('h, 'a) io \<Rightarrow> ('p \<times> 'h, 'a) io" where
  "on_history m = (\<lambda>(p, h). case m h of (r, h') \<Rightarrow> (r, (p, h')))"

definition get_state :: "('p \<times> 'h, 'p) io" where
  "get_state = (\<lambda>(p, h). (Inr p, (p, h)))"

definition update_state :: "('p \<Rightarrow> 'p) \<Rightarrow> ('p \<times> 'h, unit) io" where
  "update_state f = (\<lambda>(p, h). (Inr (), (f p, h)))"

lemma on_history_eq [simp]: "on_history m (p, h) = (r, (p', h')) \<longleftrightarrow> p' = p \<and> m h = (r, h')"
  by (auto simp: on_history_def split: prod.splits)

lemma get_state_eq [simp]: "get_state (p, h) = (r, (p', h')) \<longleftrightarrow> r = Inr p \<and> p' = p \<and> h' = h"
  by (auto simp: get_state_def)

lemma update_state_eq [simp]: "update_state f (p, h) = (r, (p', h')) \<longleftrightarrow> r = Inr () \<and> p' = f p \<and> h' = h"
  by (auto simp: update_state_def)

lemma within_get [within_intros]: "within R get_state"
  by (auto simp: within_def get_state_def)

text \<open>
  Where a step depends on the state a function has just read, its runs are followed from one state:
  \<open>within_at R p m\<close>. Calls into the history are steps of any relation that is \<open>history_free\<close>.
\<close>

named_theorems at_intros "closure of \<open>within_at\<close> under the program constructs"

definition within_at :: "('p \<times> 'h \<Rightarrow> 'p \<times> 'h \<Rightarrow> bool) \<Rightarrow> 'p \<Rightarrow> ('p \<times> 'h, 'a) io \<Rightarrow> bool" where
  "within_at R p m \<longleftrightarrow> (\<forall>h r s'. m (p, h) = (r, s') \<longrightarrow> R\<^sup>*\<^sup>* (p, h) s')"

definition history_free :: "('p \<times> 'e list \<Rightarrow> 'p \<times> 'e list \<Rightarrow> bool) \<Rightarrow> bool" where
  "history_free R \<longleftrightarrow> (\<forall>p h e. R (p, h) (p, h @ [e]))"

lemma within_atD: "within_at R p m \<Longrightarrow> m (p, h) = (r, s') \<Longrightarrow> R\<^sup>*\<^sup>* (p, h) s'"
  unfolding within_at_def by blast

lemma at_within: "within R m \<Longrightarrow> within_at R p m"
  by (simp add: within_def within_at_def)

lemma within_from_at: "(\<And>p. within_at R p m) \<Longrightarrow> within R m"
  by (auto simp: within_def within_at_def)

lemma history_steps: "history_free R \<Longrightarrow> R\<^sup>*\<^sup>* (p, h) (p, h @ t)"
proof (induction t rule: rev_induct)
  case (snoc e t)
  then have "R (p, h @ t) (p, (h @ t) @ [e])" by (simp only: history_free_def)
  with snoc show ?case by (auto intro: rtranclp.rtrancl_into_rtrancl)
qed simp

lemma within_history:
  fixes R :: "'p \<times> 'e list \<Rightarrow> 'p \<times> 'e list \<Rightarrow> bool"
  shows "history_free R \<Longrightarrow> emits (\<lambda>_. True) m \<Longrightarrow> within R (on_history m)"
proof (rule withinI)
  fix s s' :: "'p \<times> 'e list" and r
  assume R: "history_free R" and m: "emits (\<lambda>_. True) m" and run: "on_history m s = (r, s')"
  obtain p h p' h' where s: "s = (p, h)" "s' = (p', h')" by (cases s, cases s') auto
  with run have "p' = p" "m h = (r, h')" by auto
  with emits_grows [OF m] s history_steps [OF R] show "R\<^sup>*\<^sup>* s s'" by blast
qed

lemma at_get [at_intros]: "within_at R p (f p) \<Longrightarrow> within_at R p (io_bind get_state f)"
  by (simp add: within_at_def io_bind_def get_state_def)

lemma at_hist:
  assumes "history_free R" "emits (\<lambda>_. True) m" "\<And>x. within_at R p (f x)"
  shows "within_at R p (io_bind (on_history m) f)"
  unfolding within_at_def
proof (intro allI impI)
  fix h r s'
  assume "io_bind (on_history m) f (p, h) = (r, s')"
  then consider e where "on_history m (p, h) = (Inl e, s')"
    | x p1 h1 where "on_history m (p, h) = (Inr x, (p1, h1))" "f x (p1, h1) = (r, s')"
    by (auto simp: io_bind_cases)
  then show "R\<^sup>*\<^sup>* (p, h) s'"
  proof cases
    case 1
    show ?thesis by (rule withinD [OF within_history [OF assms(1,2)] 1])
  next
    case 2
    then have p: "p1 = p" "m h = (Inr x, h1)" by auto
    obtain t where "h1 = h @ t" using emits_grows [OF assms(2) p(2)] by blast
    then have "R\<^sup>*\<^sup>* (p, h) (p1, h1)" using history_steps [OF assms(1)] p(1) by blast
    moreover have "R\<^sup>*\<^sup>* (p1, h1) s'" using within_atD [OF assms(3)] 2(2) p(1) by blast
    ultimately show ?thesis by (rule rtranclp_trans)
  qed
qed

lemma at_hist_seq:
  "history_free R \<Longrightarrow> emits (\<lambda>_. True) m \<Longrightarrow> within_at R p n \<Longrightarrow> within_at R p (io_seq (on_history m) n)"
  by (simp add: io_seq_def at_hist)

lemma at_update [at_intros]:
  assumes "\<And>h. R\<^sup>*\<^sup>* (p, h) (g p, h)" "within_at R (g p) n"
  shows "within_at R p (io_seq (update_state g) n)"
  unfolding within_at_def
proof (intro allI impI)
  fix h r s'
  assume "io_seq (update_state g) n (p, h) = (r, s')"
  then have "n (g p, h) = (r, s')" by (simp add: io_seq_def io_bind_def update_state_def)
  from within_atD [OF assms(2) this] show "R\<^sup>*\<^sup>* (p, h) s'" using assms(1) [of h] by (rule rtranclp_trans [rotated])
qed

lemma at_update_last [at_intros]: "(\<And>h. R\<^sup>*\<^sup>* (p, h) (g p, h)) \<Longrightarrow> within_at R p (update_state g)"
  by (simp add: within_at_def update_state_def)

lemma at_bind:
  assumes "within_at R p m" "\<And>p' x. within_at R p' (f x)"
  shows "within_at R p (io_bind m f)"
  unfolding within_at_def
proof (intro allI impI)
  fix h r s'
  assume "io_bind m f (p, h) = (r, s')"
  then consider e where "m (p, h) = (Inl e, s')"
    | x p1 h1 where "m (p, h) = (Inr x, (p1, h1))" "f x (p1, h1) = (r, s')"
    by (auto simp: io_bind_cases)
  then show "R\<^sup>*\<^sup>* (p, h) s'"
  proof cases
    case 2
    from within_atD [OF assms(1) 2(1)] within_atD [OF assms(2) 2(2)] show ?thesis by (rule rtranclp_trans)
  qed (rule within_atD [OF assms(1)])
qed

lemma at_seq: "within_at R p m \<Longrightarrow> (\<And>p'. within_at R p' n) \<Longrightarrow> within_at R p (io_seq m n)"
  by (simp add: io_seq_def at_bind)

lemma at_pure [at_intros]: "within_at R p (io_return x)" "within_at R p (io_lift y)"
  by (simp_all add: within_at_def)

lemma at_lift [at_intros]: "(\<And>x. within_at R p (f x)) \<Longrightarrow> within_at R p (io_bind (io_lift y) f)"
  by (cases y) (auto simp: within_at_def io_bind_def io_lift_def)

lemma at_if [at_intros]: "(b \<Longrightarrow> within_at R p m) \<Longrightarrow> (\<not> b \<Longrightarrow> within_at R p n) \<Longrightarrow> within_at R p (if b then m else n)"
  by simp

lemma at_when [at_intros]: "(b \<Longrightarrow> within_at R p m) \<Longrightarrow> within_at R p (io_when b m)"
  by (simp add: io_when_def at_pure)

lemma at_case_option [at_intros]:
  "(v = None \<Longrightarrow> within_at R p m) \<Longrightarrow> (\<And>x. v = Some x \<Longrightarrow> within_at R p (f x)) \<Longrightarrow>
     within_at R p (case v of None \<Rightarrow> m | Some x \<Rightarrow> f x)"
  by (cases v) auto

end
