(* ===== verification/Pod.thy ===== *)
theory Pod
  imports Runner_Safety Network Overlay Steps
begin

text \<open>
  The pod supervisor, \<open>src/pod.rs\<close>: container handles and their states, starting a pod, reaping,
  restarts, crash-loop protection, and the two ways of stopping.

  The state of an operation is the supervisor beside the history of its calls, so an error keeps what
  was changed before it. Time (\<open>Instant\<close>, \<open>Duration\<close>) is in nanoseconds. \<open>fork\<close> returns twice: the
  supervisor's model takes the parent's answer, a pid, and \<open>container_child\<close> is what the other task
  runs. The loops over \<open>waitpid\<close> and over the clock take \<open>fuel\<close>. \<open>gyaml\<close> is the YAML text of a garden,
  \<open>dbg\<close> the \<open>Debug\<close> text of an error chain, both of libraries.
\<close>

section \<open>Data\<close>

datatype container_state =
    CInit
  | CStarting
  | CRunning
  | CExited int
  | CFailed string
  | CBackoff int

definition secs :: "int \<Rightarrow> int" where
  "secs n = n * 1000000000"

definition millis :: "int \<Rightarrow> int" where
  "millis n = n * 1000000"

record handle =
  ch_name :: string
  ch_spec :: container
  ch_state :: container_state
  ch_pid :: "int option"
  ch_cgroup_path :: string
  ch_restart_count :: u32
  ch_last_start :: "int option"
  ch_backoff :: int

definition pod_cgroup_path :: "string \<Rightarrow> string \<Rightarrow> string" where
  "pod_cgroup_path garden_id name = ''/sys/fs/cgroup/garden/'' @ garden_id @ ''/'' @ name"

definition handle_new :: "string \<Rightarrow> container \<Rightarrow> string \<Rightarrow> handle" where
  "handle_new name spec garden_id =
     \<lparr>ch_name = name, ch_spec = spec, ch_state = CInit, ch_pid = None,
      ch_cgroup_path = pod_cgroup_path garden_id name, ch_restart_count = 0, ch_last_start = None,
      ch_backoff = secs 1\<rparr>"

fun should_restart :: "restart_policy \<Rightarrow> container_state \<Rightarrow> bool" where
  "should_restart Never st \<longleftrightarrow> False"
| "should_restart OnFailure (CExited code) \<longleftrightarrow> code \<noteq> 0"
| "should_restart OnFailure (CFailed err) \<longleftrightarrow> True"
| "should_restart Always (CExited code) \<longleftrightarrow> True"
| "should_restart Always (CFailed err) \<longleftrightarrow> True"
| "should_restart policy st \<longleftrightarrow> False"

definition next_backoff :: "int \<Rightarrow> int" where
  "next_backoff b = min (b * 2) (secs 30)"

text \<open>The reset, given the time since the start.\<close>

definition reset_backoff :: "handle \<Rightarrow> handle" where
  "reset_backoff c = c\<lparr>ch_backoff := secs 1, ch_restart_count := 0\<rparr>"

record backoff_config =
  bc_base :: int
  bc_factor :: u32
  bc_max :: int

definition backoff_config_default :: backoff_config where
  "backoff_config_default = \<lparr>bc_base = secs 1, bc_factor = 2, bc_max = secs 30\<rparr>"

record pod =
  pd_run_id :: string
  pd_garden :: garden
  pd_containers :: "handle list"
  pd_restart_policy :: restart_policy
  pd_backoff :: backoff_config
  pd_netns_name :: string
  pd_pod_ip :: "string option"
  pd_max_restarts :: u32
  pd_restart_times :: "int list"

definition garden_id :: "pod \<Rightarrow> string" where
  "garden_id p = sm_id (gd_meta (pd_garden p))"

definition pod_new :: "string \<Rightarrow> garden \<Rightarrow> pod result" where
  "pod_new run_id g =
     res_bind (get_restart_policy g) (\<lambda>policy. Inr
       \<lparr>pd_run_id = run_id, pd_garden = g,
        pd_containers = map (\<lambda>c. handle_new (ct_name c) c (sm_id (gd_meta g))) (gd_containers g),
        pd_restart_policy = policy, pd_backoff = backoff_config_default,
        pd_netns_name = ''glns-'' @ sm_id (gd_meta g), pd_pod_ip = None, pd_max_restarts = 20,
        pd_restart_times = []\<rparr>)"

type_synonym 'a pod_io = "(pod \<times> history, 'a) io"

definition pod_events :: "pod \<Rightarrow> garden_event_builder" where
  "pod_events p = \<lparr>gb_run_id = pd_run_id p, gb_garden_id = garden_id p\<rparr>"

text \<open>An event of this pod, appended to its run.\<close>

definition pod_event :: "env \<Rightarrow> (garden_event_builder \<Rightarrow> string \<Rightarrow> string event) \<Rightarrow> unit pod_io" where
  "pod_event env mk =
     io_bind get_state (\<lambda>p. on_history (append_event env (pd_run_id p) (mk (pod_events p))))"

definition set_container :: "nat \<Rightarrow> (handle \<Rightarrow> handle) \<Rightarrow> unit pod_io" where
  "set_container i f =
     update_state (\<lambda>p. p\<lparr>pd_containers := (pd_containers p)[i := f (pd_containers p ! i)]\<rparr>)"

definition instant_now :: "env \<Rightarrow> int pod_io" where
  "instant_now env = on_history (sys_id env (Pod InstantNow))"

text \<open>\<open>Instant::elapsed\<close> saturates at zero.\<close>

definition elapsed :: "int \<Rightarrow> int \<Rightarrow> int" where
  "elapsed start now = max 0 (now - start)"

section \<open>The container's task\<close>

definition mount_if_proc :: "env \<Rightarrow> mount_config \<Rightarrow> (history, unit) io" where
  "mount_if_proc env m = io_when (mt_type m = ''proc'') (io_ctx ''Failed to mount proc'' (mount_proc env (mt_target m)))"

definition enter_netns :: "env \<Rightarrow> string \<Rightarrow> (history, unit) io" where
  "enter_netns env netns_name =
     io_bind (sys_exists env (netns_path netns_name)) (\<lambda>present.
     io_when present (io_ctx ''Failed to enter pod network namespace'' (setns_net env (netns_path netns_name))))"

definition join_cgroup :: "env \<Rightarrow> string \<Rightarrow> string \<Rightarrow> (history, unit) io" where
  "join_cgroup env gid name =
     io_bind (sys_id env (Task GetPid)) (\<lambda>pid. move_pid_to_cgroup env (pod_cgroup_path gid name) pid)"

definition pod_no_new_privs :: "env \<Rightarrow> (history, unit) io" where
  "pod_no_new_privs env =
     io_bind (sys env (Task SetNoNewPrivs)) (\<lambda>r.
     if r = ROk then io_return () else io_bail ''Failed to set no_new_privs'')"

definition exec_container :: "env \<Rightarrow> string \<Rightarrow> garden_event_builder \<Rightarrow> container \<Rightarrow> (history, unit) io" where
  "exec_container env name events spec =
     io_bind (io_lift (program_path (ep_cmd (ct_entrypoint spec)))) (\<lambda>program.
     io_bind (io_lift (program_args (ep_cmd (ct_entrypoint spec)))) (\<lambda>args.
     io_bind (sys_id env (Task GetPid)) (\<lambda>pid.
     io_seq (append_event env (gb_run_id events) (container_start events name pid))
       (io_ctx ''Failed to execv'' (sys_unit env (Task (Execv program args)))))))"

definition container_child_exec ::
    "env \<Rightarrow> container \<Rightarrow> string \<Rightarrow> string \<Rightarrow> garden_event_builder \<Rightarrow> string \<Rightarrow> string \<Rightarrow> (history, unit) io" where
  "container_child_exec env spec name gid events rootfs netns_name =
     io_seq (io_ctx ''Failed to set PR_SET_PDEATHSIG'' (sys_unit env (Pod (SetPdeathsig sigkill))))
     (io_seq (io_ctx ''Failed to setsid'' (sys_unit env (Pod SetSid)))
     (io_seq (enter_netns env netns_name)
     (io_seq (io_ctx ''Failed to chroot to rootfs'' (do_chroot env rootfs))
     (io_seq (io_each (mount_if_proc env) (ct_mounts spec))
     (io_seq (join_cgroup env gid name)
     (io_seq (io_ctx (''Failed to chdir to '' @ ep_cwd (ct_entrypoint spec))
        (sys_unit env (Task (SetCurrentDir (ep_cwd (ct_entrypoint spec))))))
     (io_seq (io_each (set_env_var env) (ep_env (ct_entrypoint spec)))
     (io_seq (pod_no_new_privs env)
       (exec_container env name events spec)))))))))"

text \<open>The child's side of the fork: its exit code when the bootstrap fails.\<close>

definition container_child ::
    "env \<Rightarrow> (string list \<Rightarrow> string) \<Rightarrow> container \<Rightarrow> string \<Rightarrow> string \<Rightarrow> garden_event_builder \<Rightarrow> string \<Rightarrow> string \<Rightarrow>
     (history, int) io" where
  "container_child env dbg spec name gid events rootfs netns_name =
     io_bind (io_attempt (container_child_exec env spec name gid events rootfs netns_name)) (\<lambda>res.
     case res of
       Inr _ \<Rightarrow> io_return 0
     | Inl err \<Rightarrow>
         io_bind (io_attempt (append_event env (gb_run_id events) (exec_failed events name (dbg err)))) (\<lambda>_.
         io_bind (sys env (Pod (ExitProcess 127))) (\<lambda>_. io_return 127)))"

section \<open>Starting\<close>

definition start_container :: "env \<Rightarrow> nat \<Rightarrow> unit pod_io" where
  "start_container env i =
     io_seq (set_container i (\<lambda>c. c\<lparr>ch_state := CStarting\<rparr>))
     (io_bind (instant_now env) (\<lambda>now.
     io_seq (set_container i (\<lambda>c. c\<lparr>ch_last_start := Some now\<rparr>))
     (io_bind get_state (\<lambda>p.
     let c = pd_containers p ! i in
     io_bind (on_history (prepare_rootfs env (ch_name c) (ct_rootfs (ch_spec c)))) (\<lambda>rootfs.
     io_seq (on_history (setup_cgroup_for_container env (garden_id p) (ch_name c) (ct_limits (ch_spec c))))
     (io_bind (on_history (io_ctx ''Failed to fork container process'' (sys_int env (Pod Fork)))) (\<lambda>pid.
     io_seq (set_container i (\<lambda>c. c\<lparr>ch_pid := Some pid, ch_state := CRunning\<rparr>))
       (pod_event env (\<lambda>events. container_forked events (ch_name c) pid)))))))))"

text \<open>The address is the manifest's without its prefix length, or the first of a fresh allocator.\<close>

definition choose_pod_ip :: "garden \<Rightarrow> string result" where
  "choose_pod_ip g =
     (case gn_ip (gd_net g) of
        Some ip \<Rightarrow> Inr (hd (split_on (CHR ''/'') ip))
      | None \<Rightarrow> fst (ip_allocate (sm_id (gd_meta g)) ip_new))"

definition setup_pod_network :: "env \<Rightarrow> unit pod_io" where
  "setup_pod_network env =
     io_bind get_state (\<lambda>p.
     io_seq (on_history (io_ctx ''Failed to ensure bridge'' (ensure_bridge env)))
     (io_seq (on_history (io_ctx ''Failed to create netns'' (create_netns env (pd_netns_name p))))
     (io_bind (io_lift (choose_pod_ip (pd_garden p))) (\<lambda>ip.
     io_seq (update_state (\<lambda>p. p\<lparr>pd_pod_ip := Some ip\<rparr>))
     (io_bind (on_history (setup_veth_pair env (sm_name (gd_meta (pd_garden p))) (pd_netns_name p))) (\<lambda>_.
       pod_event env (\<lambda>events. pod_net_ready events bridge_name ip)))))))"

definition store_garden_manifest :: "env \<Rightarrow> (garden \<Rightarrow> string result) \<Rightarrow> unit pod_io" where
  "store_garden_manifest env gyaml =
     io_bind get_state (\<lambda>p.
     io_bind (io_ctx ''Failed to serialize garden to YAML'' (io_lift (gyaml (pd_garden p)))) (\<lambda>yaml.
     io_bind (on_history (now_rfc3339 env)) (\<lambda>ts.
       on_history (store env (UpsertSeed \<lparr>sr_id = garden_id p, sr_name = sm_name (gd_meta (pd_garden p)),
                              sr_manifest_yaml = yaml, sr_created_at = ts\<rparr>)))))"

definition pod_start :: "env \<Rightarrow> (garden \<Rightarrow> string result) \<Rightarrow> unit pod_io" where
  "pod_start env gyaml =
     io_bind (on_history (sys env (Pod SetSubreaper))) (\<lambda>_.
     io_seq (store_garden_manifest env gyaml)
     (io_bind (on_history (now_rfc3339 env)) (\<lambda>start_ts.
     io_bind get_state (\<lambda>p.
     io_seq (on_history (store env (CreateRun (pd_run_id p) (garden_id p) start_ts)))
     (io_seq (setup_pod_network env)
     (io_bind get_state (\<lambda>p.
       io_each (start_container env) [0 ..< length (pd_containers p)])))))))"

section \<open>Reaping\<close>

fun find_index :: "('a \<Rightarrow> bool) \<Rightarrow> 'a list \<Rightarrow> nat option" where
  "find_index P [] = None"
| "find_index P (x # xs) = (if P x then Some 0 else map_option Suc (find_index P xs))"

definition note_exit :: "env \<Rightarrow> int \<Rightarrow> int \<Rightarrow> unit pod_io" where
  "note_exit env pid code =
     io_bind get_state (\<lambda>p.
     case find_index (\<lambda>c. ch_pid c = Some pid) (pd_containers p) of
       None \<Rightarrow> io_return ()
     | Some i \<Rightarrow>
         io_seq (set_container i (\<lambda>c. c\<lparr>ch_state := CExited code, ch_pid := None\<rparr>))
           (pod_event env (\<lambda>events. container_exit events (ch_name (pd_containers p ! i)) code)))"

fun reap_exited_processes :: "nat \<Rightarrow> env \<Rightarrow> unit pod_io" where
  "reap_exited_processes 0 env = io_lift (Inl NoFuel)"
| "reap_exited_processes (Suc fuel) env =
     io_bind (on_history (sys env (Proc (WaitPid (- 1) True)))) (\<lambda>r.
     case r of
       RWait st \<Rightarrow>
         (case st of
            Exited pid exit_code \<Rightarrow> io_seq (note_exit env pid exit_code) (reap_exited_processes fuel env)
          | Signaled pid signal \<Rightarrow> io_seq (note_exit env pid (128 + signal)) (reap_exited_processes fuel env)
          | StillAlive \<Rightarrow> io_return ()
          | _ \<Rightarrow> reap_exited_processes fuel env)
     | REintr \<Rightarrow> reap_exited_processes fuel env
     | _ \<Rightarrow> io_return ())"

section \<open>Restarts\<close>

definition is_crash_looping :: "env \<Rightarrow> bool pod_io" where
  "is_crash_looping env =
     io_bind (instant_now env) (\<lambda>now.
     let ten_min_ago = now - secs 600 in
     io_seq (update_state (\<lambda>p. p\<lparr>pd_restart_times := filter (\<lambda>t. t > ten_min_ago) (pd_restart_times p)\<rparr>))
     (io_bind get_state (\<lambda>p.
       io_return (unat (pd_max_restarts p) \<le> length (pd_restart_times p)))))"

definition schedule_restart :: "env \<Rightarrow> nat \<Rightarrow> unit pod_io" where
  "schedule_restart env i =
     io_seq (set_container i (\<lambda>c. let b = next_backoff (ch_backoff c) in
        c\<lparr>ch_backoff := b, ch_state := CBackoff b, ch_restart_count := ch_restart_count c + 1\<rparr>))
     (io_bind (instant_now env) (\<lambda>now.
       update_state (\<lambda>p. p\<lparr>pd_restart_times := pd_restart_times p @ [now]\<rparr>)))"

definition reset_backoff_if_stable :: "env \<Rightarrow> nat \<Rightarrow> unit pod_io" where
  "reset_backoff_if_stable env i =
     io_bind get_state (\<lambda>p.
     case ch_last_start (pd_containers p ! i) of
       None \<Rightarrow> io_return ()
     | Some start \<Rightarrow>
         io_bind (instant_now env) (\<lambda>now.
         io_when (elapsed start now > secs 10) (set_container i reset_backoff)))"

section \<open>Stopping\<close>

definition cleanup_network :: "env \<Rightarrow> unit pod_io" where
  "cleanup_network env =
     io_bind get_state (\<lambda>p.
     io_bind (on_history (io_attempt (delete_netns env (pd_netns_name p)))) (\<lambda>_. io_return ()))"

definition cleanup_after_stop :: "env \<Rightarrow> unit pod_io" where
  "cleanup_after_stop env =
     io_seq (cleanup_network env)
     (io_seq (pod_event env (\<lambda>events. pod_exit events ''Stopped''))
     (io_bind (on_history (now_rfc3339 env)) (\<lambda>end_ts.
     io_bind get_state (\<lambda>p.
       on_history (store env (UpdateRunStatus (pd_run_id p) (RunExited 0) (Some end_ts)))))))"

definition stop_one :: "env \<Rightarrow> nat \<Rightarrow> unit pod_io" where
  "stop_one env i =
     io_bind get_state (\<lambda>p.
     case ch_pid (pd_containers p ! i) of
       None \<Rightarrow> io_return ()
     | Some pid \<Rightarrow>
         io_seq (set_container i (\<lambda>c. c\<lparr>ch_state := CExited 0, ch_pid := None\<rparr>))
           (pod_event env (\<lambda>events. container_exit events (ch_name (pd_containers p ! i)) 0)))"

definition stop_all :: "env \<Rightarrow> unit pod_io" where
  "stop_all env =
     io_bind get_state (\<lambda>p.
     io_seq (io_each (stop_one env) [0 ..< length (pd_containers p)])
       (cleanup_after_stop env))"

definition sigterm :: int where
  "sigterm = 15"

text \<open>The event, then the signal; a failing \<open>kill\<close> is only logged.\<close>

definition signal_container :: "env \<Rightarrow> string \<Rightarrow> int \<Rightarrow> handle \<Rightarrow> unit pod_io" where
  "signal_container env name sig c =
     (case ch_pid c of
        None \<Rightarrow> io_return ()
      | Some pid \<Rightarrow>
          io_seq (pod_event env (\<lambda>events. signal_forward events name (ch_name c)))
            (io_bind (on_history (sys env (Proc (Kill pid sig)))) (\<lambda>_. io_return ())))"

definition signal_all :: "env \<Rightarrow> string \<Rightarrow> int \<Rightarrow> unit pod_io" where
  "signal_all env name sig =
     io_bind get_state (\<lambda>p. io_each (signal_container env name sig) (pd_containers p))"

definition all_exited :: "pod \<Rightarrow> bool" where
  "all_exited p \<longleftrightarrow> (\<forall>c \<in> set (pd_containers p). ch_pid c = None)"

definition sleep_100ms :: "env \<Rightarrow> unit pod_io" where
  "sleep_100ms env = io_bind (on_history (sys env (Pod (SleepMs 100)))) (\<lambda>_. io_return ())"

text \<open>Waiting until every container is gone or the time is over: whether all are gone.\<close>

fun await_exit :: "nat \<Rightarrow> env \<Rightarrow> int \<Rightarrow> int \<Rightarrow> bool pod_io" where
  "await_exit 0 env start timeout = io_lift (Inl NoFuel)"
| "await_exit (Suc fuel) env start timeout =
     io_bind (instant_now env) (\<lambda>now.
     if elapsed start now < timeout then
       io_seq (reap_exited_processes (Suc fuel) env)
       (io_bind get_state (\<lambda>p.
       if all_exited p then io_return True
       else io_seq (sleep_100ms env) (await_exit fuel env start timeout)))
     else io_return False)"

text \<open>The rounds after \<open>SIGKILL\<close>.\<close>

fun await_killed :: "nat \<Rightarrow> nat \<Rightarrow> env \<Rightarrow> unit pod_io" where
  "await_killed 0 fuel env = io_return ()"
| "await_killed (Suc n) fuel env =
     io_seq (reap_exited_processes fuel env)
     (io_bind get_state (\<lambda>p.
     if all_exited p then io_return ()
     else io_seq (sleep_100ms env) (await_killed n fuel env)))"

definition stop_graceful :: "nat \<Rightarrow> env \<Rightarrow> int \<Rightarrow> unit pod_io" where
  "stop_graceful fuel env timeout =
     io_seq (pod_event env pod_stop_requested)
     (io_seq (signal_all env ''SIGTERM'' sigterm)
     (io_bind (instant_now env) (\<lambda>start.
     io_bind (await_exit fuel env start timeout) (\<lambda>gone.
     if gone then cleanup_after_stop env
     else
       io_seq (pod_event env (\<lambda>events. pod_timeout events (unat (word_of_int (timeout div millis 1) :: u64))))
       (io_seq (signal_all env ''SIGKILL'' sigkill)
       (io_seq (await_killed 10 fuel env)
         (cleanup_after_stop env)))))))"

section \<open>Ticks\<close>

text \<open>One container of a tick: whether the pod was stopped for crash looping.\<close>

definition tick_container :: "env \<Rightarrow> nat \<Rightarrow> bool pod_io" where
  "tick_container env i =
     io_bind get_state (\<lambda>p.
     io_seq (io_when (ch_state (pd_containers p ! i) = CRunning) (reset_backoff_if_stable env i))
     (io_bind get_state (\<lambda>p.
     if should_restart (pd_restart_policy p) (ch_state (pd_containers p ! i)) then
       io_bind (is_crash_looping env) (\<lambda>looping.
       if looping then io_seq (stop_all env) (io_return True)
       else io_seq (schedule_restart env i) (io_return False))
     else io_return False)))"

fun tick_containers :: "env \<Rightarrow> nat list \<Rightarrow> unit pod_io" where
  "tick_containers env [] = io_return ()"
| "tick_containers env (i # is) =
     io_bind (tick_container env i) (\<lambda>stopped. if stopped then io_return () else tick_containers env is)"

definition pod_tick :: "nat \<Rightarrow> env \<Rightarrow> unit pod_io" where
  "pod_tick fuel env =
     io_seq (reap_exited_processes fuel env)
     (io_bind get_state (\<lambda>p. tick_containers env [0 ..< length (pd_containers p)]))"

section \<open>Results\<close>

definition primary_container :: "pod \<Rightarrow> handle option" where
  "primary_container p = (case pd_containers p of [] \<Rightarrow> None | c # _ \<Rightarrow> Some c)"

definition get_exit_code :: "pod \<Rightarrow> int" where
  "get_exit_code p =
     (case primary_container p of
        None \<Rightarrow> 0
      | Some c \<Rightarrow> (case ch_state c of CExited code \<Rightarrow> code | CFailed _ \<Rightarrow> 1 | _ \<Rightarrow> 0))"

end
