(* ===== verification/Pod_Machine.thy ===== *)
theory Pod_Machine
  imports Pod
begin

text \<open>
  The pod supervisor as a state machine. \<open>cstep\<close> is what may happen to one container, \<open>pod_step\<close> what
  may happen to the supervisor: a call appended to the history, a container's step, the pod's address
  set, the list of restart times changed. Every operation of \<open>Pod\<close> is a sequence of such steps
  (\<open>within pod_step\<close>), whatever the world answers and however the operation ends, so what every step
  keeps is kept by every operation and by every sequence of operations.
\<close>

section \<open>The steps\<close>

inductive cstep :: "restart_policy \<Rightarrow> handle \<Rightarrow> handle \<Rightarrow> bool" for policy where
  starting: "ch_state c = CInit \<Longrightarrow> ch_pid c = None \<Longrightarrow> cstep policy c (c\<lparr>ch_state := CStarting\<rparr>)"
| stamped: "ch_state c = CStarting \<Longrightarrow> cstep policy c (c\<lparr>ch_last_start := Some t\<rparr>)"
| forked: "ch_state c = CStarting \<Longrightarrow> ch_pid c = None \<Longrightarrow> cstep policy c (c\<lparr>ch_pid := Some pid, ch_state := CRunning\<rparr>)"
| exited: "ch_pid c = Some pid \<Longrightarrow> cstep policy c (c\<lparr>ch_state := CExited code, ch_pid := None\<rparr>)"
| stable: "ch_state c = CRunning \<Longrightarrow> cstep policy c (reset_backoff c)"
| delayed: "should_restart policy (ch_state c) \<Longrightarrow> b = next_backoff (ch_backoff c) \<Longrightarrow>
    cstep policy c (c\<lparr>ch_backoff := b, ch_state := CBackoff b, ch_restart_count := ch_restart_count c + 1\<rparr>)"

inductive_cases cstepE: "cstep policy c c'"

inductive pod_step :: "pod \<times> history \<Rightarrow> pod \<times> history \<Rightarrow> bool" where
  called: "pod_step (p, h) (p, h @ [e])"
| container: "i < length (pd_containers p) \<Longrightarrow> cstep (pd_restart_policy p) (pd_containers p ! i) c \<Longrightarrow>
    pod_step (p, h) (p\<lparr>pd_containers := (pd_containers p)[i := c]\<rparr>, h)"
| addressed: "pod_step (p, h) (p\<lparr>pd_pod_ip := Some ip\<rparr>, h)"
| forgotten: "pod_step (p, h) (p\<lparr>pd_restart_times := filter P (pd_restart_times p)\<rparr>, h)"
| counted: "pod_step (p, h) (p\<lparr>pd_restart_times := pd_restart_times p @ [t]\<rparr>, h)"

inductive_cases pod_stepE: "pod_step (p, h) (p', h')"

lemma pod_history_free: "history_free pod_step"
  by (simp add: history_free_def pod_step.called)

lemma step_set:
  assumes "cstep (pd_restart_policy p) (pd_containers p ! i) (f (pd_containers p ! i))"
  shows "pod_step\<^sup>*\<^sup>* (p, h) (p\<lparr>pd_containers := (pd_containers p)[i := f (pd_containers p ! i)]\<rparr>, h)"
proof (cases "i < length (pd_containers p)")
  case True
  show ?thesis by (rule r_into_rtranclp, rule pod_step.container [OF True assms])
next
  case False
  then have "p\<lparr>pd_containers := (pd_containers p)[i := f (pd_containers p ! i)]\<rparr> = p"
    by (simp add: list_update_beyond)
  then show ?thesis by simp
qed

lemma at_set_last:
  "cstep (pd_restart_policy p) (pd_containers p ! i) (f (pd_containers p ! i)) \<Longrightarrow>
     within_at pod_step p (set_container i f)"
  unfolding set_container_def by (rule at_update_last) (rule step_set)

lemma at_set:
  "cstep (pd_restart_policy p) (pd_containers p ! i) (f (pd_containers p ! i)) \<Longrightarrow>
   within_at pod_step (p\<lparr>pd_containers := (pd_containers p)[i := f (pd_containers p ! i)]\<rparr>) n \<Longrightarrow>
     within_at pod_step p (io_seq (set_container i f) n)"
  unfolding set_container_def by (rule at_update) (rule step_set)

lemmas pod_call = within_history [OF pod_history_free] and pod_at_call = at_hist [OF pod_history_free]
  and pod_at_call_seq = at_hist_seq [OF pod_history_free]

section \<open>The operations are sequences of steps\<close>

lemma any_append_event: "emits (\<lambda>_. True) (append_event env r e)"
  by (auto simp: append_event_def intro!: emits_intros)

lemma within_pod_event [within_intros]: "within pod_step (pod_event env mk)"
  unfolding pod_event_def
  by (intro within_intros pod_call any_append_event)

lemma within_instant_now [within_intros]: "within pod_step (instant_now env)"
  unfolding instant_now_def by (intro pod_call emits_intros) simp

lemma within_sleep [within_intros]: "within pod_step (sleep_100ms env)"
  unfolding sleep_100ms_def by (intro within_intros pod_call emits_intros) simp

lemma find_index_Some: "find_index P xs = Some i \<Longrightarrow> i < length xs \<and> P (xs ! i)"
  by (induction xs arbitrary: i) (auto split: if_splits)

lemma within_note_exit [within_intros]: "within pod_step (note_exit env pid code)"
  unfolding note_exit_def
proof (rule within_from_at, rule at_get, rule at_case_option)
  fix p :: pod and i
  assume "find_index (\<lambda>c. ch_pid c = Some pid) (pd_containers p) = Some i"
  from find_index_Some [OF this] show
    "within_at pod_step p (io_seq (set_container i (\<lambda>c. c\<lparr>ch_state := CExited code, ch_pid := None\<rparr>))
       (pod_event env (\<lambda>events. container_exit events (ch_name (pd_containers p ! i)) code)))"
    by (intro at_set at_within within_pod_event) (auto intro: cstep.exited)
qed (rule at_pure)

lemma within_reap [within_intros]: "within pod_step (reap_exited_processes fuel env)"
proof (induction fuel)
  case (Suc fuel)
  show ?case
    by (simp, rule within_bind, rule pod_call, intro emits_intros)
      (auto split: reply.splits wait_status.splits intro!: within_intros Suc.IH)
qed (simp add: within_intros)

lemma within_looping [within_intros]: "within pod_step (is_crash_looping env)"
  unfolding is_crash_looping_def Let_def
proof (rule within_bind [OF within_instant_now], rule within_from_at, rule at_update)
  fix now p h
  show "pod_step\<^sup>*\<^sup>* (p, h) (p\<lparr>pd_restart_times := filter (\<lambda>t. now - secs 600 < t) (pd_restart_times p)\<rparr>, h)"
    by (rule r_into_rtranclp) (rule pod_step.forgotten)
qed (intro at_intros)

lemma at_schedule:
  "should_restart (pd_restart_policy p) (ch_state (pd_containers p ! i)) \<Longrightarrow>
     within_at pod_step p (schedule_restart env i)"
  unfolding schedule_restart_def Let_def
proof (rule at_set)
  assume "should_restart (pd_restart_policy p) (ch_state (pd_containers p ! i))"
  then show "cstep (pd_restart_policy p) (pd_containers p ! i)
     ((pd_containers p ! i)\<lparr>ch_backoff := next_backoff (ch_backoff (pd_containers p ! i)),
        ch_state := CBackoff (next_backoff (ch_backoff (pd_containers p ! i))),
        ch_restart_count := ch_restart_count (pd_containers p ! i) + 1\<rparr>)"
    by (rule cstep.delayed) simp
next
  have "within pod_step (update_state (\<lambda>p. p\<lparr>pd_restart_times := pd_restart_times p @ [now]\<rparr>))" for now
    by (rule within_from_at, rule at_update_last, rule r_into_rtranclp, rule pod_step.counted)
  then show "within_at pod_step q (io_bind (instant_now env) (\<lambda>now.
      update_state (\<lambda>p. p\<lparr>pd_restart_times := pd_restart_times p @ [now]\<rparr>)))" for q
    by (intro at_within within_bind within_instant_now)
qed

lemma at_reset:
  "ch_state (pd_containers p ! i) = CRunning \<Longrightarrow> within_at pod_step p (reset_backoff_if_stable env i)"
  unfolding reset_backoff_if_stable_def instant_now_def
  by (intro at_intros pod_at_call emits_intros at_set_last) (auto intro: cstep.stable)

lemma within_cleanup [within_intros]: "within pod_step (cleanup_after_stop env)"
proof -
  have "emits (\<lambda>_. True) (io_attempt (delete_netns env n))" for n
    by (intro emits_intros; simp)
  then have "within pod_step (cleanup_network env)"
    unfolding cleanup_network_def
    by (intro within_intros pod_call)
  moreover have "within pod_step (on_history (store env c))" for c
    by (intro pod_call emits_intros) simp
  moreover have "within pod_step (on_history (now_rfc3339 env))"
    by (intro pod_call emits_intros) simp
  ultimately show ?thesis
    unfolding cleanup_after_stop_def by (intro within_intros)
qed

lemma within_stop_one [within_intros]: "within pod_step (stop_one env i)"
  unfolding stop_one_def
  by (rule within_from_at, intro at_intros at_set at_within within_pod_event) (auto intro: cstep.exited)

lemma within_stop_all [within_intros]: "within pod_step (stop_all env)"
  unfolding stop_all_def
  by (intro within_intros)

lemma within_signal_all [within_intros]: "within pod_step (signal_all env name sig)"
proof -
  have "within pod_step (on_history (sys env c))" for c
    by (intro pod_call emits_intros) simp
  then have "within pod_step (signal_container env name sig c)" for c
    unfolding signal_container_def by (intro within_intros)
  then show ?thesis
    unfolding signal_all_def by (intro within_intros)
qed

lemma within_await_exit [within_intros]: "within pod_step (await_exit fuel env start timeout)"
proof (induction fuel)
  case (Suc fuel)
  show ?case by (simp del: reap_exited_processes.simps) (intro within_intros Suc.IH)
qed (simp add: within_intros)

lemma within_await_killed [within_intros]: "within pod_step (await_killed n fuel env)"
proof (induction n)
  case (Suc n)
  show ?case by simp (intro within_intros Suc.IH)
qed (simp add: within_intros)

lemma within_stop_graceful [within_intros]: "within pod_step (stop_graceful fuel env timeout)"
  unfolding stop_graceful_def by (intro within_intros)

lemma looping_then:
  "io_bind (is_crash_looping env) f =
     io_bind (instant_now env) (\<lambda>now.
     io_seq (update_state (\<lambda>p. p\<lparr>pd_restart_times := filter (\<lambda>t. t > now - secs 600) (pd_restart_times p)\<rparr>))
     (io_bind get_state (\<lambda>p. f (unat (pd_max_restarts p) \<le> length (pd_restart_times p)))))"
  by (simp add: is_crash_looping_def Let_def io_bind_assoc io_seq_def)

lemma within_tick_container [within_intros]: "within pod_step (tick_container env i)"
proof -
  have sched: "within_at pod_step p (io_bind get_state (\<lambda>p.
     if should_restart (pd_restart_policy p) (ch_state (pd_containers p ! i)) then
       io_bind (is_crash_looping env) (\<lambda>looping.
       if looping then io_seq (stop_all env) (io_return True)
       else io_seq (schedule_restart env i) (io_return False))
     else io_return False))" for p
  proof (rule at_get, rule at_if)
    assume "should_restart (pd_restart_policy p) (ch_state (pd_containers p ! i))"
    then show "within_at pod_step p (io_bind (is_crash_looping env) (\<lambda>looping.
       if looping then io_seq (stop_all env) (io_return True)
       else io_seq (schedule_restart env i) (io_return False)))"
      unfolding looping_then instant_now_def
      by (intro pod_at_call at_update at_get at_if at_seq at_pure at_schedule at_within within_stop_all)
        (auto intro: emits_intros r_into_rtranclp pod_step.forgotten)
  qed (rule at_pure)
  show ?thesis
    unfolding tick_container_def
    by (rule within_from_at, intro at_get at_seq at_when at_reset sched)
qed

lemma within_tick [within_intros]: "within pod_step (pod_tick fuel env)"
proof -
  have "within pod_step (tick_containers env is)" for "is"
    by (induction "is") (simp_all add: within_intros)
  then show ?thesis
    unfolding pod_tick_def by (intro within_intros)
qed

section \<open>Starting\<close>

text \<open>Starting a container changes only that container.\<close>

definition only :: "nat \<Rightarrow> pod \<times> history \<Rightarrow> pod \<times> history \<Rightarrow> bool" where
  "only i s s' \<longleftrightarrow> pd_restart_policy (fst s') = pd_restart_policy (fst s) \<and>
     length (pd_containers (fst s')) = length (pd_containers (fst s)) \<and>
     (\<forall>j. j \<noteq> i \<longrightarrow> pd_containers (fst s') ! j = pd_containers (fst s) ! j)"

lemma only_rel: "reflp (only i)" "transp (only i)"
  by (auto simp: only_def intro!: reflpI transpI)

lemma only_history_free: "history_free (only i)"
  by (simp add: history_free_def only_def)

lemma only_set: "within (only i) (set_container i f)"
  by (rule within_one) (auto simp: only_def set_container_def update_state_def split: prod.splits)

lemma any_start:
  "emits (\<lambda>_. True) (prepare_rootfs env n r)" "emits (\<lambda>_. True) (setup_cgroup_for_container env g n l)"
  "emits (\<lambda>_. True) (io_ctx c (sys_int env k))"
  by (intro emits_intros; simp)+

lemma only_start: "within (only i) (start_container env i)"
proof -
  note call = within_history [OF only_history_free]
  have "within (only i) (instant_now env)"
    unfolding instant_now_def by (intro call emits_intros) simp
  moreover have "within (only i) (pod_event env mk)" for mk
    unfolding pod_event_def by (intro within_intros call any_append_event)
  ultimately show ?thesis
    unfolding start_container_def Let_def by (intro within_intros call only_set any_start)
qed

lemma forkedI:
  "ch_state c = CStarting \<Longrightarrow> ch_pid c = None \<Longrightarrow> c' = c\<lparr>ch_pid := Some pid, ch_state := CRunning\<rparr> \<Longrightarrow> cstep policy c c'"
  by (auto intro: cstep.forked)

lemma stampedI: "ch_state c = CStarting \<Longrightarrow> c' = c\<lparr>ch_last_start := Some t\<rparr> \<Longrightarrow> cstep policy c c'"
  by (auto intro: cstep.stamped)

lemma at_start:
  assumes "ch_state (pd_containers p ! i) = CInit" "ch_pid (pd_containers p ! i) = None"
    "i < length (pd_containers p)"
  shows "within_at pod_step p (start_container env i)"
  unfolding start_container_def instant_now_def Let_def
  by (intro at_set at_get pod_at_call pod_at_call_seq any_start emits_intros at_within within_pod_event)
    (use assms in \<open>auto intro: cstep.starting stampedI forkedI\<close>)

definition unstarted :: "pod \<Rightarrow> nat \<Rightarrow> bool" where
  "unstarted p i \<longleftrightarrow> i < length (pd_containers p) \<and> ch_state (pd_containers p ! i) = CInit \<and>
     ch_pid (pd_containers p ! i) = None"

lemma at_start_all:
  "distinct is \<Longrightarrow> \<forall>i \<in> set is. unstarted p i \<Longrightarrow> within_at pod_step p (io_each (start_container env) is)"
proof (induction "is" arbitrary: p)
  case (Cons i "is")
  have p: "within_at pod_step p (start_container env i)"
    using Cons.prems(2) by (intro at_start) (auto simp: unstarted_def)
  show ?case
    unfolding within_at_def
  proof (intro allI impI)
    fix h r s'
    assume "io_each (start_container env) (i # is) (p, h) = (r, s')"
    then consider e where "start_container env i (p, h) = (Inl e, s')"
      | p1 h1 where "start_container env i (p, h) = (Inr (), (p1, h1))"
          "io_each (start_container env) is (p1, h1) = (r, s')"
      by (auto simp: io_seq_cases)
    then show "pod_step\<^sup>*\<^sup>* (p, h) s'"
    proof cases
      case 2
      have "only i (p, h) (p1, h1)"
        by (rule within_rel [OF only_start 2(1) _ only_rel])
      with Cons.prems have "\<forall>j \<in> set is. unstarted p1 j"
        by (auto simp: only_def unstarted_def)
      with Cons have "within_at pod_step p1 (io_each (start_container env) is)" by simp
      from within_atD [OF p 2(1)] within_atD [OF this 2(2)] show ?thesis by (rule rtranclp_trans)
    qed (rule within_atD [OF p])
  qed
qed (simp add: at_pure)

text \<open>A supervisor no container of which has been started.\<close>

definition fresh_pod :: "pod \<Rightarrow> bool" where
  "fresh_pod p \<longleftrightarrow> (\<forall>c \<in> set (pd_containers p). ch_state c = CInit \<and> ch_pid c = None)"

lemma pod_new_fresh: "pod_new run_id g = Inr p \<Longrightarrow> fresh_pod p"
  by (auto simp: pod_new_def fresh_pod_def handle_new_def)

lemma any_setup:
  "emits (\<lambda>_. True) (io_ctx c (ensure_bridge env))" "emits (\<lambda>_. True) (io_ctx c (create_netns env n))"
  "emits (\<lambda>_. True) (setup_veth_pair env n m)" "emits (\<lambda>_. True) (store env k)"
  "emits (\<lambda>_. True) (now_rfc3339 env)" "emits (\<lambda>_. True) (sys env cl)"
  by (intro emits_intros; simp)+

text \<open>Before the containers start, nothing touches them.\<close>

definition untouched :: "pod \<times> history \<Rightarrow> pod \<times> history \<Rightarrow> bool" where
  "untouched s s' \<longleftrightarrow> pd_containers (fst s') = pd_containers (fst s)"

lemma untouched_rel: "reflp untouched" "transp untouched"
  by (auto simp: untouched_def intro!: reflpI transpI)

lemma untouched_call: "emits (\<lambda>_. True) m \<Longrightarrow> within untouched (on_history m)"
  by (intro within_history) (simp add: history_free_def untouched_def)

lemma untouched_network: "within untouched (setup_pod_network env)"
proof -
  have "within untouched (update_state (\<lambda>p. p\<lparr>pd_pod_ip := Some ip\<rparr>))" for ip
    by (rule within_one) (auto simp: untouched_def update_state_def split: prod.splits)
  moreover have "within untouched (pod_event env mk)" for mk
    unfolding pod_event_def by (intro within_intros untouched_call any_append_event)
  ultimately show ?thesis
    unfolding setup_pod_network_def by (intro within_intros untouched_call any_setup)
qed

lemma untouched_manifest: "within untouched (store_garden_manifest env gyaml)"
  unfolding store_garden_manifest_def by (intro within_intros untouched_call any_setup)

lemma within_network [within_intros]: "within pod_step (setup_pod_network env)"
proof -
  have "within pod_step (update_state (\<lambda>p. p\<lparr>pd_pod_ip := Some ip\<rparr>))" for ip
    by (rule within_from_at, rule at_update_last, rule r_into_rtranclp, rule pod_step.addressed)
  then show ?thesis
    unfolding setup_pod_network_def by (intro within_intros pod_call any_setup)
qed

text \<open>What precedes the start of the containers, and the containers after it.\<close>

definition start_prelude :: "env \<Rightarrow> (garden \<Rightarrow> string result) \<Rightarrow> unit pod_io" where
  "start_prelude env gyaml =
     io_bind (on_history (sys env (Pod SetSubreaper))) (\<lambda>_.
     io_seq (store_garden_manifest env gyaml)
     (io_bind (on_history (now_rfc3339 env)) (\<lambda>start_ts.
     io_bind get_state (\<lambda>p.
     io_seq (on_history (store env (CreateRun (pd_run_id p) (garden_id p) start_ts)))
       (setup_pod_network env)))))"

lemma pod_start_prelude:
  "pod_start env gyaml =
     io_seq (start_prelude env gyaml)
       (io_bind get_state (\<lambda>p. io_each (start_container env) [0 ..< length (pd_containers p)]))"
  by (simp add: pod_start_def start_prelude_def io_bind_assoc io_seq_def)

lemma within_prelude: "within pod_step (start_prelude env gyaml)" "within untouched (start_prelude env gyaml)"
proof -
  have "within pod_step (store_garden_manifest env gyaml)"
    unfolding store_garden_manifest_def by (intro within_intros pod_call any_setup)
  then show "within pod_step (start_prelude env gyaml)"
    unfolding start_prelude_def by (intro within_intros pod_call any_setup)
  show "within untouched (start_prelude env gyaml)"
    unfolding start_prelude_def by (intro within_intros untouched_call untouched_manifest untouched_network any_setup)
qed

lemma start_steps:
  assumes "fresh_pod p" "pod_start env gyaml (p, h) = (r, s')"
  shows "pod_step\<^sup>*\<^sup>* (p, h) s'"
proof -
  from assms(2) consider e where "start_prelude env gyaml (p, h) = (Inl e, s')"
    | p1 h1 where "start_prelude env gyaml (p, h) = (Inr (), (p1, h1))"
        "io_each (start_container env) [0 ..< length (pd_containers p1)] (p1, h1) = (r, s')"
    by (auto simp: pod_start_prelude io_seq_cases io_bind_cases get_state_def)
  then show ?thesis
  proof cases
    case 1
    show ?thesis by (rule withinD [OF within_prelude(1) 1])
  next
    case 2
    have "untouched (p, h) (p1, h1)"
      by (rule within_rel [OF within_prelude(2) 2(1) _ untouched_rel])
    with assms(1) have "\<forall>i \<in> set [0 ..< length (pd_containers p1)]. unstarted p1 i"
      by (simp add: untouched_def fresh_pod_def unstarted_def)
    then have "within_at pod_step p1 (io_each (start_container env) [0 ..< length (pd_containers p1)])"
      by (intro at_start_all) simp_all
    from withinD [OF within_prelude(1) 2(1)] within_atD [OF this 2(2)] show ?thesis by (rule rtranclp_trans)
  qed
qed

section \<open>Operations in any order\<close>

text \<open>
  What a client does with a started supervisor. An operation that failed leaves the state it has
  reached, and the client may go on.
\<close>

datatype pod_op =
    Reap nat
  | Tick nat
  | StopAll
  | StopGraceful nat int

fun run_op :: "env \<Rightarrow> pod_op \<Rightarrow> unit pod_io" where
  "run_op env (Reap fuel) = reap_exited_processes fuel env"
| "run_op env (Tick fuel) = pod_tick fuel env"
| "run_op env StopAll = stop_all env"
| "run_op env (StopGraceful fuel timeout) = stop_graceful fuel env timeout"

fun run_ops :: "env \<Rightarrow> pod_op list \<Rightarrow> pod \<times> history \<Rightarrow> pod \<times> history" where
  "run_ops env [] s = s"
| "run_ops env (op # ops) s = run_ops env ops (snd (run_op env op s))"

lemma within_run_op: "within pod_step (run_op env op)"
  by (cases op) (simp_all del: reap_exited_processes.simps add: within_intros)

lemma run_ops_steps: "pod_step\<^sup>*\<^sup>* s (run_ops env ops s)"
proof (induction ops arbitrary: s)
  case (Cons op ops)
  have "pod_step\<^sup>*\<^sup>* s (snd (run_op env op s))"
    by (rule withinD [OF within_run_op]) (rule prod.collapse [symmetric])
  with Cons.IH show ?case by (simp, meson rtranclp_trans)
qed simp

text \<open>The life of a pod: created, started, and then any operations.\<close>

definition pod_life :: "env \<Rightarrow> (garden \<Rightarrow> string result) \<Rightarrow> pod_op list \<Rightarrow> pod \<times> history \<Rightarrow> pod \<times> history" where
  "pod_life env gyaml ops s = run_ops env ops (snd (pod_start env gyaml s))"

text \<open>C5: A created pod supervisor refines the state machine of \<open>pod_step\<close>: starting it and then calling
  its operations in any order and number, failing or not, in any world, is a sequence of its steps.\<close>
theorem pod_refines:
  assumes "pod_new run_id g = Inr p"
  shows "pod_step\<^sup>*\<^sup>* (p, h) (pod_life env gyaml ops (p, h))"
proof -
  have "pod_step\<^sup>*\<^sup>* (p, h) (snd (pod_start env gyaml (p, h)))"
    by (rule start_steps [OF pod_new_fresh [OF assms]]) (rule prod.collapse [symmetric])
  then show ?thesis
    unfolding pod_life_def by (rule rtranclp_trans [OF _ run_ops_steps])
qed

section \<open>What the steps keep\<close>

text \<open>The number of a container's phase.\<close>

fun phase :: "container_state \<Rightarrow> nat" where
  "phase CInit = 0"
| "phase CStarting = 1"
| "phase CRunning = 2"
| "phase (CExited _) = 3"
| "phase (CFailed _) = 3"
| "phase (CBackoff _) = 4"

text \<open>The states ordered by their phases.\<close>

instantiation container_state :: preorder
begin

definition less_eq_container_state :: "container_state \<Rightarrow> container_state \<Rightarrow> bool" where
  "less_eq_container_state s t \<longleftrightarrow> phase s \<le> phase t"

definition less_container_state :: "container_state \<Rightarrow> container_state \<Rightarrow> bool" where
  "less_container_state s t \<longleftrightarrow> phase s < phase t"

instance
  by standard (auto simp: less_eq_container_state_def less_container_state_def)

end

definition handle_ok :: "handle \<Rightarrow> bool" where
  "handle_ok c \<longleftrightarrow> (ch_state c = CRunning \<longleftrightarrow> ch_pid c \<noteq> None) \<and>
     secs 1 \<le> ch_backoff c \<and> ch_backoff c \<le> secs 30 \<and>
     (\<forall>err. ch_state c \<noteq> CFailed err) \<and> (\<forall>b. ch_state c = CBackoff b \<longrightarrow> b = ch_backoff c)"

lemma cstep_ok: "cstep policy c c' \<Longrightarrow> handle_ok c \<Longrightarrow> handle_ok c' \<and> ch_state c \<le> ch_state c'"
proof (induction rule: cstep.induct)
  case (delayed c b)
  then show ?case
    by (cases policy; cases "ch_state c") (auto simp: handle_ok_def next_backoff_def secs_def less_eq_container_state_def)
qed (auto simp: handle_ok_def reset_backoff_def secs_def less_eq_container_state_def)

lemma cstep_backoff: "cstep policy c c' \<Longrightarrow> handle_ok c \<Longrightarrow> ch_state c = CBackoff b \<Longrightarrow> False"
  by (cases policy) (auto simp: handle_ok_def elim!: cstepE)

lemma cstep_static: "cstep policy c c' \<Longrightarrow> ch_name c' = ch_name c \<and> ch_spec c' = ch_spec c \<and> ch_cgroup_path c' = ch_cgroup_path c"
  by (auto simp: reset_backoff_def elim!: cstepE)

text \<open>What never changes.\<close>

definition pod_static :: "pod \<Rightarrow> string \<times> garden \<times> restart_policy \<times> string \<times> u32 \<times> (string \<times> container \<times> string) list" where
  "pod_static p = (pd_run_id p, pd_garden p, pd_restart_policy p, pd_netns_name p, pd_max_restarts p,
     map (\<lambda>c. (ch_name c, ch_spec c, ch_cgroup_path c)) (pd_containers p))"

definition pod_ok :: "pod \<Rightarrow> bool" where
  "pod_ok p \<longleftrightarrow> (\<forall>c \<in> set (pd_containers p). handle_ok c)"

definition older :: "handle \<Rightarrow> handle \<Rightarrow> bool" where
  "older c c' \<longleftrightarrow> ch_state c \<le> ch_state c' \<and> (\<forall>b. ch_state c = CBackoff b \<longrightarrow> c' = c)"

lemma older_refl: "older c c" and older_trans: "older a b \<Longrightarrow> older b c \<Longrightarrow> older a c"
  by (auto simp: older_def intro: order_trans)

definition ages :: "pod \<Rightarrow> pod \<Rightarrow> bool" where
  "ages p p' \<longleftrightarrow> pod_ok p' \<and> pod_static p' = pod_static p \<and>
     list_all2 older (pd_containers p) (pd_containers p')"

lemma ages_refl: "pod_ok p \<Longrightarrow> ages p p"
  by (simp add: ages_def list_all2_refl older_refl)

lemma ages_trans: "ages p q \<Longrightarrow> ages q r \<Longrightarrow> ages p r"
  unfolding ages_def by (auto intro: list_all2_trans [OF older_trans])

lemma ages_same: "pod_ok p \<Longrightarrow> pod_static p' = pod_static p \<Longrightarrow> pd_containers p' = pd_containers p \<Longrightarrow> ages p p'"
  by (simp add: ages_def pod_ok_def list_all2_refl older_refl)

lemma pod_step_ages: "pod_step s s' \<Longrightarrow> pod_ok (fst s) \<Longrightarrow> ages (fst s) (fst s')"
proof (induction rule: pod_step.induct)
  case (container i p c h)
  let ?cs = "pd_containers p"
  from container have ok: "handle_ok (?cs ! i)" by (simp add: pod_ok_def)
  from cstep_ok [OF container(2) ok] have new: "handle_ok c" "ch_state (?cs ! i) \<le> ch_state c" by auto
  have "older (?cs ! i) c"
    using new(2) cstep_backoff [OF container(2) ok] by (auto simp: older_def)
  then have "list_all2 older ?cs (?cs[i := c])"
    using container(1) by (simp add: list_all2_conv_all_nth nth_list_update older_refl)
  moreover have "pod_static (p\<lparr>pd_containers := ?cs[i := c]\<rparr>) = pod_static p"
    using cstep_static [OF container(2)] container(1)
    by (auto simp: pod_static_def map_update list_update_same_conv)
  moreover have "pod_ok (p\<lparr>pd_containers := ?cs[i := c]\<rparr>)"
    using container(3) new(1) by (auto simp: pod_ok_def dest: set_update_subset_insert [THEN subsetD])
  ultimately show ?case by (simp add: ages_def)
qed (auto intro: ages_same simp: pod_static_def)

lemma pod_steps_age: "pod_step\<^sup>*\<^sup>* s s' \<Longrightarrow> pod_ok (fst s) \<Longrightarrow> ages (fst s) (fst s')"
proof (induction rule: rtranclp_induct)
  case base
  then show ?case by (rule ages_refl)
next
  case (step y z)
  then have "ages (fst s) (fst y)" by simp
  moreover from this have "ages (fst y) (fst z)" by (intro pod_step_ages [OF step(2)]) (simp add: ages_def)
  ultimately show ?case by (rule ages_trans)
qed

lemma pod_new_ok: "pod_new run_id g = Inr p \<Longrightarrow> pod_ok p"
  by (auto simp: pod_new_def pod_ok_def handle_ok_def handle_new_def secs_def)

text \<open>C6: At every point of a pod's life, whatever the world did, a container holds a pid exactly while it is
  running, its back-off lies between 1 and 30 seconds, no container is ever marked failed, and the
  containers are those of the manifest, in its order, under the manifest's restart policy.\<close>
theorem pod_invariant:
  assumes "pod_new run_id g = Inr p" "pod_life env gyaml ops (p, h) = (p', h')"
  shows "(\<forall>c \<in> set (pd_containers p'). handle_ok c) \<and>
     map ch_spec (pd_containers p') = gd_containers g \<and>
     map ch_name (pd_containers p') = map ct_name (gd_containers g) \<and>
     get_restart_policy g = Inr (pd_restart_policy p')"
proof -
  have "ages p p'"
    using pod_steps_age [OF pod_refines [OF assms(1), of h env gyaml ops]] pod_new_ok [OF assms(1)] assms(2) by simp
  then have ok: "pod_ok p'" and static: "pod_static p' = pod_static p" by (auto simp: ages_def)
  let ?f = "\<lambda>c. (ch_name c, ch_spec c, ch_cgroup_path c)"
  from static have m: "map ?f (pd_containers p') = map ?f (pd_containers p)"
    and r: "pd_restart_policy p' = pd_restart_policy p" by (simp_all add: pod_static_def)
  have "map ch_spec (pd_containers p') = map (fst \<circ> snd) (map ?f (pd_containers p'))"
    "map ch_name (pd_containers p') = map fst (map ?f (pd_containers p'))" by simp_all
  moreover have "map (fst \<circ> snd) (map ?f (pd_containers p)) = gd_containers g"
    "map fst (map ?f (pd_containers p)) = map ct_name (gd_containers g)"
    "get_restart_policy g = Inr (pd_restart_policy p)"
    using assms(1) by (auto simp: pod_new_def handle_new_def comp_def)
  ultimately show ?thesis using ok m r by (simp add: pod_ok_def)
qed

section \<open>Nothing is restarted\<close>

text \<open>The calls of an operation on the supervisor.\<close>

definition adds :: "(call \<times> reply \<Rightarrow> bool) \<Rightarrow> pod \<times> history \<Rightarrow> pod \<times> history \<Rightarrow> bool" where
  "adds P s s' \<longleftrightarrow> (\<exists>t. snd s' = snd s @ t \<and> (\<forall>e \<in> set t. P e))"

lemma adds_rel: "reflp (adds P)" "transp (adds P)"
  by (fastforce simp: adds_def intro!: reflpI transpI)+

lemma adds_call: "emits P m \<Longrightarrow> within (adds P) (on_history m)"
  by (rule within_one) (auto simp: adds_def on_history_def split: prod.splits dest: emitsD)

lemma adds_update: "within (adds P) (update_state f)" and adds_set: "within (adds P) (set_container i g)"
  unfolding set_container_def by (rule within_one; auto simp: adds_def update_state_def split: prod.splits)+

lemma adds_event: "(\<And>c r. P (StoreCall c, r)) \<Longrightarrow> (\<And>r. P (UtcNow, r)) \<Longrightarrow> within (adds P) (pod_event env mk)"
  unfolding pod_event_def append_event_def by (intro within_intros adds_call emits_intros)

definition no_fork :: "call \<times> reply \<Rightarrow> bool" where
  "no_fork e \<longleftrightarrow> fst e \<noteq> Pod Fork"

lemmas no_fork_intros = within_intros adds_call adds_update adds_set adds_event

lemma reap_no_fork: "within (adds no_fork) (reap_exited_processes fuel env)"
proof (induction fuel)
  case (Suc fuel)
  have "within (adds no_fork) (note_exit env pid code)" for pid code
    unfolding note_exit_def by (intro no_fork_intros) (simp_all add: no_fork_def)
  moreover have "within (adds no_fork) (on_history (sys env (Proc (WaitPid (- 1) True))))"
    by (intro adds_call emits_intros) (simp add: no_fork_def)
  ultimately show ?case using Suc
    by (auto split: reply.splits wait_status.splits intro!: within_intros)
qed (simp add: within_intros)

lemma cleanup_no_fork: "within (adds no_fork) (cleanup_after_stop env)"
  unfolding cleanup_after_stop_def cleanup_network_def
  by (intro no_fork_intros emits_intros) (simp_all add: no_fork_def)

lemma stop_all_no_fork: "within (adds no_fork) (stop_all env)"
  unfolding stop_all_def stop_one_def
  by (intro no_fork_intros cleanup_no_fork) (simp_all add: no_fork_def)

lemma instant_no_fork: "within (adds no_fork) (instant_now env)" "within (adds no_fork) (sleep_100ms env)"
  unfolding instant_now_def sleep_100ms_def by (intro no_fork_intros emits_intros; simp add: no_fork_def)+

lemma tick_no_fork: "within (adds no_fork) (pod_tick fuel env)"
proof -
  have "within (adds no_fork) (tick_container env i)" for i
    unfolding tick_container_def reset_backoff_if_stable_def is_crash_looping_def schedule_restart_def Let_def
    by (intro no_fork_intros instant_no_fork stop_all_no_fork)
  then have "within (adds no_fork) (tick_containers env is)" for "is"
    by (induction "is") (simp_all add: within_intros)
  then show ?thesis
    unfolding pod_tick_def by (intro within_intros reap_no_fork)
qed

lemma await_exit_no_fork: "within (adds no_fork) (await_exit k env start timeout)"
  by (induction k) (simp_all del: reap_exited_processes.simps,
    (intro within_intros reap_no_fork instant_no_fork; assumption?)+)

lemma await_killed_no_fork: "within (adds no_fork) (await_killed n fuel env)"
  by (induction n) (simp_all, (intro within_intros reap_no_fork instant_no_fork; assumption?)+)

lemma signal_all_no_fork: "within (adds no_fork) (signal_all env name sig)"
  unfolding signal_all_def signal_container_def
  by (intro no_fork_intros emits_intros) (simp_all add: no_fork_def)

lemma event_no_fork: "within (adds no_fork) (pod_event env mk)"
  by (intro adds_event) (simp_all add: no_fork_def)

lemma stop_graceful_no_fork: "within (adds no_fork) (stop_graceful fuel env timeout)"
  unfolding stop_graceful_def
  by (intro within_intros instant_no_fork cleanup_no_fork await_exit_no_fork await_killed_no_fork
    signal_all_no_fork event_no_fork)

lemma run_ops_no_fork: "adds no_fork s (run_ops env ops s)"
proof (induction ops arbitrary: s)
  case (Cons op ops)
  have "within (adds no_fork) (run_op env op)"
    by (cases op) (simp_all del: reap_exited_processes.simps
      add: reap_no_fork tick_no_fork stop_all_no_fork stop_graceful_no_fork)
  then have "adds no_fork s (snd (run_op env op s))"
    by (rule within_rel [OF _ prod.collapse [symmetric] _ adds_rel])
  with Cons.IH show ?case by (simp, meson adds_rel(2) transpD)
qed (simp add: adds_rel(1) reflpD)

text \<open>C13: A container runs at most once. After the start no operation forks, the phases of the containers
  only move forward (initial, starting, running, ended, back-off), and a container in back-off is never
  touched again: the restart its delay stands for does not happen, in any sequence of ticks.\<close>
theorem never_restarted:
  assumes "pod_new run_id g = Inr p" "pod_life env gyaml ops (p, h) = (p1, h1)"
    "run_ops env ops' (p1, h1) = (p2, h2)"
  shows "list_all2 older (pd_containers p1) (pd_containers p2) \<and>
     (\<exists>t. h2 = h1 @ t \<and> (\<forall>e \<in> set t. fst e \<noteq> Pod Fork))"
proof -
  have "pod_ok p1"
    using pod_steps_age [OF pod_refines [OF assms(1), of h env gyaml ops]] pod_new_ok [OF assms(1)] assms(2)
    by (simp add: ages_def)
  then have "ages p1 p2" using pod_steps_age [OF run_ops_steps, of "(p1, h1)" env ops'] assms(3) by simp
  moreover have "adds no_fork (p1, h1) (p2, h2)" using run_ops_no_fork [of "(p1, h1)" env ops'] assms(3) by simp
  ultimately show ?thesis by (auto simp: ages_def adds_def no_fork_def)
qed

end
