(* ===== verification/Pod_Exits.thy ===== *)
theory Pod_Exits
  imports Pod_Machine
begin

text \<open>
  Reaping and stopping a pod: what \<open>reap_exited_processes\<close> records is exactly what \<open>waitpid\<close> reported,
  the loops end when the world settles, and what a graceful stop has done when it returns.
\<close>

section \<open>What the kernel reported\<close>

fun exit_of :: "call \<times> reply \<Rightarrow> (int \<times> int) list" where
  "exit_of (Proc (WaitPid who nohang), RWait (Exited pid code)) = [(pid, code)]"
| "exit_of (Proc (WaitPid who nohang), RWait (Signaled pid sig)) = [(pid, 128 + sig)]"
| "exit_of _ = []"

definition exits :: "history \<Rightarrow> (int \<times> int) list" where
  "exits t = concat (map exit_of t)"

lemma exits_simps [simp]: "exits [] = []" "exits (e # t) = exit_of e @ exits t" "exits (s @ t) = exits s @ exits t"
  by (simp_all add: exits_def)

text \<open>A container after the reported exits: the first report of its pid ends it.\<close>

definition after_exits :: "(int \<times> int) list \<Rightarrow> handle \<Rightarrow> handle" where
  "after_exits es c =
     (case Option.bind (ch_pid c) (map_of es) of
        None \<Rightarrow> c
      | Some code \<Rightarrow> c\<lparr>ch_state := CExited code, ch_pid := None\<rparr>)"

lemma after_exits_Nil [simp]: "after_exits [] = id"
  by (auto simp: after_exits_def fun_eq_iff split: option.splits bind_splits)

lemma after_exits_Cons:
  "after_exits ((pid, code) # es) c =
     (if ch_pid c = Some pid then c\<lparr>ch_state := CExited code, ch_pid := None\<rparr> else after_exits es c)"
  by (cases "ch_pid c") (auto simp: after_exits_def)

lemma after_exits_none [simp]: "ch_pid c = None \<Longrightarrow> after_exits es c = c"
  by (simp add: after_exits_def)

text \<open>No two containers hold one pid.\<close>

fun own_pids :: "handle list \<Rightarrow> bool" where
  "own_pids [] \<longleftrightarrow> True"
| "own_pids (c # cs) \<longleftrightarrow> (\<forall>d \<in> set cs. ch_pid c = None \<or> ch_pid d \<noteq> ch_pid c) \<and> own_pids cs"

lemma own_pids_after: "own_pids cs \<Longrightarrow> own_pids (map (after_exits es) cs)"
proof (induction cs)
  case (Cons c cs)
  have "ch_pid (after_exits es d) = None \<or> ch_pid (after_exits es d) = ch_pid d" for d
    by (auto simp: after_exits_def split: option.splits)
  with Cons show ?case by simp metis
qed simp

lemma find_none: "find_index P cs = None \<Longrightarrow> \<forall>c \<in> set cs. \<not> P c"
  by (induction cs) (auto split: if_splits)

lemma found_pid:
  "own_pids cs \<Longrightarrow> find_index (\<lambda>c. ch_pid c = Some pid) cs = Some i \<Longrightarrow>
     cs[i := (cs ! i)\<lparr>ch_state := CExited code, ch_pid := None\<rparr>] = map (after_exits [(pid, code)]) cs"
proof (induction cs arbitrary: i)
  case (Cons c cs)
  show ?case
  proof (cases "ch_pid c = Some pid")
    case True
    with Cons.prems have "\<forall>d \<in> set cs. ch_pid d \<noteq> Some pid" "i = 0" by auto
    with True show ?thesis by (auto simp: after_exits_Cons intro!: map_idI [symmetric])
  next
    case False
    with Cons.prems obtain j where "find_index (\<lambda>c. ch_pid c = Some pid) cs = Some j" "i = Suc j" by auto
    with Cons False show ?thesis by (simp add: after_exits_Cons)
  qed
qed simp

lemma own_pids_unique:
  "own_pids cs \<Longrightarrow> c \<in> set cs \<Longrightarrow> i < length cs \<Longrightarrow> ch_pid c = Some pid \<Longrightarrow> ch_pid (cs ! i) = Some pid \<Longrightarrow> c = cs ! i"
proof (induction cs arbitrary: i)
  case (Cons d ds)
  then show ?case by (cases i) auto
qed simp

section \<open>Reaping\<close>

text \<open>An event of the pod was accepted.\<close>

definition exit_recorded :: "pod \<Rightarrow> string \<Rightarrow> int \<Rightarrow> history \<Rightarrow> bool" where
  "exit_recorded p name code t \<longleftrightarrow>
     (\<exists>ts. AppendEvent (pd_run_id p) (event_json (container_exit (pod_events p) name code ts)) \<in> set (accepted_calls t))"

lemma pod_event_state:
  "pod_event env mk (p, h) = (r, (p', h')) \<longleftrightarrow> p' = p \<and> append_event env (pd_run_id p) (mk (pod_events p)) h = (r, h')"
  by (auto simp: pod_event_def io_bind_def get_state_def on_history_def split: prod.splits)

lemma append_event_quiet: "append_event env run mk h = (r, h') \<Longrightarrow> \<exists>t. h' = h @ t \<and> exits t = []"
proof -
  assume run: "append_event env run mk h = (r, h')"
  have "emits (\<lambda>e. exit_of e = []) (append_event env run mk)"
    unfolding append_event_def by (intro emits_intros) simp_all
  from emitsD [OF this run] show ?thesis by (auto simp: exits_def)
qed

lemma append_event_accepted:
  "append_event env run mk h = (Inr (), h') \<Longrightarrow>
     \<exists>t ts. h' = h @ t \<and> AppendEvent run (event_json (mk ts)) \<in> set (accepted_calls t)"
  by (auto simp: append_event_def store_def io_bind_ok sys_unit_ok now_rfc3339_def sys_ok)

definition noted :: "pod \<Rightarrow> (int \<times> int) list \<Rightarrow> unit result \<Rightarrow> history \<Rightarrow> pod \<Rightarrow> bool" where
  "noted p es r t p' \<longleftrightarrow> pod_events p' = pod_events p \<and> pd_run_id p' = pd_run_id p \<and>
     pd_containers p' = map (after_exits es) (pd_containers p) \<and>
     (r = Inr () \<longrightarrow> (\<forall>c \<in> set (pd_containers p). \<forall>code. Option.bind (ch_pid c) (map_of es) = Some code \<longrightarrow>
        exit_recorded p (ch_name c) code t))"

lemma note_exit_noted:
  assumes "own_pids (pd_containers p)" "note_exit env pid code (p, h) = (r, (p', h'))"
  shows "\<exists>t. h' = h @ t \<and> exits t = [] \<and> noted p [(pid, code)] r t p'"
proof (cases "find_index (\<lambda>c. ch_pid c = Some pid) (pd_containers p)")
  case None
  from find_none [OF this] have none: "\<forall>c \<in> set (pd_containers p). ch_pid c \<noteq> Some pid" .
  then have "map (after_exits [(pid, code)]) (pd_containers p) = pd_containers p"
    by (auto simp: after_exits_Cons intro!: map_idI)
  moreover from none have "Option.bind (ch_pid c) (map_of [(pid, code)]) = None" if "c \<in> set (pd_containers p)" for c
    using that by (cases "ch_pid c") auto
  ultimately show ?thesis using assms(2) None
    by (auto simp: note_exit_def io_bind_def get_state_def noted_def)
next
  case (Some i)
  let ?c = "pd_containers p ! i"
  let ?p = "p\<lparr>pd_containers := map (after_exits [(pid, code)]) (pd_containers p)\<rparr>"
  from found_pid [OF assms(1) Some, of code] assms(2) Some
  have p': "p' = ?p" and run: "append_event env (pd_run_id p) (container_exit (pod_events p) (ch_name ?c) code) h = (r, h')"
    by (auto simp: note_exit_def io_bind_def io_seq_def get_state_def set_container_def update_state_def pod_event_state
        pod_events_def garden_id_def)
  have at_i: "c = ?c" if "c \<in> set (pd_containers p)" "ch_pid c = Some pid" for c
    using own_pids_unique [OF assms(1) that(1)] find_index_Some [OF Some] that(2) by auto
  from append_event_quiet [OF run] obtain t where t: "h' = h @ t" "exits t = []" by blast
  have "exit_recorded p (ch_name ?c) code t" if "r = Inr ()"
    using append_event_accepted [of env "pd_run_id p" _ h h'] run that t(1) unfolding exit_recorded_def by blast
  then have "noted p [(pid, code)] r t p'"
    using p' at_i by (auto simp: noted_def pod_events_def garden_id_def bind_eq_Some_conv split: if_splits)
  with t show ?thesis by blast
qed

lemma after_exits_twice: "after_exits es (after_exits [(pid, code)] c) = after_exits ((pid, code) # es) c"
  by (auto simp: after_exits_Cons)

lemma noted_Cons:
  assumes "noted p [(pid, code)] (Inr ()) t p1" "noted p1 es r u p2"
  shows "noted p ((pid, code) # es) r (t @ u) p2"
proof -
  from assms have same: "pod_events p1 = pod_events p" "pd_run_id p1 = pd_run_id p"
    and p1: "pd_containers p1 = map (after_exits [(pid, code)]) (pd_containers p)" by (simp_all add: noted_def)
  have "exit_recorded p (ch_name c) x (t @ u)"
    if ok: "r = Inr ()" and c: "c \<in> set (pd_containers p)" "ch_pid c = Some q" "map_of ((pid, code) # es) q = Some x" for c q x
  proof (cases "q = pid")
    case True
    with c have "exit_recorded p (ch_name c) x t" using assms(1) by (auto simp: noted_def)
    then show ?thesis unfolding exit_recorded_def by auto
  next
    case False
    with c have "c \<in> set (pd_containers p1)" by (auto simp: p1 after_exits_Cons image_iff intro!: bexI [of _ c])
    with c False ok have "exit_recorded p1 (ch_name c) x u" using assms(2) by (auto simp: noted_def)
    then show ?thesis unfolding exit_recorded_def same by auto
  qed
  with assms p1 show ?thesis
    by (auto simp: noted_def after_exits_twice bind_eq_Some_conv)
qed

lemma noted_Nil: "noted p [] r t p"
  by (simp add: noted_def)

lemma noted_error: "noted p es (Inl e) t p' \<longleftrightarrow> pod_events p' = pod_events p \<and> pd_run_id p' = pd_run_id p \<and>
     pd_containers p' = map (after_exits es) (pd_containers p)"
  by (simp add: noted_def)

lemma noted_own: "noted p es r t p' \<Longrightarrow> own_pids (pd_containers p) \<Longrightarrow> own_pids (pd_containers p')"
  by (simp add: noted_def own_pids_after)

lemma noted_entry: "noted p es r t p' \<Longrightarrow> noted p es r (e # t) p'"
  using accepted_calls_append [of "[e]" t] by (auto simp: noted_def exit_recorded_def)

definition reaped :: "pod \<times> history \<Rightarrow> unit result \<Rightarrow> pod \<times> history \<Rightarrow> bool" where
  "reaped s r s' \<longleftrightarrow> (\<exists>t. snd s' = snd s @ t \<and> noted (fst s) (exits t) r t (fst s'))"

lemma reaped_entry:
  "exit_of e = [] \<Longrightarrow> reaped (p, h @ [e]) r s' \<Longrightarrow> reaped (p, h) r s'"
  unfolding reaped_def using noted_entry by fastforce

lemma reaped_exit:
  assumes own: "own_pids (pd_containers p)" and e: "exit_of e = [(pid, code)]"
    and run: "io_seq (note_exit env pid code) m (p, h @ [e]) = (r, s')"
    and m: "\<And>p h. own_pids (pd_containers p) \<Longrightarrow> m (p, h) = (r, s') \<Longrightarrow> reaped (p, h) r s'"
  shows "reaped (p, h) r s'"
proof -
  obtain r1 p1 h1 where 1: "note_exit env pid code (p, h @ [e]) = (r1, (p1, h1))" by (metis surj_pair)
  from note_exit_noted [OF own 1] obtain t where t: "h1 = h @ e # t" "exits t = []" "noted p [(pid, code)] r1 t p1" by auto
  show ?thesis
  proof (cases r1)
    case (Inl x)
    with run 1 have "r = Inl x" "s' = (p1, h1)" by (auto simp: io_seq_cases)
    with t e Inl show ?thesis by (auto simp: reaped_def noted_error)
  next
    case (Inr x)
    with run 1 have "m (p1, h1) = (r, s')" by (auto simp: io_seq_cases)
    from m [OF noted_own [OF t(3) own] this] obtain u where
      u: "snd s' = h1 @ u" "noted p1 (exits u) r u (fst s')" by (auto simp: reaped_def)
    from noted_Cons [OF _ u(2), of p pid code t] t(3) Inr
    have "noted p ((pid, code) # exits u) r (t @ u) (fst s')" by simp
    with t u e show ?thesis using noted_entry [of p _ r "t @ u" "fst s'" e]
      by (auto simp: reaped_def intro!: exI [of _ "e # t @ u"])
  qed
qed

lemma reap_reaped:
  "own_pids (pd_containers p) \<Longrightarrow> reap_exited_processes fuel env (p, h) = (r, s') \<Longrightarrow> reaped (p, h) r s'"
proof (induction fuel arbitrary: p h)
  case 0
  then show ?case by (auto simp: reaped_def intro: noted_Nil)
next
  case (Suc fuel)
  let ?y = "env h (Proc (WaitPid (- 1) True))"
  let ?e = "(Proc (WaitPid (- 1) True), ?y)"
  have run: "(if ?y = RKilled then (Inl Killed, (p, h @ [?e]))
     else (case ?y of
       RWait st \<Rightarrow>
         (case st of
            Exited pid exit_code \<Rightarrow> io_seq (note_exit env pid exit_code) (reap_exited_processes fuel env)
          | Signaled pid signal \<Rightarrow> io_seq (note_exit env pid (128 + signal)) (reap_exited_processes fuel env)
          | StillAlive \<Rightarrow> io_return ()
          | _ \<Rightarrow> reap_exited_processes fuel env)
     | REintr \<Rightarrow> reap_exited_processes fuel env
     | _ \<Rightarrow> io_return ()) (p, h @ [?e])) = (r, s')"
    using Suc.prems(2) by (simp add: io_bind_def on_history_def sys_def Let_def split: if_splits)
  consider (stop) "exit_of ?e = []" "s' = (p, h @ [?e])"
    | (again) "exit_of ?e = []" "reap_exited_processes fuel env (p, h @ [?e]) = (r, s')"
    | (exit) pid code where "exit_of ?e = [(pid, code)]"
        "io_seq (note_exit env pid code) (reap_exited_processes fuel env) (p, h @ [?e]) = (r, s')"
  proof (cases ?y)
    case (RWait st)
    with run that show ?thesis by (cases st) auto
  qed (use run that in auto)
  then show ?case
  proof cases
    case stop
    then show ?thesis by (auto simp: reaped_def intro: noted_Nil)
  next
    case again
    show ?thesis by (rule reaped_entry [OF again(1) Suc.IH [OF Suc.prems(1) again(2)]])
  next
    case exit
    show ?thesis by (rule reaped_exit [OF Suc.prems(1) exit Suc.IH])
  qed
qed

text \<open>C7: A round of reaping records exactly what the kernel reported: afterwards every container whose pid was
  among the reported exits has ended with the code of its first report (128 and the signal's number when
  a signal ended it) and holds no pid, every other container is as before, and when the round succeeded
  each of these exits has been accepted by the store as an event of that container.\<close>
theorem reap_records_exits:
  assumes "own_pids (pd_containers p)" "reap_exited_processes fuel env (p, h) = (r, (p', h'))"
  shows "\<exists>t. h' = h @ t \<and> pd_containers p' = map (after_exits (exits t)) (pd_containers p) \<and>
     (r = Inr () \<longrightarrow> (\<forall>c \<in> set (pd_containers p). \<forall>pid code. ch_pid c = Some pid \<longrightarrow> map_of (exits t) pid = Some code \<longrightarrow>
        exit_recorded p (ch_name c) code t))"
  using reap_reaped [OF assms] by (auto simp: reaped_def noted_def)

section \<open>The loops end\<close>

text \<open>\<open>ends m\<close>: no run of \<open>m\<close> stops for lack of fuel.\<close>

named_theorems ends_intros "closure of \<open>ends\<close> under the program constructs"

definition ends :: "('s, 'a) io \<Rightarrow> bool" where
  "ends m \<longleftrightarrow> (\<forall>s. fst (m s) \<noteq> Inl NoFuel)"

lemma endsD: "ends m \<Longrightarrow> m s = (r, s') \<Longrightarrow> r \<noteq> Inl NoFuel"
  unfolding ends_def by (metis fst_conv)

lemma ends_pure [ends_intros]: "ends (io_return x)" "ends (io_bail c)"
  by (simp_all add: ends_def io_return_def io_bail_def io_lift_def bail_def)

lemma ends_bind [ends_intros]: "ends m \<Longrightarrow> (\<And>x. ends (f x)) \<Longrightarrow> ends (io_bind m f)"
  unfolding ends_def io_bind_def by (auto split: prod.splits sum.splits) (metis fst_conv)+

lemma ends_seq [ends_intros]: "ends m \<Longrightarrow> ends n \<Longrightarrow> ends (io_seq m n)"
  by (simp add: io_seq_def ends_bind)

lemma with_ctx_NoFuel: "with_ctx c r = Inl NoFuel \<longleftrightarrow> r = Inl NoFuel"
  by (cases "(c, r)" rule: with_ctx.cases) auto

lemma ends_ctx [ends_intros]: "ends m \<Longrightarrow> ends (io_ctx c m)"
  unfolding ends_def io_ctx_def by (auto split: prod.splits simp: with_ctx_NoFuel) (metis fst_conv)

lemma ends_attempt [ends_intros]: "ends m \<Longrightarrow> ends (io_attempt m)"
  unfolding ends_def io_attempt_def by (auto split: prod.splits sum.splits error.splits) (metis fst_conv)+

lemma ends_when [ends_intros]: "ends m \<Longrightarrow> ends (io_when b m)"
  by (simp add: io_when_def ends_pure)

lemma ends_each [ends_intros]: "(\<And>x. ends (f x)) \<Longrightarrow> ends (io_each f xs)"
  by (induction xs) (auto intro: ends_intros)

lemma ends_case_option [ends_intros]:
  "ends m \<Longrightarrow> (\<And>x. ends (f x)) \<Longrightarrow> ends (case v of None \<Rightarrow> m | Some x \<Rightarrow> f x)"
  by (cases v) auto

lemma ends_if [ends_intros]: "ends m \<Longrightarrow> ends n \<Longrightarrow> ends (if b then m else n)"
  by simp

lemma ends_history [ends_intros]: "ends m \<Longrightarrow> ends (on_history m)"
  unfolding ends_def on_history_def by (auto split: prod.splits) (metis fst_conv)

lemma ends_state [ends_intros]: "ends get_state" "ends (update_state f)" "ends (set_container i g)"
  by (auto simp: ends_def get_state_def update_state_def set_container_def split: prod.splits)

lemma ends_sys [ends_intros]: "ends (sys env c)"
  by (auto simp: ends_def sys_def Let_def)

lemma ends_sys_unit [ends_intros]: "ends (sys_unit env c)"
proof -
  have "as_unit r \<noteq> Inl NoFuel" for r by (cases r) (auto simp: bail_def)
  then have "ends (io_lift (as_unit r) :: (history, unit) io)" for r by (simp add: ends_def io_lift_def)
  then show ?thesis unfolding sys_unit_def by (intro ends_intros)
qed

lemma ends_calls [ends_intros]: "ends (sys_exists env q)" "ends (now_rfc3339 env)" "ends (store env k)"
  "ends (append_event env run mk)" "ends (sys_id env c)"
  unfolding sys_exists_def now_rfc3339_def store_def append_event_def sys_id_def
  by (intro ends_intros)+

lemma ends_pod [ends_intros]: "ends (pod_event env mk)" "ends (instant_now env)" "ends (sleep_100ms env)"
  unfolding pod_event_def instant_now_def sleep_100ms_def by (intro ends_intros)+

lemma ends_delete_netns: "ends (delete_netns env n)"
  unfolding delete_netns_def netns_exists_def ip_cmd_def run_cmd_def sys_output_def
  by (intro ends_intros) (auto split: reply.splits intro!: ends_intros)

lemma ends_cleanup [ends_intros]: "ends (cleanup_after_stop env)"
  unfolding cleanup_after_stop_def cleanup_network_def by (intro ends_intros ends_delete_netns)

lemma ends_signal_all [ends_intros]: "ends (signal_all env name sig)"
  unfolding signal_all_def signal_container_def by (intro ends_intros)

lemma ends_note_exit [ends_intros]: "ends (note_exit env pid code)"
  unfolding note_exit_def by (intro ends_intros)

text \<open>The non-blocking waits of a history, and a world in which at most \<open>n\<close> of them report something.\<close>

definition waits :: "history \<Rightarrow> nat" where
  "waits h = length (filter (\<lambda>e. fst e = Proc (WaitPid (- 1) True)) h)"

lemma waits_append [simp]: "waits (h @ t) = waits h + waits t" and waits_Nil [simp]: "waits [] = 0"
  and waits_Cons [simp]: "waits ((c, y) # t) = (if c = Proc (WaitPid (- 1) True) then Suc (waits t) else waits t)"
  by (simp_all add: waits_def)

definition settles :: "env \<Rightarrow> nat \<Rightarrow> bool" where
  "settles env n \<longleftrightarrow>
     (\<forall>h. n \<le> waits h \<longrightarrow> env h (Proc (WaitPid (- 1) True)) \<in> {RWait StillAlive, REchild})"

lemma reap_cases:
  assumes "reap_exited_processes (Suc fuel) env (p, h) = (r, s')"
  defines "y \<equiv> env h (Proc (WaitPid (- 1) True))"
  shows "(\<exists>p1 t. waits t \<ge> 1 \<and> reap_exited_processes fuel env (p1, h @ t) = (r, s') \<and> y \<notin> {RWait StillAlive, REchild}) \<or>
     (\<exists>t. waits t \<ge> 1 \<and> snd s' = h @ t \<and> r \<noteq> Inl NoFuel)"
proof -
  let ?e = "(Proc (WaitPid (- 1) True), y)"
  have exit: ?thesis if "io_seq (note_exit env pid code) (reap_exited_processes fuel env) (p, h @ [?e]) = (r, s')"
    "y \<notin> {RWait StillAlive, REchild}" for pid code
  proof -
    obtain r1 p1 h1 where 1: "note_exit env pid code (p, h @ [?e]) = (r1, (p1, h1))" by (metis surj_pair)
    have "within (adds (\<lambda>_. True)) (note_exit env pid code)"
      unfolding note_exit_def by (intro no_fork_intros) simp_all
    from within_rel [OF this 1 _ adds_rel] obtain t where "h1 = h @ ?e # t" by (auto simp: adds_def)
    moreover have "waits (?e # t) \<ge> 1" by (simp add: waits_def)
    moreover have "r1 \<noteq> Inl NoFuel" by (rule endsD [OF ends_note_exit 1])
    ultimately show ?thesis using that 1 by (cases r1) (auto simp: io_seq_cases)
  qed
  have again: ?thesis if "reap_exited_processes fuel env (p, h @ [?e]) = (r, s')" "y \<notin> {RWait StillAlive, REchild}"
    using that by (intro disjI1 exI [of _ p] exI [of _ "[?e]"]) simp
  have stop: ?thesis if "r \<noteq> Inl NoFuel" "s' = (p, h @ [?e])"
    using that by (intro disjI2 exI [of _ "[?e]"]) simp
  have run: "(if y = RKilled then (Inl Killed, (p, h @ [?e]))
     else (case y of
       RWait st \<Rightarrow>
         (case st of
            Exited pid exit_code \<Rightarrow> io_seq (note_exit env pid exit_code) (reap_exited_processes fuel env)
          | Signaled pid signal \<Rightarrow> io_seq (note_exit env pid (128 + signal)) (reap_exited_processes fuel env)
          | StillAlive \<Rightarrow> io_return ()
          | _ \<Rightarrow> reap_exited_processes fuel env)
     | REintr \<Rightarrow> reap_exited_processes fuel env
     | _ \<Rightarrow> io_return ()) (p, h @ [?e])) = (r, s')"
    using assms(1) by (simp add: y_def io_bind_def on_history_def sys_def Let_def split: if_splits)
  show ?thesis
  proof (cases y)
    case (RWait st)
    with run exit again stop show ?thesis by (cases st) auto
  qed (use run again stop in auto)
qed

text \<open>The histories only grow.\<close>

lemma grows: "within (adds P) m \<Longrightarrow> m (p, h) = (r, (p', h')) \<Longrightarrow> \<exists>t. h' = h @ t"
  by (drule (1) within_rel [OF _ _ _ adds_rel]) (auto simp: adds_def)

lemma reap_waits:
  assumes "reap_exited_processes (Suc fuel) env (p, h) = (r, (p', h'))"
  shows "\<exists>t. h' = h @ t \<and> waits t \<ge> 1"
  using reap_cases [OF assms] grows [OF reap_no_fork] by fastforce

lemma reap_ends:
  "settles env n \<Longrightarrow> 0 < fuel \<Longrightarrow> n < waits h + fuel \<Longrightarrow> reap_exited_processes fuel env (p, h) = (r, s') \<Longrightarrow>
     r \<noteq> Inl NoFuel"
proof (induction fuel arbitrary: p h)
  case (Suc fuel)
  let ?y = "env h (Proc (WaitPid (- 1) True))"
  have "r \<noteq> Inl NoFuel" if "waits t \<ge> 1" "reap_exited_processes fuel env (p1, h @ t) = (r, s')"
    "?y \<notin> {RWait StillAlive, REchild}" for p1 t
  proof -
    have "waits h < n"
    proof (rule ccontr)
      assume "\<not> waits h < n"
      with Suc.prems(1) have "?y \<in> {RWait StillAlive, REchild}" unfolding settles_def by simp
      with that(3) show False ..
    qed
    then show ?thesis using that Suc.prems by (intro Suc.IH [OF Suc.prems(1) _ _ that(2)]) auto
  qed
  with reap_cases [OF Suc.prems(4)] show ?case by blast
qed simp

section \<open>A graceful stop returns\<close>

text \<open>The time slept in a history, in milliseconds, and a clock that counts at least that.\<close>

fun sleep_of :: "call \<times> reply \<Rightarrow> nat" where
  "sleep_of (Pod (SleepMs ms), r) = ms"
| "sleep_of _ = 0"

definition slept :: "history \<Rightarrow> nat" where
  "slept h = sum_list (map sleep_of h)"

definition clock_runs :: "(history \<Rightarrow> int) \<Rightarrow> env \<Rightarrow> bool" where
  "clock_runs clock env \<longleftrightarrow>
     (\<forall>h. env h (Pod InstantNow) = RInt (clock h) \<and> (\<forall>t. clock h + millis (int (slept t)) \<le> clock (h @ t)))"

lemma instant_runs:
  assumes "clock_runs clock env"
  shows "instant_now env (p, h) = (Inr (clock h), (p, h @ [(Pod InstantNow, RInt (clock h))]))"
  using assms by (simp add: clock_runs_def instant_now_def on_history_def sys_id_def sys_def io_bind_def io_return_def Let_def)

lemma clock_later: "clock_runs clock env \<Longrightarrow> clock h \<le> clock (h @ t)"
proof -
  assume "clock_runs clock env"
  then have "clock h + millis (int (slept t)) \<le> clock (h @ t)" by (simp add: clock_runs_def)
  moreover have "0 \<le> millis (int (slept t))" by (simp add: millis_def)
  ultimately show ?thesis by simp
qed

lemma sleep_result:
  "sleep_100ms env (p, h) = (r, s') \<Longrightarrow> snd s' = h @ [(Pod (SleepMs 100), env h (Pod (SleepMs 100)))] \<and> fst s' = p \<and> r \<noteq> Inl NoFuel"
  by (auto simp: sleep_100ms_def on_history_def sys_def Let_def io_bind_def io_return_def split: if_splits)

lemma await_exit_ends:
  assumes env: "settles env n" "clock_runs clock env"
  shows "0 < fuel \<Longrightarrow> n < waits h + fuel \<Longrightarrow> start + millis (100 * int k) \<le> clock h \<Longrightarrow>
     timeout \<le> millis (100 * (int k + int fuel - 1)) \<Longrightarrow> await_exit fuel env start timeout (p, h) = (r, s') \<Longrightarrow>
     r \<noteq> Inl NoFuel"
proof (induction fuel arbitrary: p h k)
  case (Suc fuel)
  let ?now = "(Pod InstantNow, RInt (clock h))"
  show ?case
  proof (cases "elapsed start (clock h) < timeout")
    case False
    with Suc.prems(5) show ?thesis by (simp add: io_bind_def instant_runs [OF env(2)])
  next
    case True
    obtain r1 p1 h1 where 1: "reap_exited_processes (Suc fuel) env (p, h @ [?now]) = (r1, (p1, h1))" by (metis surj_pair)
    have r1: "r1 \<noteq> Inl NoFuel"
      by (rule reap_ends [OF env(1) _ _ 1]) (use Suc.prems(2) in auto)
    obtain t where t: "h1 = h @ ?now # t" "waits t \<ge> 1" using reap_waits [OF 1] by auto
    from Suc.prems(5) True 1 have run: "(case r1 of Inl e \<Rightarrow> (Inl e, (p1, h1)) | Inr _ \<Rightarrow>
        (if all_exited p1 then io_return True else io_seq (sleep_100ms env) (await_exit fuel env start timeout)) (p1, h1)) = (r, s')"
      by (simp add: io_bind_def io_seq_def instant_runs [OF env(2)] get_state_def del: reap_exited_processes.simps
          split: sum.splits if_splits)
    show ?thesis
    proof (cases "r1 = Inr () \<and> \<not> all_exited p1")
      case False
      with run r1 show ?thesis by (cases r1) auto
    next
      case go: True
      obtain r2 p2 h2 where 2: "sleep_100ms env (p1, h1) = (r2, (p2, h2))" by (metis surj_pair)
      from sleep_result [OF 2] obtain y where
        h2: "h2 = h1 @ [(Pod (SleepMs 100), y)]" and r2: "r2 \<noteq> Inl NoFuel" by auto
      show ?thesis
      proof (cases r2)
        case (Inl e)
        with run go 2 r2 show ?thesis by (auto simp: io_seq_def io_bind_def)
      next
        case (Inr u)
        with run go 2 have rest: "await_exit fuel env start timeout (p2, h2) = (r, s')"
          by (auto simp: io_seq_def io_bind_def)
        have "clock h + millis (int (slept (?now # t @ [(Pod (SleepMs 100), y)]))) \<le> clock h2"
          using env(2) unfolding clock_runs_def h2 t(1) by simp
        then have late: "start + millis (100 * int (Suc k)) \<le> clock h2"
          using Suc.prems(3) by (simp add: slept_def millis_def)
        have "millis (100 * int k) < timeout" using True Suc.prems(3) by (simp add: elapsed_def)
        with Suc.prems(4) have "0 < fuel" by (simp add: millis_def)
        moreover have "n < waits h2 + fuel" using Suc.prems(2) t h2 by simp
        ultimately show ?thesis
          using Suc.IH [OF _ _ late _ rest] Suc.prems(4) by simp
      qed
    qed
  qed
qed simp

lemma await_killed_ends:
  assumes "settles env n" "0 < fuel"
  shows "n < waits h + fuel \<Longrightarrow> await_killed k fuel env (p, h) = (r, s') \<Longrightarrow> r \<noteq> Inl NoFuel"
proof (induction k arbitrary: p h)
  case (Suc k)
  obtain r1 p1 h1 where 1: "reap_exited_processes fuel env (p, h) = (r1, (p1, h1))" by (metis surj_pair)
  have r1: "r1 \<noteq> Inl NoFuel" by (rule reap_ends [OF assms Suc.prems(1) 1])
  obtain t where t: "h1 = h @ t" using grows [OF reap_no_fork 1] by blast
  obtain r2 p2 h2 where 2: "sleep_100ms env (p1, h1) = (r2, (p2, h2))" by (metis surj_pair)
  from sleep_result [OF 2] obtain u where h2: "h2 = h1 @ u" and r2: "r2 \<noteq> Inl NoFuel" by auto
  show ?case
  proof (cases "r1 = Inr () \<and> \<not> all_exited p1 \<and> r2 = Inr ()")
    case True
    with Suc.prems(2) 1 2 have "await_killed k fuel env (p2, h2) = (r, s')"
      by (auto simp: io_seq_def io_bind_def get_state_def)
    then show ?thesis using Suc.prems(1) t h2 by (intro Suc.IH) simp_all
  next
    case False
    with Suc.prems(2) 1 2 r1 r2 show ?thesis
      by (cases r1; cases r2) (auto simp: io_seq_def io_bind_def get_state_def io_return_def split: if_splits)
  qed
qed simp

text \<open>One step of a sequence: the error of its first part, or the run of the second.\<close>

lemma seq_step:
  assumes "io_seq m n (p, h) = (r, s')" "\<And>r1 s1. m (p, h) = (r1, s1) \<Longrightarrow> r1 \<noteq> Inl NoFuel"
    "\<And>p1 h1. m (p, h) = (Inr (), (p1, h1)) \<Longrightarrow> n (p1, h1) = (r, s') \<Longrightarrow> r \<noteq> Inl NoFuel"
  shows "r \<noteq> Inl NoFuel"
  using assms by (cases s') (auto simp: io_seq_cases)

text \<open>The second half of a stop: the recorded timeout, \<open>SIGKILL\<close>, and the last waits.\<close>

lemma kill_phase_ends:
  assumes "settles env n" "n < fuel"
    and "io_seq (pod_event env mk) (io_seq (signal_all env name sig)
       (io_seq (await_killed 10 fuel env) (cleanup_after_stop env))) (p, h) = (r, s')"
  shows "r \<noteq> Inl NoFuel"
proof (rule seq_step [OF assms(3)], rule endsD [OF ends_pod(1)], assumption, erule seq_step,
    rule endsD [OF ends_signal_all], assumption, erule seq_step)
  fix p5 h5 r1 s1
  assume "await_killed 10 fuel env (p5, h5) = (r1, s1)"
  then show "r1 \<noteq> Inl NoFuel"
    by (rule await_killed_ends [OF assms(1), rotated 2]) (use assms(2) in simp_all)
qed (rule endsD [OF ends_cleanup])

text \<open>C9: A graceful stop returns. In a world where \<open>waitpid\<close> reports at most \<open>n\<close> times and the clock counts at least
  the time slept, fuel for more than these reports and for one round per 100 ms of the timeout is enough:
  the stop ends with its result or an error of its own, never for lack of fuel.\<close>
theorem stop_graceful_returns:
  assumes "settles env n" "clock_runs clock env" "n < fuel" "timeout \<le> millis (100 * (int fuel - 1))"
  shows "fst (stop_graceful fuel env timeout (p, h)) \<noteq> Inl NoFuel"
proof -
  obtain r s' where run: "stop_graceful fuel env timeout (p, h) = (r, s')" by (metis surj_pair)
  have pos: "0 < fuel" using assms(3) by simp
  have "r \<noteq> Inl NoFuel"
  proof (rule seq_step [OF run [unfolded stop_graceful_def]], rule endsD [OF ends_pod(1)], assumption,
      erule seq_step, rule endsD [OF ends_signal_all], assumption)
    fix p1 h1 p2 h2
    assume 2: "signal_all env ''SIGTERM'' sigterm (p1, h1) = (Inr (), (p2, h2))"
    let ?now = "(Pod InstantNow, RInt (clock h2))"
    assume "io_bind (instant_now env) (\<lambda>start. io_bind (await_exit fuel env start timeout) (\<lambda>gone.
       if gone then cleanup_after_stop env
       else io_seq (pod_event env (\<lambda>events. pod_timeout events (unat (word_of_int (timeout div millis 1) :: u64))))
         (io_seq (signal_all env ''SIGKILL'' sigkill)
         (io_seq (await_killed 10 fuel env) (cleanup_after_stop env))))) (p2, h2) = (r, s')"
    then have rest: "io_bind (await_exit fuel env (clock h2) timeout) (\<lambda>gone.
       if gone then cleanup_after_stop env
       else io_seq (pod_event env (\<lambda>events. pod_timeout events (unat (word_of_int (timeout div millis 1) :: u64))))
         (io_seq (signal_all env ''SIGKILL'' sigkill)
         (io_seq (await_killed 10 fuel env) (cleanup_after_stop env)))) (p2, h2 @ [?now]) = (r, s')"
      by (simp add: io_bind_def instant_runs [OF assms(2)])
    obtain r3 p3 h3 where 3: "await_exit fuel env (clock h2) timeout (p2, h2 @ [?now]) = (r3, (p3, h3))" by (metis surj_pair)
    have r3: "r3 \<noteq> Inl NoFuel"
      by (rule await_exit_ends [OF assms(1,2) pos _ _ _ 3, of 0])
        (use assms(3,4) clock_later [OF assms(2), of h2] in \<open>auto simp: millis_def\<close>)
    show "r \<noteq> Inl NoFuel"
    proof (cases "r3 = Inr False")
      case False
      with rest 3 r3 show ?thesis
        by (cases r3) (auto simp: io_bind_def dest: endsD [OF ends_cleanup])
    next
      case True
      with rest 3 show ?thesis by (auto simp: io_bind_def dest: kill_phase_ends [OF assms(1,3)])
    qed
  qed
  then show ?thesis using run by simp
qed

end
