(* ===== verification/Pod_Stop.thy ===== *)
theory Pod_Stop
  imports Pod_Exits
begin

text \<open>
  What a graceful stop does: who is signalled, when a container is killed, and what is recorded. The
  whole run is cut into its phases once (\<open>stop_phases\<close>); the properties read them off.
\<close>

section \<open>Containers only lose their pids\<close>

definition lets_go :: "handle \<Rightarrow> handle \<Rightarrow> bool" where
  "lets_go c c' \<longleftrightarrow> ch_pid c' = None \<or> ch_pid c' = ch_pid c"

definition shrinks :: "pod \<times> history \<Rightarrow> pod \<times> history \<Rightarrow> bool" where
  "shrinks s s' \<longleftrightarrow> pd_run_id (fst s') = pd_run_id (fst s) \<and> pd_garden (fst s') = pd_garden (fst s) \<and>
     list_all2 lets_go (pd_containers (fst s)) (pd_containers (fst s'))"

lemma lets_go_refl: "lets_go c c" and lets_go_trans: "lets_go a b \<Longrightarrow> lets_go b c \<Longrightarrow> lets_go a c"
  by (auto simp: lets_go_def)

lemma shrinks_rel: "reflp shrinks" "transp shrinks"
  by (auto simp: shrinks_def list_all2_refl lets_go_refl intro!: reflpI transpI
      intro: list_all2_trans [OF lets_go_trans])

lemma shrinks_call: "emits (\<lambda>_. True) m \<Longrightarrow> within shrinks (on_history m)"
  by (intro within_history) (simp add: history_free_def shrinks_def list_all2_refl lets_go_refl)

lemma shrinks_clear: "(\<And>c. ch_pid (f c) = None) \<Longrightarrow> within shrinks (set_container i f)"
proof (rule within_one)
  fix s s' :: "pod \<times> history" and r
  assume f: "\<And>c. ch_pid (f c) = None" and run: "set_container i f s = (r, s')"
  have "lets_go (cs ! j) (cs[i := f (cs ! i)] ! j)" for cs j
    by (cases "i = j"; cases "i < length cs") (simp_all add: lets_go_def f list_update_beyond)
  with run show "shrinks s s'"
    by (auto simp: shrinks_def set_container_def update_state_def list_all2_conv_all_nth split: prod.splits)
qed

lemma shrinks_calls:
  "within shrinks (pod_event env mk)" "within shrinks (instant_now env)" "within shrinks (sleep_100ms env)"
  unfolding pod_event_def instant_now_def sleep_100ms_def
  by (intro within_intros shrinks_call any_append_event emits_intros; simp)+

lemma shrinks_reap: "within shrinks (reap_exited_processes fuel env)"
proof (induction fuel)
  case (Suc fuel)
  have "within shrinks (note_exit env pid code)" for pid code
    unfolding note_exit_def by (intro within_intros shrinks_calls shrinks_clear) simp
  moreover have "within shrinks (on_history (sys env c))" for c
    by (intro shrinks_call emits_intros) simp
  ultimately show ?case using Suc
    by (auto split: reply.splits wait_status.splits intro!: within_intros)
qed (simp add: within_intros)

lemma shrinks_await_exit: "within shrinks (await_exit k env start timeout)"
  by (induction k) (simp_all del: reap_exited_processes.simps,
    (intro within_intros shrinks_reap shrinks_calls; assumption?)+)

lemma shrinks_await_killed: "within shrinks (await_killed n fuel env)"
  by (induction n) (simp_all, (intro within_intros shrinks_reap shrinks_calls; assumption?)+)

section \<open>Signals\<close>

definition no_signal :: "call \<times> reply \<Rightarrow> bool" where
  "no_signal e \<longleftrightarrow> (\<forall>pid sig. fst e \<noteq> Proc (Kill pid sig))"

definition no_kill :: "call \<times> reply \<Rightarrow> bool" where
  "no_kill e \<longleftrightarrow> (\<forall>pid. fst e \<noteq> Proc (Kill pid sigkill))"

text \<open>Everybody with a pid was sent the signal.\<close>

definition signalled :: "int \<Rightarrow> handle list \<Rightarrow> history \<Rightarrow> bool" where
  "signalled sig cs t \<longleftrightarrow> (\<forall>c \<in> set cs. \<forall>pid. ch_pid c = Some pid \<longrightarrow> (\<exists>y. (Proc (Kill pid sig), y) \<in> set t))"

lemma signalled_more: "signalled sig cs t \<Longrightarrow> set t \<subseteq> set u \<Longrightarrow> signalled sig cs u"
  unfolding signalled_def by blast

lemma signalled_fewer: "signalled sig cs t \<Longrightarrow> list_all2 lets_go cs ds \<Longrightarrow> signalled sig ds t"
  by (rotate_tac 1, induction rule: list_all2_induct) (auto simp: signalled_def lets_go_def)

lemma signalled_Cons: "signalled sig (c # cs) t \<longleftrightarrow> signalled sig [c] t \<and> signalled sig cs t"
  by (simp add: signalled_def)

lemma append_event_run:
  "append_event env run mk h = (r, h') \<Longrightarrow> \<exists>t. h' = h @ t \<and> (\<forall>e \<in> set t. no_signal e)"
proof -
  assume run: "append_event env run mk h = (r, h')"
  have "emits no_signal (append_event env run mk)"
    unfolding append_event_def by (intro emits_intros) (simp_all add: no_signal_def)
  from emitsD [OF this run] show ?thesis .
qed

text \<open>The signals a stretch of the history sends: all of one kind, to containers of the list.\<close>

definition signals_only :: "int \<Rightarrow> handle list \<Rightarrow> history \<Rightarrow> bool" where
  "signals_only sig cs t \<longleftrightarrow>
     (\<forall>q s y. (Proc (Kill q s), y) \<in> set t \<longrightarrow> s = sig \<and> (\<exists>c \<in> set cs. ch_pid c = Some q))"

lemma signals_only_none: "\<forall>e \<in> set t. no_signal e \<Longrightarrow> signals_only sig cs t"
  by (fastforce simp: signals_only_def no_signal_def)

lemma signals_only_append [simp]: "signals_only sig cs (t @ u) \<longleftrightarrow> signals_only sig cs t \<and> signals_only sig cs u"
  unfolding signals_only_def set_append Un_iff by blast

lemma signals_only_fewer: "signals_only sig cs t \<Longrightarrow> set cs \<subseteq> set ds \<Longrightarrow> signals_only sig ds t"
  unfolding signals_only_def by blast

lemma signal_one:
  assumes "signal_container env name sig c (p, h) = (r, (p', h'))"
  shows "p' = p \<and> (\<exists>t. h' = h @ t \<and> (r = Inr () \<longrightarrow> signalled sig [c] t) \<and> signals_only sig [c] t)"
proof (cases "ch_pid c")
  case None
  with assms show ?thesis by (auto simp: signal_container_def signalled_def signals_only_def)
next
  case (Some pid)
  let ?k = "(Proc (Kill pid sig), env h' (Proc (Kill pid sig)))"
  obtain r1 h1 where 1: "append_event env (pd_run_id p) (signal_forward (pod_events p) name (ch_name c)) h = (r1, h1)"
    by (metis surj_pair)
  from append_event_run [OF 1] obtain t where t: "h1 = h @ t" "\<forall>e \<in> set t. no_signal e" by blast
  show ?thesis
  proof (cases r1)
    case (Inl e)
    with assms Some 1 have "p' = p" "h' = h @ t" "r = Inl e"
      by (auto simp: signal_container_def io_seq_cases pod_event_state t(1))
    with t(2) show ?thesis by (auto intro!: signals_only_none)
  next
    case (Inr u)
    let ?k = "(Proc (Kill pid sig), env h1 (Proc (Kill pid sig)))"
    from assms Some 1 Inr have "p' = p" "h' = h @ t @ [?k]"
      by (auto simp: signal_container_def io_seq_cases pod_event_state t(1) io_bind_def on_history_def sys_def Let_def
          split: if_splits)
    moreover have "signalled sig [c] (t @ [?k])" "signals_only sig [c] (t @ [?k])"
      using Some by (auto simp: signalled_def signals_only_none [OF t(2)]) (simp add: signals_only_def)
    ultimately show ?thesis by blast
  qed
qed

lemma signal_each:
  "io_each (signal_container env name sig) cs (p, h) = (r, (p', h')) \<Longrightarrow>
     p' = p \<and> (\<exists>t. h' = h @ t \<and> (r = Inr () \<longrightarrow> signalled sig cs t) \<and> signals_only sig cs t)"
proof (induction cs arbitrary: h)
  case Nil
  then show ?case by (simp add: signalled_def signals_only_def)
next
  case (Cons c cs)
  obtain r1 p1 h1 where 1: "signal_container env name sig c (p, h) = (r1, (p1, h1))" by (metis surj_pair)
  from signal_one [OF 1] obtain t where
    t: "p1 = p" "h1 = h @ t" "r1 = Inr () \<Longrightarrow> signalled sig [c] t" "signals_only sig [c] t" by blast
  show ?case
  proof (cases r1)
    case (Inl e)
    have "signals_only sig (c # cs) t" by (rule signals_only_fewer [OF t(4)]) simp
    with Inl Cons.prems 1 t show ?thesis by (auto simp: io_seq_cases)
  next
    case (Inr u)
    with Cons.prems 1 t have "io_each (signal_container env name sig) cs (p, h @ t) = (r, (p', h'))"
      by (auto simp: io_seq_cases)
    from Cons.IH [OF this] obtain w where
      w: "p' = p" "h' = h @ t @ w" "r = Inr () \<Longrightarrow> signalled sig cs w" "signals_only sig cs w" by auto
    have "signalled sig (c # cs) (t @ w)" if "r = Inr ()"
      using t(3) w(3) [OF that] Inr signalled_Cons [of sig c cs "t @ w"]
      by (auto intro: signalled_more)
    moreover have "signals_only sig (c # cs) (t @ w)"
      using t(4) w(4) by (auto intro: signals_only_fewer)
    ultimately show ?thesis using w(1,2) by blast
  qed
qed

lemma signal_all_run:
  assumes "signal_all env name sig (p, h) = (r, (p', h'))"
  shows "p' = p \<and> (\<exists>t. h' = h @ t \<and> (r = Inr () \<longrightarrow> signalled sig (pd_containers p) t) \<and>
     signals_only sig (pd_containers p) t)"
  using signal_each [of env name sig "pd_containers p" p h r p' h'] assms
  by (simp add: signal_all_def io_bind_def get_state_def)

section \<open>The phases of a graceful stop\<close>

lemma no_signal_intros: "within (adds no_signal) (reap_exited_processes fuel env)"
  "within (adds no_signal) (instant_now env)" "within (adds no_signal) (sleep_100ms env)"
  "within (adds no_signal) (pod_event env mk)" "within (adds no_signal) (cleanup_after_stop env)"
proof -
  have sys: "within (adds no_signal) (on_history (sys env c))" if "\<And>pid sig. c \<noteq> Proc (Kill pid sig)" for c
    using that by (intro adds_call emits_intros) (simp add: no_signal_def)
  show event: "within (adds no_signal) (pod_event env mk)" for mk
    by (intro adds_event) (simp_all add: no_signal_def)
  have "within (adds no_signal) (note_exit env pid code)" for pid code
    unfolding note_exit_def by (intro no_fork_intros) (simp_all add: no_signal_def)
  with sys show "within (adds no_signal) (reap_exited_processes fuel env)"
    by (induction fuel) (auto split: reply.splits wait_status.splits intro!: within_intros)
  show "within (adds no_signal) (instant_now env)" "within (adds no_signal) (sleep_100ms env)"
    unfolding instant_now_def sleep_100ms_def
    by (intro no_fork_intros emits_intros; simp add: no_signal_def)+
  show "within (adds no_signal) (cleanup_after_stop env)"
    unfolding cleanup_after_stop_def cleanup_network_def
    by (intro no_fork_intros emits_intros) (simp_all add: no_signal_def)
qed

lemma no_signal_await_exit: "within (adds no_signal) (await_exit k env start timeout)"
  by (induction k) (simp_all del: reap_exited_processes.simps,
    (intro within_intros no_signal_intros; assumption?)+)

lemma no_signal_await_killed: "within (adds no_signal) (await_killed n fuel env)"
  by (induction n) (simp_all, (intro within_intros no_signal_intros; assumption?)+)

lemma no_signal_run: "within (adds no_signal) m \<Longrightarrow> m (p, h) = (r, (p', h')) \<Longrightarrow> \<exists>t. h' = h @ t \<and> (\<forall>e \<in> set t. no_signal e)"
  by (drule (1) within_rel [OF _ _ _ adds_rel]) (auto simp: adds_def)

text \<open>The end of every stop that succeeds: the run is recorded as exited with code 0.\<close>

definition closed_as_success :: "pod \<Rightarrow> history \<Rightarrow> bool" where
  "closed_as_success p t \<longleftrightarrow> (\<exists>u ts. t = u @ [(StoreCall (UpdateRunStatus (pd_run_id p) (RunExited 0) (Some ts)), ROk)])"

lemma cleanup_run:
  assumes "cleanup_after_stop env (p, h) = (r, (p', h'))"
  shows "p' = p" "r = Inr () \<Longrightarrow> \<exists>t. h' = h @ t \<and> closed_as_success p t"
proof -
  let ?same = "\<lambda>s s' :: pod \<times> history. fst s' = fst s"
  have call1: "within ?same (on_history m)" for m :: "(history, unit) io"
    by (rule within_one) (auto simp: on_history_def split: prod.splits)
  have call2: "within ?same (on_history m)" for m :: "(history, string list + unit) io"
    by (rule within_one) (auto simp: on_history_def split: prod.splits)
  have call3: "within ?same (on_history m)" for m :: "(history, string) io"
    by (rule within_one) (auto simp: on_history_def split: prod.splits)
  have net: "p1 = p" if "cleanup_network env (p, h) = (r1, (p1, h1))" for r1 p1 h1
  proof -
    have "within ?same (cleanup_network env)" unfolding cleanup_network_def by (intro within_intros call2)
    from within_rel [OF this that, of ?same] show ?thesis by (simp add: reflp_def transp_def)
  qed
  have "within ?same (cleanup_after_stop env)"
    unfolding cleanup_after_stop_def cleanup_network_def pod_event_def by (intro within_intros call1 call2 call3)
  from within_rel [OF this assms, of ?same] show "p' = p" by (simp add: reflp_def transp_def)
  assume "r = Inr ()"
  with assms obtain h1 h2 p1 where 1: "cleanup_network env (p, h) = (Inr (), (p1, h1))"
    and 2: "append_event env (pd_run_id p1) (pod_exit (pod_events p1) ''Stopped'') h1 = (Inr (), h2)"
    and 3: "\<exists>e ts. h' = h2 @ [e, (StoreCall (UpdateRunStatus (pd_run_id p1) (RunExited 0) (Some ts)), ROk)]"
    by (auto simp: cleanup_after_stop_def io_seq_ok io_bind_ok pod_event_state
        store_def sys_unit_ok now_rfc3339_def sys_ok)
  have "within (adds (\<lambda>_. True)) (cleanup_network env)"
    unfolding cleanup_network_def by (intro no_fork_intros emits_intros) simp_all
  from grows [OF this 1] obtain t1 where "h1 = h @ t1" by blast
  moreover obtain t2 where "h2 = h1 @ t2" using append_event_run [OF 2] by blast
  ultimately show "\<exists>t. h' = h @ t \<and> closed_as_success p t"
    using 3 net [OF 1] unfolding closed_as_success_def by fastforce
qed

text \<open>The first phase: the request, \<open>SIGTERM\<close>, and waiting.\<close>

definition stop_request :: "nat \<Rightarrow> env \<Rightarrow> int \<Rightarrow> bool pod_io" where
  "stop_request fuel env timeout =
     io_seq (pod_event env pod_stop_requested)
     (io_seq (signal_all env ''SIGTERM'' sigterm)
     (io_bind (instant_now env) (\<lambda>start. await_exit fuel env start timeout)))"

text \<open>The second: the timeout, \<open>SIGKILL\<close>, and waiting again.\<close>

definition stop_kill :: "nat \<Rightarrow> env \<Rightarrow> int \<Rightarrow> unit pod_io" where
  "stop_kill fuel env timeout =
     io_seq (pod_event env (\<lambda>events. pod_timeout events (unat (word_of_int (timeout div millis 1) :: u64))))
     (io_seq (signal_all env ''SIGKILL'' sigkill)
       (await_killed 10 fuel env))"

lemma stop_graceful_phases:
  "stop_graceful fuel env timeout =
     io_bind (stop_request fuel env timeout) (\<lambda>gone.
     if gone then cleanup_after_stop env
     else io_seq (stop_kill fuel env timeout) (cleanup_after_stop env))"
  by (simp add: stop_graceful_def stop_request_def stop_kill_def io_bind_assoc io_seq_def cong: if_cong)

lemma await_exit_true: "await_exit fuel env start timeout s = (Inr True, (p', h')) \<Longrightarrow> all_exited p'"
  by (induction fuel arbitrary: s)
    (auto simp del: reap_exited_processes.simps simp: io_bind_cases io_seq_cases get_state_def split: if_splits prod.splits)

lemma stop_request_run:
  assumes "stop_request fuel env timeout (p, h) = (r, (p', h'))"
  shows "\<exists>t. h' = h @ t \<and> signals_only sigterm (pd_containers p) t \<and> shrinks (p, h) (p', h') \<and>
     (\<forall>gone. r = Inr gone \<longrightarrow> signalled sigterm (pd_containers p) t \<and> (gone \<longrightarrow> all_exited p'))"
proof -
  obtain r1 h1 where 1: "append_event env (pd_run_id p) (pod_stop_requested (pod_events p)) h = (r1, h1)"
    by (metis surj_pair)
  from append_event_run [OF 1] obtain t1 where t1: "h1 = h @ t1" "\<forall>e \<in> set t1. no_signal e" by blast
  obtain r2 p2 h2 where 2: "signal_all env ''SIGTERM'' sigterm (p, h1) = (r2, (p2, h2))" by (metis surj_pair)
  from signal_all_run [OF 2] obtain t2 where t2: "p2 = p" "h2 = h1 @ t2"
    "r2 = Inr () \<Longrightarrow> signalled sigterm (pd_containers p) t2" "signals_only sigterm (pd_containers p) t2" by blast
  let ?wait = "io_bind (instant_now env) (\<lambda>start. await_exit fuel env start timeout)"
  obtain r3 p3 h3 where 3: "?wait (p, h2) = (r3, (p3, h3))" by (metis surj_pair)
  have "within (adds no_signal) ?wait" by (intro within_intros no_signal_intros no_signal_await_exit)
  from no_signal_run [OF this 3] obtain t3 where t3: "h3 = h2 @ t3" "\<forall>e \<in> set t3. no_signal e" by blast
  have "within shrinks ?wait" by (intro within_intros shrinks_calls shrinks_await_exit)
  from within_rel [OF this 3 _ shrinks_rel] have s3: "shrinks (p, h2) (p3, h3)" by simp
  have same: "shrinks (p, a) (p, b)" for a b by (simp add: shrinks_def list_all2_refl lets_go_refl)
  note quiet = signals_only_none [OF t1(2)] signals_only_none [OF t3(2)]
  have gone: "all_exited p3" if "r3 = Inr True"
    using 3 that by (auto simp: io_bind_cases dest: await_exit_true)
  consider (request) e where "r1 = Inl e" "r = Inl e" "p' = p" "h' = h @ t1"
    | (signal) e where "r2 = Inl e" "r = Inl e" "p' = p" "h' = h @ t1 @ t2"
    | (wait) "r2 = Inr ()" "r = r3" "p' = p3" "h' = h @ t1 @ t2 @ t3"
    using assms 1 2 3 t1(1) t2(1,2) t3(1)
    by (cases r1; cases r2) (auto simp: stop_request_def io_seq_cases pod_event_state)
  then show ?thesis
  proof cases
    case request
    then show ?thesis using quiet same by (intro exI [of _ t1]) auto
  next
    case signal
    then show ?thesis using quiet same t2(4) by (intro exI [of _ "t1 @ t2"]) auto
  next
    case wait
    then have "signalled sigterm (pd_containers p) (t1 @ t2 @ t3)" using t2(3) by (auto intro: signalled_more)
    moreover have "shrinks (p, h) (p3, h3)" using s3 by (simp add: shrinks_def)
    ultimately show ?thesis using wait quiet t2 t1 t3 gone by (intro exI [of _ "t1 @ t2 @ t3"]) auto
  qed
qed

definition timeout_recorded :: "pod \<Rightarrow> int \<Rightarrow> history \<Rightarrow> bool" where
  "timeout_recorded p timeout t \<longleftrightarrow>
     (\<exists>ts. AppendEvent (pd_run_id p) (event_json (pod_timeout (pod_events p) (unat (word_of_int (timeout div millis 1) :: u64)) ts))
        \<in> set (accepted_calls t))"

lemma stop_kill_run:
  assumes "stop_kill fuel env timeout (p, h) = (r, (p', h'))"
  shows "\<exists>t1 t2 t3. h' = h @ t1 @ t2 @ t3 \<and> (\<forall>e \<in> set (t1 @ t3). no_signal e) \<and>
     signals_only sigkill (pd_containers p) t2 \<and> (t2 \<noteq> [] \<longrightarrow> timeout_recorded p timeout t1) \<and>
     shrinks (p, h) (p', h') \<and> (r = Inr () \<longrightarrow> signalled sigkill (pd_containers p) t2)"
proof -
  obtain r1 h1 where 1: "append_event env (pd_run_id p)
      (pod_timeout (pod_events p) (unat (word_of_int (timeout div millis 1) :: u64))) h = (r1, h1)" by (metis surj_pair)
  from append_event_run [OF 1] obtain t1 where t1: "h1 = h @ t1" "\<forall>e \<in> set t1. no_signal e" by blast
  have rec: "timeout_recorded p timeout t1" if "r1 = Inr ()"
    using append_event_accepted [of env "pd_run_id p" _ h h1] 1 that t1(1) unfolding timeout_recorded_def by blast
  obtain r2 p2 h2 where 2: "signal_all env ''SIGKILL'' sigkill (p, h1) = (r2, (p2, h2))" by (metis surj_pair)
  from signal_all_run [OF 2] obtain t2 where t2: "p2 = p" "h2 = h1 @ t2"
    "r2 = Inr () \<Longrightarrow> signalled sigkill (pd_containers p) t2" "signals_only sigkill (pd_containers p) t2" by blast
  obtain r3 p3 h3 where 3: "await_killed 10 fuel env (p, h2) = (r3, (p3, h3))" by (metis surj_pair)
  from no_signal_run [OF no_signal_await_killed 3] obtain t3 where t3: "h3 = h2 @ t3" "\<forall>e \<in> set t3. no_signal e" by blast
  from within_rel [OF shrinks_await_killed 3 _ shrinks_rel] have s3: "shrinks (p, h2) (p3, h3)" by simp
  have same: "shrinks (p, a) (p, b)" for a b by (simp add: shrinks_def list_all2_refl lets_go_refl)
  have none: "signals_only sigkill (pd_containers p) []" by (simp add: signals_only_def)
  consider (event) e where "r1 = Inl e" "r = Inl e" "p' = p" "h' = h @ t1"
    | (signal) e where "r1 = Inr ()" "r2 = Inl e" "r = Inl e" "p' = p" "h' = h @ t1 @ t2"
    | (wait) "r1 = Inr ()" "r2 = Inr ()" "r = r3" "p' = p3" "h' = h @ t1 @ t2 @ t3"
    using assms 1 2 3 t1(1) t2(1,2) t3(1)
    by (cases r1; cases r2) (auto simp: stop_kill_def io_seq_cases pod_event_state)
  then show ?thesis
  proof cases
    case event
    then show ?thesis using t1 same none by (intro exI [of _ t1] exI [of _ "[]"]) auto
  next
    case signal
    then show ?thesis using t1 t2 same rec by (intro exI [of _ t1] exI [of _ t2] exI [of _ "[]"]) auto
  next
    case wait
    moreover have "shrinks (p, h) (p3, h3)" using s3 by (simp add: shrinks_def)
    ultimately show ?thesis using t1 t2 t3 rec by (intro exI [of _ t1] exI [of _ t2] exI [of _ t3]) auto
  qed
qed

section \<open>The properties of a graceful stop\<close>

lemma after_prefix: "e \<notin> set s \<Longrightarrow> u @ e # v = s @ w \<Longrightarrow> \<exists>x. u = s @ x \<and> w = x @ e # v"
  by (auto simp: append_eq_append_conv2 append_eq_Cons_conv Cons_eq_append_conv)

lemma shrinks_refl: "shrinks (p, a) (p, b)"
  by (simp add: shrinks_def list_all2_refl lets_go_refl)

lemma shrunk_pid:
  "shrinks (p, h) (p1, h1) \<Longrightarrow> c \<in> set (pd_containers p1) \<Longrightarrow> ch_pid c = Some pid \<Longrightarrow>
     \<exists>d \<in> set (pd_containers p). ch_pid d = Some pid"
  unfolding shrinks_def lets_go_def list_all2_conv_all_nth in_set_conv_nth by fastforce

lemma term_not_kill: "signals_only sigterm cs t \<Longrightarrow> (Proc (Kill pid sigkill), y) \<notin> set t"
proof
  assume "signals_only sigterm cs t" "(Proc (Kill pid sigkill), y) \<in> set t"
  then have "sigkill = sigterm" unfolding signals_only_def by blast
  then show False by (simp add: sigterm_def sigkill_def)
qed

lemma quiet_not_kill: "\<forall>e \<in> set t. no_signal e \<Longrightarrow> (Proc (Kill pid sig), y) \<notin> set t"
  by (auto simp: no_signal_def)

text \<open>A call that is neither in what comes first nor in what comes last.\<close>

lemma entry_between:
  assumes "u @ e # v = s @ b @ w" "e \<notin> set s" "e \<notin> set w"
  shows "e \<in> set b \<and> (\<exists>x. u = s @ x)"
proof -
  from after_prefix [OF assms(2,1)] obtain x where x: "u = s @ x" "b @ w = x @ e # v" by blast
  then have "e \<in> set (b @ w)" by simp
  with assms(3) x(1) show ?thesis by auto
qed

text \<open>C8: \<open>SIGKILL\<close> is the last resort. However a graceful stop goes and whatever the world answers, a container is
  sent \<open>SIGKILL\<close> only after the same process was sent \<open>SIGTERM\<close> and the expiry of the timeout has been
  recorded in the store.\<close>
theorem sigkill_last_resort:
  assumes "stop_graceful fuel env timeout (p, h) = (r, (p', h @ u @ (Proc (Kill pid sigkill), y) # v))"
  shows "(\<exists>z. (Proc (Kill pid sigterm), z) \<in> set u) \<and> timeout_recorded p timeout u"
proof -
  let ?e = "(Proc (Kill pid sigkill), y)" and ?h = "h @ u @ (Proc (Kill pid sigkill), y) # v"
  obtain r1 p1 h1 where 1: "stop_request fuel env timeout (p, h) = (r1, (p1, h1))" by (metis surj_pair)
  from stop_request_run [OF 1] obtain t1 where t1: "h1 = h @ t1" "signals_only sigterm (pd_containers p) t1"
    "shrinks (p, h) (p1, h1)" "r1 = Inr False \<Longrightarrow> signalled sigterm (pd_containers p) t1" by blast
  note not1 = term_not_kill [OF t1(2), of pid y]
  obtain r2 p2 h2 where 2: "stop_kill fuel env timeout (p1, h1) = (r2, (p2, h2))" by (metis surj_pair)
  from stop_kill_run [OF 2] obtain a b c where k: "h2 = h1 @ a @ b @ c" "\<forall>e \<in> set (a @ c). no_signal e"
    "signals_only sigkill (pd_containers p1) b" "b \<noteq> [] \<Longrightarrow> timeout_recorded p1 timeout a" by blast
  have clean: "\<exists>t. h4 = h3 @ t \<and> (\<forall>e \<in> set t. no_signal e)" if "cleanup_after_stop env (p3, h3) = (r4, (p4, h4))" for p3 h3 r4 p4 h4
    by (rule no_signal_run [OF no_signal_intros(5) that])
  consider (request) e where "r1 = Inl e" "?h = h1"
    | (gone) "r1 = Inr True" "cleanup_after_stop env (p1, h1) = (r, (p', ?h))"
    | (killed) "r1 = Inr False" "\<exists>w. ?h = h2 @ w \<and> (\<forall>e \<in> set w. no_signal e)"
    using assms 1 2 clean
    by (cases r1; cases r2) (auto simp: stop_graceful_phases io_bind_cases io_seq_cases split: if_splits)
  then show ?thesis
  proof cases
    case request
    with t1(1) not1 show ?thesis by auto
  next
    case gone
    with clean obtain w where "?h = h1 @ w" "\<forall>e \<in> set w. no_signal e" by blast
    with t1(1) have "u @ ?e # v = t1 @ w" by simp
    moreover have "?e \<notin> set (t1 @ w)" using not1 quiet_not_kill [of w pid] \<open>\<forall>e \<in> set w. no_signal e\<close> by simp
    ultimately show ?thesis by (metis in_set_conv_decomp)
  next
    case killed
    then obtain w where w: "u @ ?e # v = t1 @ a @ b @ c @ w" "\<forall>e \<in> set w. no_signal e" using k(1) t1(1) by auto
    have "?e \<notin> set (t1 @ a)" "?e \<notin> set (c @ w)"
      using not1 quiet_not_kill [of "a @ c @ w" pid sigkill y] k(2) w(2) by auto
    from entry_between [OF _ this, of u v b] w(1) obtain x where x: "u = (t1 @ a) @ x" and b: "?e \<in> set b" by auto
    with k(3) obtain d where "d \<in> set (pd_containers p1)" "ch_pid d = Some pid" unfolding signals_only_def by blast
    from shrunk_pid [OF t1(3) this] obtain d0 where "d0 \<in> set (pd_containers p)" "ch_pid d0 = Some pid" by blast
    with t1(4) [OF killed(1)] obtain z where "(Proc (Kill pid sigterm), z) \<in> set t1" unfolding signalled_def by blast
    moreover have "timeout_recorded p timeout a"
      using k(4) [OF length_pos_if_in_set [OF b, THEN length_greater_0_conv [THEN iffD1]]] t1(3)
      by (simp add: timeout_recorded_def shrinks_def pod_events_def garden_id_def)
    ultimately show ?thesis using x by (auto simp: timeout_recorded_def)
  qed
qed

text \<open>What a graceful stop that returns has done: every container that held a pid was sent \<open>SIGTERM\<close>, every
  container that still holds one at the end was sent \<open>SIGKILL\<close>, and the last call records the run as
  exited with code 0, whatever the codes the containers ended with.\<close>
theorem stop_graceful_done:
  assumes "stop_graceful fuel env timeout (p, h) = (Inr (), (p', h'))"
  shows "\<exists>t. h' = h @ t \<and> signalled sigterm (pd_containers p) t \<and> signalled sigkill (pd_containers p') t \<and>
     closed_as_success p t"
proof -
  obtain r1 p1 h1 where 1: "stop_request fuel env timeout (p, h) = (r1, (p1, h1))" by (metis surj_pair)
  with assms obtain gone where r1: "r1 = Inr gone" by (auto simp: stop_graceful_phases io_bind_cases)
  from stop_request_run [OF 1] r1 obtain t1 where t1: "h1 = h @ t1" "shrinks (p, h) (p1, h1)"
    "signalled sigterm (pd_containers p) t1" "gone \<Longrightarrow> all_exited p1" by blast
  have same: "closed_as_success q t \<Longrightarrow> pd_run_id q = pd_run_id p \<Longrightarrow> closed_as_success p (s @ t)" for q s t
    unfolding closed_as_success_def by fastforce
  show ?thesis
  proof (cases gone)
    case True
    with assms 1 r1 have c: "cleanup_after_stop env (p1, h1) = (Inr (), (p', h'))"
      by (auto simp: stop_graceful_phases io_bind_cases)
    from cleanup_run [OF c] obtain w where w: "p' = p1" "h' = h1 @ w" "closed_as_success p1 w" by blast
    moreover have "signalled sigkill (pd_containers p') (t1 @ w)"
      using t1(4) True w(1) by (auto simp: signalled_def all_exited_def)
    moreover have "closed_as_success p (t1 @ w)" using same w(3) t1(2) by (simp add: shrinks_def)
    ultimately show ?thesis using t1 by (intro exI [of _ "t1 @ w"]) (auto intro: signalled_more)
  next
    case False
    with assms 1 r1 obtain p2 h2 where 2: "stop_kill fuel env timeout (p1, h1) = (Inr (), (p2, h2))"
      and c: "cleanup_after_stop env (p2, h2) = (Inr (), (p', h'))"
      by (auto simp: stop_graceful_phases io_bind_cases io_seq_cases)
    from stop_kill_run [OF 2] obtain a b d where k: "h2 = h1 @ a @ b @ d" "shrinks (p1, h1) (p2, h2)"
      "signalled sigkill (pd_containers p1) b" by blast
    from cleanup_run [OF c] obtain w where w: "p' = p2" "h' = h2 @ w" "closed_as_success p2 w" by blast
    have "signalled sigkill (pd_containers p') b"
      using signalled_fewer [OF k(3)] k(2) w(1) by (simp add: shrinks_def)
    then have "signalled sigkill (pd_containers p') (t1 @ a @ b @ d @ w)" by (auto intro: signalled_more)
    moreover have "closed_as_success p (t1 @ a @ b @ d @ w)"
      using same [OF w(3), of "t1 @ a @ b @ d"] t1(2) k(2) by (simp add: shrinks_def)
    ultimately show ?thesis using t1 k(1) w(2)
      by (intro exI [of _ "t1 @ a @ b @ d @ w"]) (auto intro: signalled_more)
  qed
qed

end
