(* ===== verification/Pod_Child.thy ===== *)
theory Pod_Child
  imports Pod Ordering
begin

text \<open>
  A container's own task, from the fork to \<open>execv\<close>: in which order it confines itself, and what stands
  behind the addresses pods get.
\<close>

section \<open>The steps\<close>

definition is_execv :: "call \<times> reply \<Rightarrow> bool" where
  "is_execv e \<longleftrightarrow> (\<exists>p a. fst e = Task (Execv p a))"

lemma is_execv_other [simp]: "\<not> is_execv (File f, r)" "\<not> is_execv (Mnt m, r)" "\<not> is_execv (Pod pc, r)"
  "\<not> is_execv (StoreCall s, r)" "\<not> is_execv (UtcNow, r)" "\<not> is_execv (Task GetPid, r)"
  "\<not> is_execv (Task SetNoNewPrivs, r)" "\<not> is_execv (Task (SetCurrentDir d), r)" "\<not> is_execv (Task (SetEnv k v), r)"
  by (simp_all add: is_execv_def)

text \<open>The pod's network namespace was entered, unless there is none.\<close>

definition netns_entered :: "string \<Rightarrow> call \<times> reply \<Rightarrow> bool" where
  "netns_entered name e \<longleftrightarrow> e = (Pod SetnsNet, ROk) \<or>
     fst e = File (PathExists (netns_path name)) \<and> \<not> as_bool (snd e)"

definition joined_cgroup :: "string \<Rightarrow> string \<Rightarrow> call \<times> reply \<Rightarrow> bool" where
  "joined_cgroup gid name e \<longleftrightarrow>
     (\<exists>pid. e = (File (WriteFile (path_join (pod_cgroup_path gid name) ''cgroup.procs'') (show_int pid @ [CHR 0x0A])), ROk))"

definition start_recorded :: "garden_event_builder \<Rightarrow> string \<Rightarrow> call \<times> reply \<Rightarrow> bool" where
  "start_recorded events name e \<longleftrightarrow>
     (\<exists>pid ts. e = (StoreCall (AppendEvent (gb_run_id events) (event_json (container_start events name pid ts))), ROk))"

definition proc_mounted :: "mount_config \<Rightarrow> call \<times> reply \<Rightarrow> bool" where
  "proc_mounted m e \<longleftrightarrow> e = (Mnt (Mount (Some ''proc'') (mt_target m) (Some ''proc'')
     [''MS_NOSUID'', ''MS_NODEV'', ''MS_NOEXEC'']), ROk)"

definition container_steps ::
    "container \<Rightarrow> string \<Rightarrow> string \<Rightarrow> garden_event_builder \<Rightarrow> string \<Rightarrow> string \<Rightarrow> (call \<times> reply \<Rightarrow> bool) list" where
  "container_steps spec name gid events rootfs netns_name =
     [\<lambda>e. e = (Pod (SetPdeathsig sigkill), ROk), \<lambda>e. e = (Pod SetSid, ROk), netns_entered netns_name,
      \<lambda>e. e = (Mnt (Chroot rootfs), ROk), \<lambda>e. e = (Task (SetCurrentDir ''/''), ROk)]
     @ map proc_mounted (filter (\<lambda>m. mt_type m = ''proc'') (ct_mounts spec))
     @ [joined_cgroup gid name, \<lambda>e. e = (Task (SetCurrentDir (ep_cwd (ct_entrypoint spec))), ROk),
        \<lambda>e. e = (Task SetNoNewPrivs, ROk), start_recorded events name]"

lemma must_netns: "must [netns_entered n] (enter_netns env n)"
  by (auto simp: must_def netns_entered_def enter_netns_def sys_exists_def setns_net_def io_when_def io_bind_ok
      io_seq_ok sys_ok sys_unit_ok sys_or_bail_ok split: if_splits)

lemma must_chroot: "must [\<lambda>e. e = (Mnt (Chroot r), ROk), \<lambda>e. e = (Task (SetCurrentDir ''/''), ROk)] (do_chroot env r)"
  by (auto simp: must_def do_chroot_def io_seq_ok sys_unit_ok sys_or_bail_ok)

lemma must_mount_proc: "must [proc_mounted m] (mount_proc env (mt_target m))"
proof -
  have "must [] (ensure_mount_point env (mt_target m))"
    unfolding ensure_mount_point_def by (rule must_emits [of "\<lambda>_. True"]) (intro emits_intros; simp)
  moreover have "must [proc_mounted m] (io_ctx c (sys_unit env (Mnt (Mount (Some ''proc'') (mt_target m) (Some ''proc'')
     [''MS_NOSUID'', ''MS_NODEV'', ''MS_NOEXEC'']))))" for c
    using must_sys_unit unfolding proc_mounted_def by (intro must_ctx) auto
  ultimately show ?thesis using must_seq unfolding mount_proc_def by fastforce
qed

lemma must_proc_mounts: "must (map proc_mounted (filter (\<lambda>m. mt_type m = ''proc'') ms)) (io_each (mount_if_proc env) ms)"
proof (induction ms)
  case Nil
  then show ?case by (simp add: must_def)
next
  case (Cons m ms)
  have "must (if mt_type m = ''proc'' then [proc_mounted m] else []) (mount_if_proc env m)"
    unfolding mount_if_proc_def by (intro must_when must_ctx must_mount_proc)
  from must_seq [OF this Cons.IH] show ?case by (simp split: if_splits)
qed

lemma must_join: "must [joined_cgroup gid name] (join_cgroup env gid name)"
  by (auto simp: must_def joined_cgroup_def join_cgroup_def io_bind_ok sys_id_def sys_ok move_pid_to_cgroup_def move_pid_ok)

lemma must_nnp: "must [\<lambda>e. e = (Task SetNoNewPrivs, ROk)] (pod_no_new_privs env)"
  by (auto simp: must_def pod_no_new_privs_def io_bind_ok sys_ok split: if_splits)

lemma must_event: "must [start_recorded events name] (append_event env (gb_run_id events) (container_start events name pid))"
  by (auto simp: must_def start_recorded_def append_event_def store_def io_bind_ok sys_unit_ok now_rfc3339_def sys_ok)

lemma no_execv:
  "emits (\<lambda>e. \<not> is_execv e) (enter_netns env n)" "emits (\<lambda>e. \<not> is_execv e) (do_chroot env r)"
  "emits (\<lambda>e. \<not> is_execv e) (io_each (mount_if_proc env) ms)" "emits (\<lambda>e. \<not> is_execv e) (join_cgroup env gid name)"
  "emits (\<lambda>e. \<not> is_execv e) (pod_no_new_privs env)" "emits (\<lambda>e. \<not> is_execv e) (append_event env run mk)"
  "emits (\<lambda>e. \<not> is_execv e) (io_each (set_env_var env) vars)"
  unfolding enter_netns_def mount_if_proc_def join_cgroup_def pod_no_new_privs_def append_event_def
  by (intro emits_intros; simp)+

lemma exec_recorded: "requires is_execv (\<lambda>_. has_in_order [start_recorded events name]) (exec_container env name events spec)"
proof -
  have ev: "requires is_execv (\<lambda>_. has_in_order ([start_recorded events name] @ []))
     (io_seq (append_event env (gb_run_id events) (container_start events name pid))
       (io_ctx ''Failed to execv'' (sys_unit env (Task (Execv p a)))))" for pid p a
    by (rule ordered_seq [OF no_execv(6) must_event emits_ctx [OF emits_sys_unit] ordered_nil]) (rule TrueI)
  show ?thesis
    unfolding exec_container_def
    by (rule ordered_skip [OF _ _ ordered_skip [OF _ _ ordered_skip [OF _ _ ev [unfolded append_Nil2]]]],
        (intro emits_intros; simp)+)
qed

text \<open>C10: A container's program is executed only after the task has bound its life to the supervisor's, left
  the session, entered the pod's network namespace (when there is one), changed its root, mounted the
  proc file systems of its manifest, joined its control group, changed to its working directory, given
  up new privileges and recorded its start, each step having succeeded, in this order, in any world.\<close>
theorem container_exec_ordered:
  assumes "container_child_exec env spec name gid events rootfs netns_name h = (r, h @ u @ (Task (Execv p a), y) # v)"
  shows "has_in_order (container_steps spec name gid events rootfs netns_name) u"
proof -
  have "requires is_execv (\<lambda>_. has_in_order (container_steps spec name gid events rootfs netns_name))
     (container_child_exec env spec name gid events rootfs netns_name)"
  proof -
    let ?E = "\<lambda>_ :: call \<times> reply. True"
    have exec: "emits ?E (exec_container env name events spec)"
      unfolding exec_container_def append_event_def by (intro emits_intros; simp)
    have any: "emits ?E (enter_netns env netns_name)" "emits ?E (do_chroot env rootfs)"
      "emits ?E (io_each (mount_if_proc env) (ct_mounts spec))" "emits ?E (join_cgroup env gid name)"
      "emits ?E (io_each (set_env_var env) (ep_env (ct_entrypoint spec)))" "emits ?E (pod_no_new_privs env)"
      using no_execv by (blast intro: emits_mono)+
    note step = ordered_one [OF must_ctx [OF must_sys_unit]]
    show ?thesis
      unfolding container_child_exec_def container_steps_def append_Cons append_Nil
      by (rule step, rule step, rule ordered_one [OF must_netns], rule ordered_two [OF must_ctx [OF must_chroot]],
          rule ordered_many [OF must_proc_mounts], rule ordered_one [OF must_join], rule step, rule ordered_none,
          rule ordered_one [OF must_nnp], rule exec_recorded) (intro any exec no_execv emits_intros; simp)+
  qed
  from requiresD [OF this assms] show ?thesis by (simp add: is_execv_def)
qed

section \<open>Addresses of pods\<close>

lemma choose_without_ip: "gn_ip (gd_net g) = None \<Longrightarrow> choose_pod_ip g = Inr ''10.44.1.10''"
proof -
  have "ip_text 1 10 = ''10.44.1.10''" by code_simp
  moreover have "ip_allocate name ip_new = (Inr (ip_text 1 10), ip_new\<lparr>ia_next_host := 11, ia_allocated := {ip_text 1 10}\<rparr>)" for name
    by (subst ip_allocate.simps) (simp add: ip_new_def Let_def word_le_nat_alt)
  ultimately show "gn_ip (gd_net g) = None \<Longrightarrow> choose_pod_ip g = Inr ''10.44.1.10''"
    by (simp add: choose_pod_ip_def)
qed

text \<open>Every pod whose manifest names no address gets the same one: the allocator is made anew for each pod, so
  the network of any such pod is set up, and reported ready, with 10.44.1.10.\<close>
theorem pod_ip_collision:
  assumes "gn_ip (gd_net (pd_garden p)) = None" "setup_pod_network env (p, h) = (Inr (), (p', h'))"
  shows "pd_pod_ip p' = Some ''10.44.1.10'' \<and>
     (\<exists>ts. AppendEvent (pd_run_id p) (event_json (pod_net_ready (pod_events p) bridge_name ''10.44.1.10'' ts))
        \<in> set (accepted_calls h'))"
proof -
  let ?p = "p\<lparr>pd_pod_ip := Some ''10.44.1.10''\<rparr>"
  from assms obtain h1 where "p' = ?p"
    "append_event env (pd_run_id p) (pod_net_ready (pod_events p) bridge_name ''10.44.1.10'') h1 = (Inr (), h')"
    by (auto simp: setup_pod_network_def io_bind_ok io_seq_ok choose_without_ip pod_event_def pod_events_def garden_id_def)
  then show ?thesis
    by (auto simp: append_event_def store_def io_bind_ok sys_unit_ok now_rfc3339_def sys_ok)
qed

end
