(* ===== verification/Pod_Scenario.thy ===== *)
theory Pod_Scenario
  imports Pod_Stop Pod_Child Scenario
begin

text \<open>
  One world and one pod on which the operations of the supervisor are evaluated: a pod of one container,
  forked as process 100, that survives a \<open>SIGTERM\<close> and ends with code 3 in the first wait. The witnesses
  of the pod's properties are instances on it.
\<close>

definition demo_container :: container where
  "demo_container =
     \<lparr>ct_name = ''c'', ct_rootfs = RootPath ''/r'',
      ct_entrypoint = \<lparr>ep_cmd = [''/sh''], ep_env = [''A=1''], ep_cwd = ''/''\<rparr>,
      ct_limits = \<lparr>lim_cpu = \<lparr>cpu_shares = None\<rparr>, lim_memory = \<lparr>mem_max = None\<rparr>, lim_pids = \<lparr>pids_max = None\<rparr>\<rparr>,
      ct_mounts = [\<lparr>mt_type = ''proc'', mt_source = None, mt_target = ''/proc'', mt_options = []\<rparr>],
      ct_user = \<lparr>us_uid = 0, us_gid = 0, us_map_rootless = False\<rparr>, ct_ports = [], ct_volume_mounts = []\<rparr>"

definition demo_garden :: garden where
  "demo_garden =
     \<lparr>gd_api_version = ''v0'', gd_kind = ''Garden'', gd_meta = \<lparr>sm_name = ''g'', sm_id = ''g''\<rparr>,
      gd_net = garden_net_config_default,
      gd_security = \<lparr>sec_hostname = None, sec_drop_caps = [], sec_seccomp_profile = None\<rparr>,
      gd_restart_policy = ''OnFailure'', gd_services = [], gd_containers = [demo_container], gd_volumes = [],
      gd_logging = \<lparr>lg_mode = ''json''\<rparr>, gd_store = \<lparr>sc_kind = ''mem''\<rparr>\<rparr>"

definition demo_pod :: pod where
  "demo_pod =
     \<lparr>pd_run_id = ''run'', pd_garden = demo_garden, pd_containers = [handle_new ''c'' demo_container ''g''],
      pd_restart_policy = OnFailure, pd_backoff = backoff_config_default, pd_netns_name = ''glns-g'',
      pd_pod_ip = None, pd_max_restarts = 20, pd_restart_times = []\<rparr>"

definition running_pod :: pod where
  "running_pod = demo_pod\<lparr>pd_containers := [(handle_new ''c'' demo_container ''g'')\<lparr>ch_state := CRunning, ch_pid := Some 100\<rparr>]\<rparr>"

lemma demo_pod_new: "pod_new ''run'' demo_garden = Inr demo_pod"
  by code_simp

definition pod_clock :: "history \<Rightarrow> int" where
  "pod_clock h = millis (int (slept h))"

fun pod_world :: env where
  "pod_world h (Pod InstantNow) = RInt (pod_clock h)"
| "pod_world h (Pod Fork) = RInt 100"
| "pod_world h (Pod (RunCommand p as)) = ROutput True []"
| "pod_world h (Proc (WaitPid p n)) = RWait (if waits h = 0 then Exited 100 3 else StillAlive)"
| "pod_world h (File (PathExists p)) = RBool True"
| "pod_world h (Task GetPid) = RInt 100"
| "pod_world h UtcNow = RStr ''now''"
| "pod_world h c = ROk"

lemma pod_world_settles: "settles pod_world 1"
  by (auto simp: settles_def)

lemma slept_append: "slept (h @ t) = slept h + slept t"
  by (simp add: slept_def)

lemma pod_world_clock: "clock_runs pod_clock pod_world"
  by (simp add: clock_runs_def pod_clock_def slept_append millis_def)

definition demo_yaml :: "garden \<Rightarrow> string result" where
  "demo_yaml g = Inr ''yaml''"

abbreviation demo_life :: "pod_op list \<Rightarrow> pod \<times> history" where
  "demo_life ops \<equiv> pod_life pod_world demo_yaml ops (demo_pod, [])"

section \<open>Witnesses\<close>

theorem pod_refines_witness: "pod_step\<^sup>*\<^sup>* (demo_pod, []) (demo_life [Tick 9, StopGraceful 9 0])"
  by (rule pod_refines [OF demo_pod_new])

theorem pod_invariant_witness:
  "list_all handle_ok (pd_containers (fst (demo_life [Tick 9]))) \<and>
   map ch_spec (pd_containers (fst (demo_life [Tick 9]))) = [demo_container]"
  using pod_invariant [OF demo_pod_new, of pod_world demo_yaml "[Tick 9]" "[]" "fst (demo_life [Tick 9])" "snd (demo_life [Tick 9])"]
  by (simp add: demo_garden_def list_all_iff)

theorem never_restarted_witness:
  "list_all2 older (pd_containers (fst (demo_life [Tick 9])))
     (pd_containers (fst (run_ops pod_world [Tick 9, Tick 9] (demo_life [Tick 9])))) \<and>
   (\<exists>t. snd (run_ops pod_world [Tick 9, Tick 9] (demo_life [Tick 9])) = snd (demo_life [Tick 9]) @ t \<and>
     (\<forall>e \<in> set t. fst e \<noteq> Pod Fork))"
  using never_restarted [OF demo_pod_new, of pod_world demo_yaml "[Tick 9]" "[]" "fst (demo_life [Tick 9])"
      "snd (demo_life [Tick 9])" "[Tick 9, Tick 9]" "fst (run_ops pod_world [Tick 9, Tick 9] (demo_life [Tick 9]))"
      "snd (run_ops pod_world [Tick 9, Tick 9] (demo_life [Tick 9]))"]
  by simp

definition demo_reap :: "unit result \<times> pod \<times> history" where
  "demo_reap = reap_exited_processes 3 pod_world (running_pod, [])"

lemma demo_reap_ok: "fst demo_reap = Inr ()" "map ch_pid (pd_containers (fst (snd demo_reap))) = [None]"
  by code_simp+

theorem reap_records_exits_witness:
  "map ch_pid (map (after_exits (exits (snd (snd demo_reap)))) (pd_containers running_pod)) = [None]"
proof -
  have "own_pids (pd_containers running_pod)" by (simp add: running_pod_def)
  moreover have "reap_exited_processes 3 pod_world (running_pod, []) = (Inr (), (fst (snd demo_reap), snd (snd demo_reap)))"
    using demo_reap_ok(1) by (simp add: demo_reap_def prod_eq_iff)
  ultimately have "pd_containers (fst (snd demo_reap)) = map (after_exits (exits (snd (snd demo_reap)))) (pd_containers running_pod)"
    using reap_records_exits [of running_pod 3 pod_world "[]" "Inr ()" "fst (snd demo_reap)" "snd (snd demo_reap)"] by auto
  with demo_reap_ok(2) show ?thesis by simp
qed

theorem stop_graceful_returns_witness: "fst (stop_graceful 2 pod_world (millis 100) (running_pod, [])) \<noteq> Inl NoFuel"
  by (rule stop_graceful_returns [OF pod_world_settles pod_world_clock]) (simp_all add: millis_def)

definition demo_stop :: "unit result \<times> pod \<times> history" where
  "demo_stop = stop_graceful 3 pod_world 0 (running_pod, [])"

fun is_sigkill :: "call \<times> reply \<Rightarrow> bool" where
  "is_sigkill (Proc (Kill pid sig), y) = (sig = sigkill)"
| "is_sigkill e = False"

lemma demo_stop_ok: "fst demo_stop = Inr ()"
  by code_simp

lemma demo_stop_run: "stop_graceful 3 pod_world 0 (running_pod, []) = (Inr (), (fst (snd demo_stop), snd (snd demo_stop)))"
  using demo_stop_ok by (simp add: demo_stop_def prod_eq_iff)

lemma sigkill_entry:
  obtains u v where "snd (snd demo_stop) = u @ (Proc (Kill 100 sigkill), ROk) # v"
proof -
  have "hd_option (snd (cut is_sigkill (snd (snd demo_stop)))) = Some (Proc (Kill 100 sigkill), ROk)" by code_simp
  from cutE [OF hd_option_Some [OF this]] that show ?thesis by blast
qed

theorem sigkill_last_resort_witness:
  "\<exists>u. set u \<subseteq> set (snd (snd demo_stop)) \<and> (\<exists>z. (Proc (Kill 100 sigterm), z) \<in> set u) \<and> timeout_recorded running_pod 0 u"
proof -
  obtain u v where uv: "snd (snd demo_stop) = u @ (Proc (Kill 100 sigkill), ROk) # v" by (rule sigkill_entry)
  with demo_stop_run have "stop_graceful 3 pod_world 0 (running_pod, []) =
      (Inr (), (fst (snd demo_stop), [] @ u @ (Proc (Kill 100 sigkill), ROk) # v))" by simp
  from sigkill_last_resort [OF this] uv show ?thesis by auto
qed

theorem stop_graceful_done_witness:
  "signalled sigterm (pd_containers running_pod) (snd (snd demo_stop)) \<and> closed_as_success running_pod (snd (snd demo_stop))"
  using stop_graceful_done [OF demo_stop_run] by auto

definition demo_child :: "unit result \<times> history" where
  "demo_child = container_child_exec pod_world demo_container ''c'' ''g'' (pod_events demo_pod) ''/r'' ''glns-g'' []"

fun is_exec_call :: "call \<times> reply \<Rightarrow> bool" where
  "is_exec_call (Task (Execv p a), y) = True"
| "is_exec_call e = False"

lemma container_exec_entry:
  obtains u v where "snd demo_child = u @ (Task (Execv ''/sh'' [''/sh'']), ROk) # v"
proof -
  have "hd_option (snd (cut is_exec_call (snd demo_child))) = Some (Task (Execv ''/sh'' [''/sh'']), ROk)" by code_simp
  from cutE [OF hd_option_Some [OF this]] that show ?thesis by blast
qed

theorem container_exec_ordered_witness:
  "\<exists>u. set u \<subseteq> set (snd demo_child) \<and>
     has_in_order (container_steps demo_container ''c'' ''g'' (pod_events demo_pod) ''/r'' ''glns-g'') u"
proof -
  obtain u v where uv: "snd demo_child = u @ (Task (Execv ''/sh'' [''/sh'']), ROk) # v" by (rule container_exec_entry)
  then have "container_child_exec pod_world demo_container ''c'' ''g'' (pod_events demo_pod) ''/r'' ''glns-g'' [] =
      (fst demo_child, [] @ u @ (Task (Execv ''/sh'' [''/sh'']), ROk) # v)" by (simp add: demo_child_def prod_eq_iff)
  from container_exec_ordered [OF this] uv show ?thesis by auto
qed

theorem pod_ip_collision_witness:
  "pd_pod_ip (fst (snd (setup_pod_network pod_world (demo_pod, [])))) = Some ''10.44.1.10''"
proof -
  have "fst (setup_pod_network pod_world (demo_pod, [])) = Inr ()" by code_simp
  then have "setup_pod_network pod_world (demo_pod, []) =
      (Inr (), (fst (snd (setup_pod_network pod_world (demo_pod, []))), snd (snd (setup_pod_network pod_world (demo_pod, [])))))"
    by (simp add: prod_eq_iff)
  from pod_ip_collision [OF _ this] show ?thesis
    by (simp add: demo_pod_def demo_garden_def garden_net_config_default_def)
qed

end
