(* ===== verification/Registry.thy ===== *)
theory Registry
  imports Prelude "HOL-Library.Finite_Map"
begin

text \<open>
  The contract of the program's in-memory tables: the service names of the DNS registry, the secret
  keystore, the pact store and the content store all are a \<open>HashMap\<close> keyed by a text behind a mutex.
  \<open>lookup_table\<close> is a table one can only add to, \<open>registry\<close> one that also removes. What their
  clients rely on is proved once: the last write to a key decides its value, and writes to other
  keys do not interfere.
\<close>

locale lookup_table =
  fixes new :: 't and get :: "'t \<Rightarrow> string \<Rightarrow> 'v option" and put :: "string \<Rightarrow> 'v \<Rightarrow> 't \<Rightarrow> 't"
  assumes get_new: "get new k = None"
    and get_put: "get (put k v t) k' = (if k' = k then Some v else get t k')"
begin

lemma get_puts: "get (fold (\<lambda>(k, v). put k v) kvs t) k = (case map_of (rev kvs) k of None \<Rightarrow> get t k | Some v \<Rightarrow> Some v)"
proof (induction kvs rule: rev_induct)
  case (snoc kv kvs)
  then show ?case by (cases kv) (simp add: get_put)
qed simp

lemma get_puts_new: "get (fold (\<lambda>(k, v). put k v) kvs new) k = map_of (rev kvs) k"
  by (simp add: get_puts get_new split: option.split)

lemma put_present: "get (put k v t) k \<noteq> None"
  by (simp add: get_put)

end

datatype 'v table_op = Put string 'v | Del string

fun last_write :: "string \<Rightarrow> 'v table_op list \<Rightarrow> 'v option \<Rightarrow> 'v option" where
  "last_write k [] d = d"
| "last_write k (Put k' v # ops) d = last_write k ops (if k = k' then Some v else d)"
| "last_write k (Del k' # ops) d = last_write k ops (if k = k' then None else d)"

locale registry = lookup_table new get put
  for new :: 't and get :: "'t \<Rightarrow> string \<Rightarrow> 'v option" and put :: "string \<Rightarrow> 'v \<Rightarrow> 't \<Rightarrow> 't" +
  fixes del :: "string \<Rightarrow> 't \<Rightarrow> 't"
  assumes get_del: "get (del k t) k' = (if k' = k then None else get t k')"
begin

fun run_ops :: "'v table_op list \<Rightarrow> 't \<Rightarrow> 't" where
  "run_ops [] t = t"
| "run_ops (Put k v # ops) t = run_ops ops (put k v t)"
| "run_ops (Del k # ops) t = run_ops ops (del k t)"

lemma get_run: "get (run_ops ops t) k = last_write k ops (get t k)"
  by (induction ops t rule: run_ops.induct) (auto simp: get_put get_del)

lemma get_run_new: "get (run_ops ops new) k = last_write k ops None"
  by (simp add: get_run get_new)

lemma get_dels: "get (fold del ks t) k = (if k \<in> set ks then None else get t k)"
  by (induction ks arbitrary: t) (auto simp: get_del)

end

end
