(* ===== verification/Oci.thy ===== *)
theory Oci
  imports Sys Registry Steps
begin

text \<open>
  OCI images and the content store, \<open>src/store/oci.rs\<close> and \<open>src/store/cas.rs\<close>. The manager keeps the
  directory it works in and the table from layer digests to paths. What \<open>serde_json\<close> makes of the two documents
  is an argument (\<open>parse_index\<close>, \<open>parse_manifest\<close>), as is the text of the fresh identifier of an
  extraction; unpacking an archive is a call, and so is every step of reading one (\<open>TarNext\<close> answers \<open>ROk\<close> for
  an entry, \<open>RBool False\<close> at the end). Paths of entries are UTF-8.

  Lemmas: which layers an import registers, what becomes of the files behind an import from an archive, and what
  extracting a layer unpacks.
\<close>

section \<open>Documents\<close>

record image_platform =
  ip_architecture :: string
  ip_os :: string

record manifest_descriptor =
  md_media_type :: string
  md_digest :: string
  md_size :: u64
  md_platform :: "image_platform option"

record image_index =
  ix_schema_version :: u32
  ix_manifests :: "manifest_descriptor list"

record layer_descriptor =
  de_media_type :: string
  de_digest :: string
  de_size :: u64

record image_manifest =
  im_schema_version :: u32
  im_config :: layer_descriptor
  im_layers :: "layer_descriptor list"

record container_config =
  cc_env :: "string list"
  cc_cmd :: "string list"
  cc_working_dir :: string

record image_config =
  ic_architecture :: string
  ic_os :: string
  ic_config :: "container_config option"

section \<open>The content store\<close>

record cas =
  ca_index :: "(string, string) fmap"

definition cas_new :: cas where
  "cas_new = \<lparr>ca_index = fmempty\<rparr>"

definition cas_insert :: "string \<Rightarrow> string \<Rightarrow> cas \<Rightarrow> cas" where
  "cas_insert digest path c = c\<lparr>ca_index := fmupd digest path (ca_index c)\<rparr>"

definition cas_path :: "cas \<Rightarrow> string \<Rightarrow> string option" where
  "cas_path c digest = fmlookup (ca_index c) digest"

definition cas_register :: "env \<Rightarrow> string \<Rightarrow> string \<Rightarrow> (cas \<times> history, unit) io" where
  "cas_register env digest path =
     io_bind (on_history (sys_exists env path)) (\<lambda>present.
     if \<not> present then io_bail (''Layer path does not exist: '' @ path)
     else update_state (cas_insert digest path))"

definition cas_get :: "cas \<Rightarrow> string \<Rightarrow> string result" where
  "cas_get c digest = opt_ctx (''Layer not found in CAS: '' @ digest) (cas_path c digest)"

definition cas_exists :: "cas \<Rightarrow> string \<Rightarrow> bool" where
  "cas_exists c digest \<longleftrightarrow> cas_path c digest \<noteq> None"

interpretation cas: lookup_table cas_new cas_path cas_insert
  by unfold_locales (auto simp: cas_new_def cas_path_def cas_insert_def)

section \<open>The image manager\<close>

text \<open>\<open>OCIManager::new\<close>: the directory is created when it is missing; the table starts empty.\<close>

definition oci_new :: "env \<Rightarrow> string \<Rightarrow> (history, cas) io" where
  "oci_new env store_path =
     io_bind (sys_exists env store_path) (\<lambda>present.
     io_seq (io_when (\<not> present)
        (io_ctx (''Failed to create OCI store: '' @ store_path) (sys_unit env (File (CreateDirAll store_path)))))
       (io_return cas_new))"

definition blob_path_from_digest :: "string \<Rightarrow> string \<Rightarrow> string" where
  "blob_path_from_digest base digest =
     (case strip_prefix ''sha256:'' digest of
        Some hash \<Rightarrow> path_join (path_join (path_join base ''blobs'') ''sha256'') hash
      | None \<Rightarrow> path_join (path_join base ''blobs'') digest)"

definition register_layer :: "env \<Rightarrow> string \<Rightarrow> layer_descriptor \<Rightarrow> (cas \<times> history, unit) io" where
  "register_layer env dir layer =
     (let layer_blob_path = blob_path_from_digest dir (de_digest layer) in
      io_bind (on_history (sys_exists env layer_blob_path)) (\<lambda>present.
      io_when present (cas_register env (de_digest layer) layer_blob_path)))"

fun first_of :: "'a list \<Rightarrow> 'a option" where
  "first_of [] = None"
| "first_of (x # xs) = Some x"

definition import_directory ::
    "env \<Rightarrow> (string \<Rightarrow> image_index result) \<Rightarrow> (string \<Rightarrow> image_manifest result) \<Rightarrow> string \<Rightarrow> (cas \<times> history, string) io" where
  "import_directory env parse_index parse_manifest dir =
     io_bind (on_history (io_ctx (''Failed to read index.json from '' @ dir)
        (sys_str env (File (ReadToString (path_join dir ''index.json'')))))) (\<lambda>index_content.
     io_bind (io_lift (with_ctx ''Failed to parse index.json'' (parse_index index_content))) (\<lambda>index.
     io_bind (io_lift (opt_ctx ''No manifests found in index'' (first_of (ix_manifests index)))) (\<lambda>manifest_desc.
     let manifest_blob_path = blob_path_from_digest dir (md_digest manifest_desc) in
     io_bind (on_history (io_ctx (''Failed to read manifest blob: '' @ manifest_blob_path)
        (sys_str env (File (ReadToString manifest_blob_path))))) (\<lambda>manifest_content.
     io_bind (io_lift (with_ctx ''Failed to parse manifest'' (parse_manifest manifest_content))) (\<lambda>manifest.
     io_seq (io_each (register_layer env dir) (im_layers manifest))
       (io_return (md_digest manifest_desc)))))))"

text \<open>\<open>Path::file_name\<close> and \<open>Path::extension\<close>.\<close>

definition path_file_name :: "string \<Rightarrow> string option" where
  "path_file_name p =
     (let n = rev (takeWhile (\<lambda>c. c \<noteq> CHR ''/'') (rev (trim_tail p))) in
      if n = [] \<or> n = ''.'' \<or> n = ''..'' then None else Some n)"

definition path_extension :: "string \<Rightarrow> string option" where
  "path_extension p =
     (case path_file_name p of
        None \<Rightarrow> None
      | Some n \<Rightarrow>
          if CHR ''.'' \<notin> set (tl n) then None
          else Some (rev (takeWhile (\<lambda>c. c \<noteq> CHR ''.'') (rev n))))"

definition is_gzipped :: "string \<Rightarrow> bool" where
  "is_gzipped tar_path \<longleftrightarrow> path_extension tar_path = Some ''gz'' \<or> path_extension tar_path = Some ''tgz''"

definition extraction_dir :: "string \<Rightarrow> string \<Rightarrow> string" where
  "extraction_dir store_path uuid = path_join store_path (''oci-extract-'' @ uuid)"

definition import_tar ::
    "env \<Rightarrow> (string \<Rightarrow> image_index result) \<Rightarrow> (string \<Rightarrow> image_manifest result) \<Rightarrow> string \<Rightarrow> string \<Rightarrow> string \<Rightarrow>
     (cas \<times> history, string) io" where
  "import_tar env parse_index parse_manifest uuid store_path tar_path =
     (let temp_dir = extraction_dir store_path uuid in
      io_seq (on_history (io_ctx (''Failed to create temp dir: '' @ temp_dir) (sys_unit env (File (CreateDirAll temp_dir)))))
      (io_seq (on_history (io_ctx (''Failed to open tar: '' @ tar_path) (sys_unit env (File (OpenFile tar_path)))))
      (io_seq (on_history (io_ctx (if is_gzipped tar_path then ''Failed to extract gzipped tar'' else ''Failed to extract tar'')
         (sys_unit env (File (UnpackTar tar_path (is_gzipped tar_path) temp_dir)))))
      (io_bind (import_directory env parse_index parse_manifest temp_dir) (\<lambda>manifest_digest.
       io_bind (on_history (io_attempt (sys_unit env (File (RemoveDirAll temp_dir))))) (\<lambda>_.
       io_return manifest_digest))))))"

definition import_image ::
    "env \<Rightarrow> (string \<Rightarrow> image_index result) \<Rightarrow> (string \<Rightarrow> image_manifest result) \<Rightarrow> string \<Rightarrow> string \<Rightarrow> string \<Rightarrow>
     (cas \<times> history, string) io" where
  "import_image env parse_index parse_manifest uuid store_path source =
     io_bind (on_history (io_bind (sys env (File (IsDir source))) (\<lambda>r. io_return (as_bool r)))) (\<lambda>directory.
     if directory then import_directory env parse_index parse_manifest source
     else import_tar env parse_index parse_manifest uuid store_path source)"

definition unpack_image :: "env \<Rightarrow> string \<Rightarrow> (history, string list) io" where
  "unpack_image env target_dir =
     io_seq (io_ctx (''Failed to create target dir: '' @ target_dir) (sys_unit env (File (CreateDirAll target_dir))))
       (io_return [])"

text \<open>What \<open>extract_layer\<close> passes over: the whiteout files, opaque or not.\<close>

definition is_whiteout :: "string \<Rightarrow> bool" where
  "is_whiteout path \<longleftrightarrow> (case path_file_name path of None \<Rightarrow> False | Some name \<Rightarrow> prefix ''.wh.'' name)"

definition extract_entry :: "env \<Rightarrow> string \<Rightarrow> string \<Rightarrow> (history, unit) io" where
  "extract_entry env layer_blob target_dir =
     io_bind (sys_str env (File (TarEntryPath layer_blob))) (\<lambda>path.
       io_when (\<not> is_whiteout path) (sys_unit env (File (TarUnpackIn layer_blob target_dir))))"

fun extract_entries :: "nat \<Rightarrow> env \<Rightarrow> string \<Rightarrow> string \<Rightarrow> (history, unit) io" where
  "extract_entries 0 env layer_blob target_dir = io_lift (Inl NoFuel)"
| "extract_entries (Suc fuel) env layer_blob target_dir =
     io_bind (sys env (File (TarNext layer_blob))) (\<lambda>r.
     if r = RBool False then io_return ()
     else
       io_seq (io_lift (as_unit r))
       (io_seq (extract_entry env layer_blob target_dir)
         (extract_entries fuel env layer_blob target_dir)))"

definition extract_layer :: "nat \<Rightarrow> env \<Rightarrow> string \<Rightarrow> string \<Rightarrow> (history, unit) io" where
  "extract_layer fuel env layer_blob target_dir =
     io_seq (io_ctx (''Failed to create layer dir: '' @ target_dir) (sys_unit env (File (CreateDirAll target_dir))))
     (io_seq (io_ctx (''Failed to open layer blob: '' @ layer_blob) (sys_unit env (File (OpenFile layer_blob))))
       (extract_entries fuel env layer_blob target_dir))"

section \<open>Layers and the table\<close>

text \<open>What any part of an import may do to the table and the files: a digest keeps its path or gets that of its
  blob below \<open>dir\<close>, and no directory is removed.\<close>

definition removal :: "call \<times> reply \<Rightarrow> bool" where
  "removal e \<longleftrightarrow> (\<exists>path. fst e = File (RemoveDirAll path))"

definition gains :: "string \<Rightarrow> cas \<times> history \<Rightarrow> cas \<times> history \<Rightarrow> bool" where
  "gains dir s s' \<longleftrightarrow>
     (\<forall>k. cas_path (fst s') k = cas_path (fst s) k \<or> cas_path (fst s') k = Some (blob_path_from_digest dir k)) \<and>
     (\<exists>t. snd s' = snd s @ t \<and> (\<forall>e \<in> set t. \<not> removal e))"

lemma gains_refl: "reflp (gains dir)"
  by (auto simp: reflp_def gains_def)

lemma gains_trans: "transp (gains dir)"
  unfolding transp_def gains_def by (metis (no_types, lifting) Un_iff append.assoc set_append)

lemma gains_history: "emits (\<lambda>e. \<not> removal e) m \<Longrightarrow> within (gains dir) (on_history m)"
proof (rule within_one)
  fix s s' :: "cas \<times> history" and r
  assume m: "emits (\<lambda>e. \<not> removal e) m" and "on_history m s = (r, s')"
  then obtain c h h' where "s = (c, h)" "s' = (c, h')" "m h = (r, h')"
    by (cases s, cases s') auto
  then show "gains dir s s'" using emitsD [OF m] by (fastforce simp: gains_def)
qed

lemma gains_insert: "within (gains dir) (update_state (cas_insert k (blob_path_from_digest dir k)))"
  by (rule within_one) (auto simp: gains_def update_state_def cas.get_put)

lemma gains_register: "within (gains dir) (register_layer env dir layer)"
  unfolding register_layer_def cas_register_def Let_def
  by (auto intro!: within_intros gains_history gains_insert emits_intros simp: removal_def)

lemma gains_import: "within (gains dir) (import_directory env pi pm dir)"
  unfolding import_directory_def Let_def
  by (auto intro!: within_intros gains_history gains_register emits_intros simp: removal_def)

section \<open>A file system that stays as it is\<close>

definition stable_files :: "env \<Rightarrow> (string \<Rightarrow> bool) \<Rightarrow> bool" where
  "stable_files env fs \<longleftrightarrow> (\<forall>h p. env h (File (PathExists p)) = RBool (fs p))"

lemma exists_stable:
  "stable_files env fs \<Longrightarrow> sys_exists env p h = (Inr (fs p), h @ [(File (PathExists p), RBool (fs p))])"
  by (simp add: stable_files_def sys_exists_def sys_def io_simps Let_def)

lemma register_stable:
  assumes "stable_files env fs"
  shows "\<exists>h'. register_layer env dir l (c, h) =
    (Inr (), (if fs (blob_path_from_digest dir (de_digest l))
              then cas_insert (de_digest l) (blob_path_from_digest dir (de_digest l)) c else c, h'))"
  by (auto simp: register_layer_def cas_register_def exists_stable [OF assms] io_simps on_history_def update_state_def Let_def)

text \<open>The layers that are there, with their paths.\<close>

definition found_layers :: "(string \<Rightarrow> bool) \<Rightarrow> string \<Rightarrow> layer_descriptor list \<Rightarrow> string list" where
  "found_layers fs dir ls = filter (\<lambda>k. fs (blob_path_from_digest dir k)) (map de_digest ls)"

lemma register_all_stable:
  assumes "stable_files env fs"
  shows "\<exists>h'. io_each (register_layer env dir) ls (c, h) =
    (Inr (), (fold (\<lambda>(k, p). cas_insert k p) (map (\<lambda>k. (k, blob_path_from_digest dir k)) (found_layers fs dir ls)) c, h'))"
proof (induction ls arbitrary: c h)
  case Nil
  show ?case by (simp add: found_layers_def)
next
  case (Cons l ls)
  let ?c = "if fs (blob_path_from_digest dir (de_digest l))
    then cas_insert (de_digest l) (blob_path_from_digest dir (de_digest l)) c else c"
  obtain h1 where 1: "register_layer env dir l (c, h) = (Inr (), (?c, h1))"
    using register_stable [OF assms] by blast
  obtain h2 where 2: "io_each (register_layer env dir) ls (?c, h1) =
      (Inr (), (fold (\<lambda>(k, p). cas_insert k p) (map (\<lambda>k. (k, blob_path_from_digest dir k)) (found_layers fs dir ls)) ?c, h2))"
    using Cons.IH by blast
  from 1 2 show ?case by (simp add: io_seq_def io_bind_def found_layers_def)
qed

lemma found_path:
  "cas_path (fold (\<lambda>(k, p). cas_insert k p) (map (\<lambda>k. (k, blob_path_from_digest dir k)) (found_layers fs dir ls)) c) k =
     (if k \<in> de_digest ` set ls \<and> fs (blob_path_from_digest dir k) then Some (blob_path_from_digest dir k) else cas_path c k)"
proof -
  have "map_of (rev (map (\<lambda>k. (k, blob_path_from_digest dir k)) ks)) k =
      (if k \<in> set ks then Some (blob_path_from_digest dir k) else None)" for ks
    by (simp add: rev_map map_of_map_restrict restrict_map_def)
  then show ?thesis by (simp only: cas.get_puts) (auto simp: found_layers_def)
qed

section \<open>Properties\<close>

text \<open>C22: Importing an image directory whose index and first manifest can be read and understood always succeeds
  and returns the digest of that manifest: on a file system that stays as it is, exactly the layers whose blob is
  there are registered, under the path of their blob, every other entry of the table is kept, and a missing layer
  is passed over in silence.\<close>
theorem import_registers:
  assumes "stable_files env fs"
    and "env h (File (ReadToString (path_join dir ''index.json''))) = RStr index_text"
    and "parse_index index_text = Inr ix" and "ix_manifests ix = d # ds"
    and "env (h @ [(File (ReadToString (path_join dir ''index.json'')), RStr index_text)])
           (File (ReadToString (blob_path_from_digest dir (md_digest d)))) = RStr manifest_text"
    and "parse_manifest manifest_text = Inr m"
  shows "\<exists>c' h'. import_directory env parse_index parse_manifest dir (c, h) = (Inr (md_digest d), (c', h')) \<and>
    (\<forall>k. cas_path c' k =
       (if k \<in> de_digest ` set (im_layers m) \<and> fs (blob_path_from_digest dir k)
        then Some (blob_path_from_digest dir k) else cas_path c k))"
proof -
  let ?h1 = "h @ [(File (ReadToString (path_join dir ''index.json'')), RStr index_text)]"
  let ?h2 = "?h1 @ [(File (ReadToString (blob_path_from_digest dir (md_digest d))), RStr manifest_text)]"
  let ?c = "fold (\<lambda>(k, p). cas_insert k p)
    (map (\<lambda>k. (k, blob_path_from_digest dir k)) (found_layers fs dir (im_layers m))) c"
  have r: "sys_str env (File (ReadToString p)) h = (Inr s, h @ [(File (ReadToString p), RStr s)])"
    if "env h (File (ReadToString p)) = RStr s" for p s h
    using that by (simp add: sys_str_ok)
  obtain h' where "io_each (register_layer env dir) (im_layers m) (c, ?h2) = (Inr (), (?c, h'))"
    using register_all_stable [OF assms(1)] by blast
  then have "import_directory env parse_index parse_manifest dir (c, h) = (Inr (md_digest d), (?c, h'))"
    by (simp add: import_directory_def io_simps on_history_def Let_def r [OF assms(2)] r [OF assms(5)] assms(3,4,6))
  then show ?thesis using found_path by blast
qed

text \<open>Extracting and registering, before the directory is removed.\<close>

definition extract_and_import ::
    "env \<Rightarrow> (string \<Rightarrow> image_index result) \<Rightarrow> (string \<Rightarrow> image_manifest result) \<Rightarrow> string \<Rightarrow> string \<Rightarrow>
     (cas \<times> history, string) io" where
  "extract_and_import env pi pm temp_dir tar_path =
     io_seq (on_history (io_ctx (''Failed to create temp dir: '' @ temp_dir) (sys_unit env (File (CreateDirAll temp_dir)))))
     (io_seq (on_history (io_ctx (''Failed to open tar: '' @ tar_path) (sys_unit env (File (OpenFile tar_path)))))
     (io_seq (on_history (io_ctx (if is_gzipped tar_path then ''Failed to extract gzipped tar'' else ''Failed to extract tar'')
        (sys_unit env (File (UnpackTar tar_path (is_gzipped tar_path) temp_dir)))))
      (import_directory env pi pm temp_dir)))"

lemma import_tar_split:
  "import_tar env pi pm uuid store_path tar_path =
     io_bind (extract_and_import env pi pm (extraction_dir store_path uuid) tar_path) (\<lambda>d.
     io_bind (on_history (io_attempt (sys_unit env (File (RemoveDirAll (extraction_dir store_path uuid)))))) (\<lambda>_.
     io_return d))"
  by (simp add: import_tar_def extract_and_import_def io_seq_def io_bind_assoc Let_def)

lemma gains_extract: "within (gains temp_dir) (extract_and_import env pi pm temp_dir tar_path)"
  unfolding extract_and_import_def
  by (auto intro!: within_intros gains_history gains_import emits_intros simp: removal_def)

lemma gains_run:
  assumes "extract_and_import env pi pm temp_dir tar_path (c, h) = (r, (c', h'))"
  shows "cas_path c' k = cas_path c k \<or> cas_path c' k = Some (blob_path_from_digest temp_dir k)"
    and "\<exists>t. h' = h @ t \<and> list_all (\<lambda>e. \<not> removal e) t"
  using within_rel [OF gains_extract assms _ gains_refl gains_trans] by (auto simp: gains_def list_all_iff)

lemma attempt_unit:
  assumes "io_attempt (sys_unit env c) h = (r, h')"
  shows "h' = h @ [(c, env h c)] \<and> (env h c = RKilled \<and> r = Inl Killed \<or> is_ok r)"
  using assms by (cases "env h c") (auto simp: sys_unit_def sys_def io_simps Let_def bail_def)

text \<open>How an import from an archive may end: removing the directory comes last and only after success.\<close>

fun removes_last :: "string \<Rightarrow> history \<Rightarrow> bool" where
  "removes_last path t \<longleftrightarrow>
     t \<noteq> [] \<and> fst (last t) = File (RemoveDirAll path) \<and> list_all (\<lambda>e. \<not> removal e) (butlast t)"

text \<open>C23: An import from an archive registers digests only with blobs inside the directory it extracts to. When it
  succeeds, its last call has been to remove that directory, so the new paths are paths of removed files; when
  it fails, nothing has been removed and the directory stays (unless the kernel kills the import while it
  removes).\<close>
theorem import_tar_dangling:
  assumes "import_tar env parse_index parse_manifest uuid store_path tar_path (c, h) = (r, (c', h'))"
  shows "(\<forall>k. cas_path c' k = cas_path c k \<or>
              cas_path c' k = Some (blob_path_from_digest (extraction_dir store_path uuid) k)) \<and>
    (\<exists>t. h' = h @ t \<and>
       (if is_ok r then removes_last (extraction_dir store_path uuid) t
        else list_all (\<lambda>e. \<not> removal e) t \<or>
             r = Inl Killed \<and> removes_last (extraction_dir store_path uuid) t))"
proof -
  let ?dir = "extraction_dir store_path uuid"
  from assms consider
      e where "extract_and_import env parse_index parse_manifest ?dir tar_path (c, h) = (Inl e, (c', h'))" "r = Inl e"
    | d h1 r1 where "extract_and_import env parse_index parse_manifest ?dir tar_path (c, h) = (Inr d, (c', h1))"
        "io_attempt (sys_unit env (File (RemoveDirAll ?dir))) h1 = (r1, h')"
        "is_ok r1 \<and> r = Inr d \<or> (\<exists>e. r1 = Inl e \<and> r = Inl e)"
    unfolding import_tar_split by (fastforce simp: io_bind_cases)
  then show ?thesis
  proof cases
    case 1
    then show ?thesis using gains_run [OF 1(1)] by auto
  next
    case 2
    from attempt_unit [OF 2(2)] 2(3)
    have h': "h' = h1 @ [(File (RemoveDirAll ?dir), env h1 (File (RemoveDirAll ?dir)))]" and "is_ok r \<or> r = Inl Killed"
      by auto
    obtain t where "h1 = h @ t" "list_all (\<lambda>e. \<not> removal e) t" using gains_run(2) [OF 2(1)] by blast
    with h' have "h' = h @ (t @ [(File (RemoveDirAll ?dir), env h1 (File (RemoveDirAll ?dir)))])"
      and "removes_last ?dir (t @ [(File (RemoveDirAll ?dir), env h1 (File (RemoveDirAll ?dir)))])" by simp_all
    with \<open>is_ok r \<or> r = Inl Killed\<close> gains_run(1) [OF 2(1)] show ?thesis by (metis (full_types))
  qed
qed

section \<open>Extracting a layer\<close>

lemma no_fuel_unit: "sys_unit env c k \<noteq> (Inl NoFuel, k')"
  and no_fuel_str: "sys_str env c k \<noteq> (Inl NoFuel, k')"
proof -
  have "as_unit r \<noteq> Inl NoFuel" "as_str r \<noteq> Inl NoFuel" for r by (cases r; simp add: bail_def)+
  then show "sys_unit env c k \<noteq> (Inl NoFuel, k')" "sys_str env c k \<noteq> (Inl NoFuel, k')"
    by (auto simp: sys_unit_def sys_str_def io_bind_cases sys_def Let_def io_lift_def split: if_splits)
qed

text \<open>The calls for one entry of a layer: a whiteout is read and passed over.\<close>

definition entry_calls :: "string \<Rightarrow> string \<Rightarrow> string \<Rightarrow> history" where
  "entry_calls layer_blob target_dir path =
     [(File (TarNext layer_blob), ROk), (File (TarEntryPath layer_blob), RStr path)] @
     (if is_whiteout path then [] else [(File (TarUnpackIn layer_blob target_dir), ROk)])"

lemma extract_entry_ok:
  assumes "env h (File (TarNext blob)) = ROk" "extract_entry env blob dir (h @ [(File (TarNext blob), ROk)]) = (Inr u, h')"
  shows "\<exists>path. h' = h @ entry_calls blob dir path"
proof -
  from assms(2) obtain path where
    "io_when (\<not> is_whiteout path) (sys_unit env (File (TarUnpackIn blob dir)))
       (h @ [(File (TarNext blob), ROk), (File (TarEntryPath blob), RStr path)]) = (Inr u, h')"
    by (auto simp: extract_entry_def io_bind_ok sys_str_ok)
  then have "h' = h @ entry_calls blob dir path"
    by (cases "is_whiteout path") (auto simp: io_when_def io_return_def sys_unit_ok entry_calls_def)
  then show ?thesis ..
qed

lemma entry_fuel: "extract_entry env blob dir h \<noteq> (Inl NoFuel, h')"
  using no_fuel_unit no_fuel_str
  by (auto simp: extract_entry_def io_bind_cases io_when_def io_return_def split: if_splits)

lemma extract_entries_ok:
  "extract_entries fuel env blob dir h = (Inr u, h') \<Longrightarrow>
     \<exists>paths. h' = h @ concat (map (entry_calls blob dir) paths) @ [(File (TarNext blob), RBool False)]"
proof (induction fuel arbitrary: h)
  case (Suc fuel)
  show ?case
  proof (cases "env h (File (TarNext blob)) = RBool False")
    case True
    with Suc.prems show ?thesis by (intro exI [of _ "[]"]) (auto simp: io_bind_ok sys_ok io_return_def)
  next
    case False
    with Suc.prems obtain v h1 where next_ok: "env h (File (TarNext blob)) = ROk"
        "extract_entry env blob dir (h @ [(File (TarNext blob), ROk)]) = (Inr v, h1)"
      and rest: "extract_entries fuel env blob dir h1 = (Inr u, h')"
      by (auto simp: io_bind_ok io_seq_ok sys_ok io_lift_def)
    from extract_entry_ok [OF next_ok] obtain path where "h1 = h @ entry_calls blob dir path" by blast
    with Suc.IH [OF rest] obtain paths where
      "h' = h @ concat (map (entry_calls blob dir) (path # paths)) @ [(File (TarNext blob), RBool False)]" by auto
    then show ?thesis by blast
  qed
qed (simp add: io_lift_def)

definition entries_seen :: "string \<Rightarrow> history \<Rightarrow> nat" where
  "entries_seen layer_blob t = length (filter (\<lambda>e. e = (File (TarNext layer_blob), ROk)) t)"

lemma entries_seen_append [simp]: "entries_seen b (s @ t) = entries_seen b s + entries_seen b t"
  by (simp add: entries_seen_def)

lemma extract_entries_fuel:
  "extract_entries fuel env blob dir h = (Inl NoFuel, h') \<Longrightarrow> entries_seen blob h' \<ge> entries_seen blob h + fuel"
proof (induction fuel arbitrary: h)
  case (Suc fuel)
  have "as_unit r \<noteq> Inl NoFuel" for r by (cases r) (simp_all add: bail_def)
  with Suc.prems entry_fuel [of env blob dir] obtain v h1 where
      next_ok: "env h (File (TarNext blob)) = ROk" "extract_entry env blob dir (h @ [(File (TarNext blob), ROk)]) = (Inr v, h1)"
    and rest: "extract_entries fuel env blob dir h1 = (Inl NoFuel, h')"
    by (auto simp: io_bind_cases io_seq_cases sys_def Let_def io_lift_def io_return_def split: if_splits)
  from extract_entry_ok [OF next_ok] obtain path where "h1 = h @ entry_calls blob dir path" by blast
  with Suc.IH [OF rest] show ?case by (simp add: entries_seen_def entry_calls_def)
qed simp

text \<open>Extracting a layer that succeeds has unpacked every entry that is not a whiteout, in the order of the
  archive, and made no other call: what a whiteout hides is not removed. It runs out of fuel only when the
  archive had at least that many entries.\<close>
theorem extract_layer_entries:
  assumes "extract_layer fuel env blob dir h = (r, h')"
  shows "case r of
      Inr u \<Rightarrow> \<exists>paths. h' = h @ [(File (CreateDirAll dir), ROk), (File (OpenFile blob), ROk)] @
        concat (map (entry_calls blob dir) paths) @ [(File (TarNext blob), RBool False)]
    | Inl e \<Rightarrow> e = NoFuel \<longrightarrow> fuel \<le> entries_seen blob h'"
proof (cases r)
  case (Inr u)
  with assms obtain h1 where "extract_entries fuel env blob dir h1 = (Inr u, h')"
    and "h1 = h @ [(File (CreateDirAll dir), ROk), (File (OpenFile blob), ROk)]"
    by (auto simp: extract_layer_def io_seq_ok io_ctx_ok sys_unit_ok)
  with extract_entries_ok [of fuel env blob dir h1 u h'] Inr show ?thesis by auto
next
  case (Inl e)
  have calls: "io_ctx m (sys_unit env c) k \<noteq> (Inl NoFuel, k')" for m c k k'
  proof
    assume "io_ctx m (sys_unit env c) k = (Inl NoFuel, k')"
    moreover obtain a where "sys_unit env c k = (a, k')" "with_ctx m a = Inl NoFuel"
      using calculation by (auto simp: io_ctx_def split: prod.splits)
    ultimately show False using no_fuel_unit [of env c k k'] by (cases "(m, a)" rule: with_ctx.cases) auto
  qed
  have "fuel \<le> entries_seen blob h'" if "e = NoFuel"
    using assms Inl that calls extract_entries_fuel [of fuel env blob dir _ h']
    by (fastforce simp: extract_layer_def io_seq_cases)
  with Inl show ?thesis by simp
qed

section \<open>A world with an image of which one layer is missing\<close>

definition demo_layer :: "string \<Rightarrow> layer_descriptor" where
  "demo_layer digest = \<lparr>de_media_type = ''layer'', de_digest = digest, de_size = 0\<rparr>"

definition demo_index :: image_index where
  "demo_index = \<lparr>ix_schema_version = 2, ix_manifests =
     [\<lparr>md_media_type = ''manifest'', md_digest = ''sha256:m'', md_size = 0, md_platform = None\<rparr>]\<rparr>"

definition demo_image :: image_manifest where
  "demo_image = \<lparr>im_schema_version = 2, im_config = demo_layer ''sha256:c'',
     im_layers = [demo_layer ''sha256:aa'', demo_layer ''sha256:bb'']\<rparr>"

definition has_blob :: "string \<Rightarrow> bool" where
  "has_blob p \<longleftrightarrow> suffix ''/blobs/sha256/aa'' p"

definition image_world :: env where
  "image_world h c = (case c of
       File (PathExists p) \<Rightarrow> RBool (has_blob p)
     | File (ReadToString p) \<Rightarrow> RStr p
     | _ \<Rightarrow> ROk)"

lemma import_registers_witness:
  "\<exists>c' h'. import_directory image_world (\<lambda>_. Inr demo_index) (\<lambda>_. Inr demo_image) ''img'' (cas_new, []) =
     (Inr ''sha256:m'', (c', h')) \<and>
   cas_path c' ''sha256:aa'' = Some ''img/blobs/sha256/aa'' \<and> cas_path c' ''sha256:bb'' = None"
proof -
  have files: "stable_files image_world has_blob" by (simp add: stable_files_def image_world_def)
  have reads: "image_world h (File (ReadToString p)) = RStr p" for h p by (simp add: image_world_def)
  have index: "ix_manifests demo_index =
      [\<lparr>md_media_type = ''manifest'', md_digest = ''sha256:m'', md_size = 0, md_platform = None\<rparr>]"
    by (simp add: demo_index_def)
  obtain c' h' where run: "import_directory image_world (\<lambda>_. Inr demo_index) (\<lambda>_. Inr demo_image) ''img'' (cas_new, []) =
      (Inr ''sha256:m'', (c', h'))"
    and found: "\<And>k. cas_path c' k = (if k \<in> de_digest ` set (im_layers demo_image) \<and> has_blob (blob_path_from_digest ''img'' k)
        then Some (blob_path_from_digest ''img'' k) else cas_path cas_new k)"
    using import_registers [where parse_index = "\<lambda>_. Inr demo_index" and parse_manifest = "\<lambda>_. Inr demo_image"
        and c = cas_new and h = "[]" and dir = "''img''", OF files reads refl index reads refl]
    by auto
  have blobs: "blob_path_from_digest ''img'' ''sha256:aa'' = ''img/blobs/sha256/aa''" "has_blob ''img/blobs/sha256/aa''"
      "\<not> has_blob (blob_path_from_digest ''img'' ''sha256:bb'')"
    by code_simp+
  have "cas_path c' ''sha256:aa'' = Some ''img/blobs/sha256/aa''" "cas_path c' ''sha256:bb'' = None"
    unfolding found using blobs by (simp_all add: demo_image_def demo_layer_def cas.get_new)
  with run show ?thesis by blast
qed

lemma import_tar_dangling_witness:
  "\<exists>c' h'. import_tar image_world (\<lambda>_. Inr demo_index) (\<lambda>_. Inr demo_image) ''u'' ''store'' ''image.tar'' (cas_new, []) =
     (Inr ''sha256:m'', (c', h')) \<and> removes_last ''store/oci-extract-u'' h'"
proof -
  let ?run = "import_tar image_world (\<lambda>_. Inr demo_index) (\<lambda>_. Inr demo_image) ''u'' ''store'' ''image.tar'' (cas_new, [])"
  have r: "fst ?run = Inr ''sha256:m''" by code_simp
  obtain r c' h' where run: "?run = (r, (c', h'))" by (cases ?run) auto
  have "extraction_dir ''store'' ''u'' = ''store/oci-extract-u''" by code_simp
  with import_tar_dangling [OF run] r run show ?thesis by auto
qed

end
