(* ===== verification/Metrics.thy ===== *)
theory Metrics
  imports Sys Registry
begin

text \<open>
  Container metrics, \<open>src/metrics.rs\<close>: reading a control group, the registry of samples and the Prometheus
  text with the answer of its HTTP endpoint. The order in which a \<open>HashMap\<close> is iterated is an argument:
  \<open>pods\<close> lists its entries in that order, the same one for every loop over an unchanged map.

  Lemmas: what each reader makes of its file, that one unreadable value spoils no other, and the text as a
  table of families.
\<close>

section \<open>Collecting\<close>

record container_metrics =
  cm_timestamp :: string
  cm_container_name :: string
  cm_memory_current :: "u64 option"
  cm_memory_max :: "u64 option"
  cm_cpu_usage_usec :: "u64 option"
  cm_pids_current :: "u64 option"

record metrics_collector =
  mc_cgroup_path :: string
  mc_container_name :: string

definition collector_new :: "string \<Rightarrow> string \<Rightarrow> metrics_collector" where
  "collector_new garden_id container_name =
     \<lparr>mc_cgroup_path = path_join (path_join (path_join ''/sys/fs/cgroup'' ''garden'') garden_id) container_name,
      mc_container_name = container_name\<rparr>"

definition read_metric :: "env \<Rightarrow> metrics_collector \<Rightarrow> string \<Rightarrow> (history, string) io" where
  "read_metric env mc file =
     (let path = path_join (mc_cgroup_path mc) file in
      io_ctx (''Failed to read '' @ path) (sys_str env (File (ReadToString path))))"

definition parse_memory_current :: "string \<Rightarrow> u64 result" where
  "parse_memory_current content = with_ctx ''Failed to parse memory.current'' (parse_u64 (trim content))"

definition parse_memory_max :: "string \<Rightarrow> u64 result" where
  "parse_memory_max content =
     (let trimmed = trim content in
      if trimmed = ''max'' then Inr (- 1)
      else with_ctx ''Failed to parse memory.max'' (parse_u64 trimmed))"

definition parse_pids_current :: "string \<Rightarrow> u64 result" where
  "parse_pids_current content = with_ctx ''Failed to parse pids.current'' (parse_u64 (trim content))"

text \<open>\<open>str::lines\<close>: a final line break ends the last line, and a carriage return before it is dropped.\<close>

definition drop_cr :: "string \<Rightarrow> string" where
  "drop_cr l = (if l \<noteq> [] \<and> last l = CHR 0x0D then butlast l else l)"

function str_lines :: "string \<Rightarrow> string list" where
  "str_lines s =
     (if s = [] then []
      else case split_first (CHR 0x0A) s of
        None \<Rightarrow> [s]
      | Some (l, rest) \<Rightarrow> drop_cr l # str_lines rest)"
  by pat_completeness auto
termination
  by (relation "measure length") (auto simp: split_first_Some)

declare str_lines.simps [simp del]

fun cpu_usage_of_lines :: "string list \<Rightarrow> u64 result" where
  "cpu_usage_of_lines [] = bail ''usage_usec not found in cpu.stat''"
| "cpu_usage_of_lines (l # ls) =
     (case strip_prefix ''usage_usec '' l of
        Some usage \<Rightarrow> with_ctx ''Failed to parse cpu usage'' (parse_u64 (trim usage))
      | None \<Rightarrow> cpu_usage_of_lines ls)"

definition parse_cpu_stat :: "string \<Rightarrow> u64 result" where
  "parse_cpu_stat content = cpu_usage_of_lines (str_lines content)"

definition read_memory_current :: "env \<Rightarrow> metrics_collector \<Rightarrow> (history, u64) io" where
  "read_memory_current env mc = io_bind (read_metric env mc ''memory.current'') (\<lambda>s. io_lift (parse_memory_current s))"

definition read_memory_max :: "env \<Rightarrow> metrics_collector \<Rightarrow> (history, u64) io" where
  "read_memory_max env mc = io_bind (read_metric env mc ''memory.max'') (\<lambda>s. io_lift (parse_memory_max s))"

definition read_cpu_usage :: "env \<Rightarrow> metrics_collector \<Rightarrow> (history, u64) io" where
  "read_cpu_usage env mc = io_bind (read_metric env mc ''cpu.stat'') (\<lambda>s. io_lift (parse_cpu_stat s))"

definition read_pids_current :: "env \<Rightarrow> metrics_collector \<Rightarrow> (history, u64) io" where
  "read_pids_current env mc = io_bind (read_metric env mc ''pids.current'') (\<lambda>s. io_lift (parse_pids_current s))"

text \<open>\<open>Result::ok\<close>.\<close>

definition io_ok :: "(history, 'a) io \<Rightarrow> (history, 'a option) io" where
  "io_ok m = io_bind (io_attempt m) (\<lambda>r. io_return (case r of Inl _ \<Rightarrow> None | Inr x \<Rightarrow> Some x))"

definition collect :: "env \<Rightarrow> metrics_collector \<Rightarrow> (history, container_metrics) io" where
  "collect env mc =
     io_bind (now_rfc3339 env) (\<lambda>timestamp.
     io_bind (io_ok (read_memory_current env mc)) (\<lambda>memory_current.
     io_bind (io_ok (read_memory_max env mc)) (\<lambda>memory_max.
     io_bind (io_ok (read_cpu_usage env mc)) (\<lambda>cpu_usage_usec.
     io_bind (io_ok (read_pids_current env mc)) (\<lambda>pids_current.
     io_return \<lparr>cm_timestamp = timestamp, cm_container_name = mc_container_name mc,
       cm_memory_current = memory_current, cm_memory_max = memory_max,
       cm_cpu_usage_usec = cpu_usage_usec, cm_pids_current = pids_current\<rparr>)))))"

record collector_thread =
  cth_collectors :: "metrics_collector list"
  cth_interval :: nat
  cth_run_id :: string
  cth_garden_id :: string

definition collector_thread_new :: "string \<Rightarrow> string \<Rightarrow> string list \<Rightarrow> nat \<Rightarrow> collector_thread" where
  "collector_thread_new run_id garden_id container_names interval_secs =
     \<lparr>cth_collectors = map (collector_new garden_id) container_names, cth_interval = interval_secs,
      cth_run_id = run_id, cth_garden_id = garden_id\<rparr>"

text \<open>One round of the collecting thread, handing each sample to the callback; a collector that fails is only
  logged.\<close>

definition collect_round :: "env \<Rightarrow> (container_metrics \<Rightarrow> (history, unit) io) \<Rightarrow> collector_thread \<Rightarrow> (history, unit) io" where
  "collect_round env callback th =
     io_each (\<lambda>mc. io_bind (io_attempt (collect env mc)) (\<lambda>r.
       case r of Inr metrics \<Rightarrow> callback metrics | Inl _ \<Rightarrow> io_return ())) (cth_collectors th)"

text \<open>The first \<open>n\<close> rounds of the thread, which never ends.\<close>

fun collect_rounds :: "nat \<Rightarrow> env \<Rightarrow> (container_metrics \<Rightarrow> (history, unit) io) \<Rightarrow> collector_thread \<Rightarrow> (history, unit) io" where
  "collect_rounds 0 env callback th = io_return ()"
| "collect_rounds (Suc n) env callback th =
     io_seq (collect_round env callback th)
     (io_bind (sys env (Pod (SleepMs (1000 * cth_interval th)))) (\<lambda>_. collect_rounds n env callback th))"

section \<open>The registry\<close>

record metrics_registry =
  mr_metrics :: "(string, container_metrics list) fmap"

definition mr_new :: metrics_registry where
  "mr_new = \<lparr>mr_metrics = fmempty\<rparr>"

definition update_pod_metrics :: "string \<Rightarrow> container_metrics list \<Rightarrow> metrics_registry \<Rightarrow> metrics_registry" where
  "update_pod_metrics garden_id metrics r = r\<lparr>mr_metrics := fmupd garden_id metrics (mr_metrics r)\<rparr>"

definition mr_get :: "metrics_registry \<Rightarrow> string \<Rightarrow> container_metrics list option" where
  "mr_get r garden_id = fmlookup (mr_metrics r) garden_id"

interpretation mr: lookup_table mr_new mr_get update_pod_metrics
  by unfold_locales (auto simp: mr_new_def mr_get_def update_pod_metrics_def)

lemma latest_samples: "mr_get (fold (\<lambda>(g, ms). update_pod_metrics g ms) us mr_new) g = map_of (rev us) g"
  by (rule mr.get_puts_new)

definition opt_u64_json :: "u64 option \<Rightarrow> json" where
  "opt_u64_json v = (case v of Some w \<Rightarrow> JInt (uint w) | None \<Rightarrow> JNull)"

definition metrics_to_json :: "container_metrics \<Rightarrow> json" where
  "metrics_to_json m = JObj (fmap_of_list
     [(''timestamp'', JStr (cm_timestamp m)), (''container_name'', JStr (cm_container_name m)),
      (''memory_current'', opt_u64_json (cm_memory_current m)), (''memory_max'', opt_u64_json (cm_memory_max m)),
      (''cpu_usage_usec'', opt_u64_json (cm_cpu_usage_usec m)), (''pids_current'', opt_u64_json (cm_pids_current m))])"

text \<open>\<open>GardenEventBuilder::metric\<close>: the event that carries a sample.\<close>

definition metric_event :: "garden_event_builder \<Rightarrow> string \<Rightarrow> container_metrics \<Rightarrow> 'ts \<Rightarrow> 'ts event" where
  "metric_event b container_name m ts = with_data (metrics_to_json m) (build_container b container_name Metric ts)"

section \<open>The Prometheus text\<close>

definition lf :: string where
  "lf = [CHR 0x0A]"

definition dquote :: string where
  "dquote = [CHR 0x22]"

definition sample_line :: "string \<Rightarrow> string \<Rightarrow> container_metrics \<Rightarrow> u64 \<Rightarrow> string" where
  "sample_line metric garden_id c v =
     metric @ ''{garden_id='' @ dquote @ garden_id @ dquote @ '',container='' @ dquote @ cm_container_name c @ dquote @
     ''} '' @ show_nat (unat v) @ lf"

fun container_samples :: "string \<Rightarrow> (container_metrics \<Rightarrow> u64 option) \<Rightarrow> string \<Rightarrow> container_metrics list \<Rightarrow> string" where
  "container_samples metric sel garden_id [] = []"
| "container_samples metric sel garden_id (c # cs) =
     (case sel c of Some v \<Rightarrow> sample_line metric garden_id c v | None \<Rightarrow> []) @ container_samples metric sel garden_id cs"

fun pod_samples :: "string \<Rightarrow> (container_metrics \<Rightarrow> u64 option) \<Rightarrow> (string \<times> container_metrics list) list \<Rightarrow> string" where
  "pod_samples metric sel [] = []"
| "pod_samples metric sel ((garden_id, cs) # pods) =
     container_samples metric sel garden_id cs @ pod_samples metric sel pods"

fun running_lines :: "(string \<times> container_metrics list) list \<Rightarrow> string" where
  "running_lines [] = []"
| "running_lines ((garden_id, _) # pods) =
     ''garden_pod_running{garden_id='' @ dquote @ garden_id @ dquote @ ''} 1'' @ lf @ running_lines pods"

definition export_prometheus :: "(string \<times> container_metrics list) list \<Rightarrow> string" where
  "export_prometheus pods =
     ''# HELP garden_pod_running Whether the pod is running (1=running, 0=stopped)'' @ lf @
     ''# TYPE garden_pod_running gauge'' @ lf @ running_lines pods @ lf @
     ''# HELP garden_container_cpu_usage_usec Container CPU usage in microseconds'' @ lf @
     ''# TYPE garden_container_cpu_usage_usec counter'' @ lf @
     pod_samples ''garden_container_cpu_usage_usec'' cm_cpu_usage_usec pods @ lf @
     ''# HELP garden_container_mem_current_bytes Container current memory usage in bytes'' @ lf @
     ''# TYPE garden_container_mem_current_bytes gauge'' @ lf @
     pod_samples ''garden_container_mem_current_bytes'' cm_memory_current pods @ lf @
     ''# HELP garden_container_mem_max_bytes Container memory limit in bytes'' @ lf @
     ''# TYPE garden_container_mem_max_bytes gauge'' @ lf @
     pod_samples ''garden_container_mem_max_bytes'' cm_memory_max pods @ lf @
     ''# HELP garden_container_pids_current Number of PIDs in container'' @ lf @
     ''# TYPE garden_container_pids_current gauge'' @ lf @
     pod_samples ''garden_container_pids_current'' cm_pids_current pods"

text \<open>The answer to what was read from a connection.\<close>

definition crlf :: string where
  "crlf = [CHR 0x0D, CHR 0x0A]"

definition metrics_response :: "(string \<times> container_metrics list) list \<Rightarrow> string \<Rightarrow> string" where
  "metrics_response pods request =
     (if prefix ''GET /metrics'' request
      then let metrics = export_prometheus pods in
        ''HTTP/1.1 200 OK'' @ crlf @ ''Content-Type: text/plain; version=0.0.4'' @ crlf @
        ''Content-Length: '' @ show_nat (length metrics) @ crlf @ crlf @ metrics
      else ''HTTP/1.1 404 Not Found'' @ crlf @ crlf)"

text \<open>One connection: the reply to \<open>TcpRead\<close> is the text of at most 1024 bytes; failures are passed over.\<close>

definition handle_metrics_request :: "env \<Rightarrow> (string \<times> container_metrics list) list \<Rightarrow> int \<Rightarrow> (history, unit) io" where
  "handle_metrics_request env pods stream =
     io_bind (sys env (Tcp (TcpRead stream))) (\<lambda>r.
     case as_str r of
       Inl _ \<Rightarrow> io_return ()
     | Inr request \<Rightarrow> io_bind (sys env (Tcp (TcpWrite stream (metrics_response pods request)))) (\<lambda>_. io_return ()))"

text \<open>The thread of the server for its next \<open>n\<close> connections; each one gets a thread of its own.\<close>

fun serve_connections :: "nat \<Rightarrow> env \<Rightarrow> (history, unit) io" where
  "serve_connections 0 env = io_return ()"
| "serve_connections (Suc n) env =
     io_bind (sys env (Tcp TcpAccept)) (\<lambda>r.
     io_seq (case as_int r of
         Inl _ \<Rightarrow> io_return ()
       | Inr stream \<Rightarrow> io_bind (sys env (Tcp (SpawnHandler stream))) (\<lambda>_. io_return ()))
       (serve_connections n env))"

text \<open>\<open>expect\<close> panics in that thread; the \<open>Debug\<close> text of the error is left out.\<close>

definition start_metrics_server :: "nat \<Rightarrow> env \<Rightarrow> (history, unit) io" where
  "start_metrics_server n env =
     io_bind (sys env (Tcp (TcpBind ''127.0.0.1:9464''))) (\<lambda>r.
     if r \<noteq> ROk then io_lift (Inl (Panic ''Failed to bind metrics server''))
     else serve_connections n env)"

section \<open>The readers\<close>

definition plain_line :: "string \<Rightarrow> bool" where
  "plain_line l \<longleftrightarrow> CHR 0x0A \<notin> set l \<and> \<not> suffix [CHR 0x0D] l"

definition unlines :: "string list \<Rightarrow> string" where
  "unlines ls = concat (map (\<lambda>l. l @ lf) ls)"

lemma drop_cr_plain [simp]: "plain_line l \<Longrightarrow> drop_cr l = l"
  by (cases l rule: rev_cases) (auto simp: plain_line_def drop_cr_def suffix_def)

lemma str_lines_Cons: "plain_line l \<Longrightarrow> str_lines (l @ lf @ s) = l # str_lines s"
proof -
  assume l: "plain_line l"
  then have "split_first (CHR 0x0A) (l @ lf @ s) = Some (l, s)"
    by (simp add: split_first_Some plain_line_def lf_def)
  with l show ?thesis by (subst str_lines.simps) (simp add: lf_def)
qed

lemma str_lines_unlines: "list_all plain_line ls \<Longrightarrow> str_lines (unlines ls) = ls"
proof (induction ls)
  case Nil
  show ?case by (simp add: unlines_def str_lines.simps)
next
  case (Cons l ls)
  then show ?case by (simp add: unlines_def str_lines_Cons)
qed

lemma cpu_usage_skip:
  "list_all (\<lambda>l. \<not> prefix ''usage_usec '' l) pre \<Longrightarrow> cpu_usage_of_lines (pre @ ls) = cpu_usage_of_lines ls"
  by (induction pre) (auto simp: strip_prefix_def)

text \<open>The value of a parameter, where its file could be read and understood.\<close>

definition reading :: "(string \<Rightarrow> u64 result) \<Rightarrow> reply \<Rightarrow> u64 option" where
  "reading parse r = (case r of RStr s \<Rightarrow> (case parse s of Inr v \<Rightarrow> Some v | Inl _ \<Rightarrow> None) | _ \<Rightarrow> None)"

definition clean :: "'a result \<Rightarrow> bool" where
  "clean r \<longleftrightarrow> (case r of Inl (Err _) \<Rightarrow> True | Inl _ \<Rightarrow> False | Inr _ \<Rightarrow> True)"

lemma clean_bail [simp]: "clean (bail m)" and clean_Inr [simp]: "clean (Inr x)"
  by (simp_all add: clean_def bail_def)

lemma clean_ctx [simp]: "clean r \<Longrightarrow> clean (with_ctx c r)"
  by (cases "(c, r)" rule: with_ctx.cases) (auto simp: clean_def)

lemma clean_digits: "clean (parse_digits m acc s)"
  by (induction m acc s rule: parse_digits.induct) (auto split: option.splits)

lemma clean_u64: "clean (parse_u64 s)"
proof -
  have "clean (parse_uint (2 ^ 64) s)" by (auto simp: parse_uint_def clean_digits)
  then show ?thesis by (cases "parse_uint (2 ^ 64) s") (auto simp: parse_u64_def clean_def)
qed

lemma clean_cpu: "clean (cpu_usage_of_lines ls)"
  by (induction ls) (auto simp: clean_u64 split: option.splits)

lemma clean_readers:
  "clean (parse_memory_current s)" "clean (parse_memory_max s)" "clean (parse_cpu_stat s)" "clean (parse_pids_current s)"
  by (simp_all add: parse_memory_current_def parse_memory_max_def parse_cpu_stat_def parse_pids_current_def
      Let_def clean_u64 clean_cpu)

lemma read_ok:
  assumes "env h (File (ReadToString (path_join (mc_cgroup_path mc) file))) = r" "r \<noteq> RKilled" "\<And>s. clean (parse s)"
  shows "io_ok (io_bind (read_metric env mc file) (\<lambda>s. io_lift (parse s))) h =
     (Inr (reading parse r), h @ [(File (ReadToString (path_join (mc_cgroup_path mc) file)), r)])"
proof (cases "as_str r")
  case (Inl e)
  then have "reading parse r = None" "\<exists>ms. e = Err ms"
    by (cases r; auto simp: reading_def bail_def)+
  with Inl assms show ?thesis
    by (auto simp: io_ok_def read_metric_def sys_str_def sys_def io_simps Let_def)
next
  case (Inr s)
  then have "r = RStr s" by simp
  with assms(1) assms(3) [of s] show ?thesis
    by (auto simp: io_ok_def read_metric_def sys_str_def sys_def io_simps Let_def reading_def clean_def
        split: sum.splits error.splits)
qed

section \<open>Properties\<close>

text \<open>C35: Collecting the metrics of a container that the kernel lets run always yields a sample: the four files are
  read in order, each value is present exactly when its own file could be read and understood, whatever became
  of the others, and an unlimited memory limit is the largest number.\<close>
theorem collect_reads:
  assumes "\<And>h c. env h c \<noteq> RKilled"
  shows "\<exists>m t r1 r2 r3 r4. collect env mc h = (Inr m, h @
      [(UtcNow, t), (File (ReadToString (path_join (mc_cgroup_path mc) ''memory.current'')), r1),
       (File (ReadToString (path_join (mc_cgroup_path mc) ''memory.max'')), r2),
       (File (ReadToString (path_join (mc_cgroup_path mc) ''cpu.stat'')), r3),
       (File (ReadToString (path_join (mc_cgroup_path mc) ''pids.current'')), r4)]) \<and>
    cm_container_name m = mc_container_name mc \<and>
    cm_memory_current m = reading parse_memory_current r1 \<and>
    cm_memory_max m = reading parse_memory_max r2 \<and>
    cm_cpu_usage_usec m = reading parse_cpu_stat r3 \<and>
    cm_pids_current m = reading parse_pids_current r4 \<and>
    reading parse_memory_max (RStr ''max'') = Some (- 1)"
proof -
  let ?c = "\<lambda>file. File (ReadToString (path_join (mc_cgroup_path mc) file))"
  have reads:
    "io_ok (read_memory_current env mc) h = (Inr (reading parse_memory_current (env h (?c ''memory.current''))), h @ [(?c ''memory.current'', env h (?c ''memory.current''))])"
    "io_ok (read_memory_max env mc) h = (Inr (reading parse_memory_max (env h (?c ''memory.max''))), h @ [(?c ''memory.max'', env h (?c ''memory.max''))])"
    "io_ok (read_cpu_usage env mc) h = (Inr (reading parse_cpu_stat (env h (?c ''cpu.stat''))), h @ [(?c ''cpu.stat'', env h (?c ''cpu.stat''))])"
    "io_ok (read_pids_current env mc) h = (Inr (reading parse_pids_current (env h (?c ''pids.current''))), h @ [(?c ''pids.current'', env h (?c ''pids.current''))])" for h
    unfolding read_memory_current_def read_memory_max_def read_cpu_usage_def read_pids_current_def
    by (rule read_ok [OF refl assms clean_readers(1)] read_ok [OF refl assms clean_readers(2)]
        read_ok [OF refl assms clean_readers(3)] read_ok [OF refl assms clean_readers(4)])+
  obtain s where now: "now_rfc3339 env h = (Inr s, h @ [(UtcNow, env h UtcNow)])"
    using assms [of h UtcNow] by (auto simp: now_rfc3339_def sys_def io_simps Let_def)
  have "trim ''max'' = ''max''" by code_simp
  then have "reading parse_memory_max (RStr ''max'') = Some (- 1)" by (simp add: reading_def parse_memory_max_def)
  then show ?thesis
    by (simp add: collect_def io_bind_def now reads io_return_def)
qed

lemma plain_numbered: "CHR 0x0A \<notin> set a \<Longrightarrow> plain_line (a @ show_nat n)"
proof -
  have d: "digit_val (CHR 0x0A) = None" "digit_val (CHR 0x0D) = None"
    by (simp_all add: digit_val_def less_eq_char_def)
  then have "last (show_nat n) \<noteq> CHR 0x0D"
    using show_nat_no [of "CHR 0x0D" n] last_in_set [of "show_nat n"] by (metis show_nat_nonempty)
  then have "\<not> suffix [CHR 0x0D] (a @ show_nat n)"
    by (auto simp: suffix_def dest!: arg_cong [of _ _ last])
  then show "CHR 0x0A \<notin> set a \<Longrightarrow> plain_line (a @ show_nat n)" by (simp add: plain_line_def d)
qed

text \<open>What stands in \<open>cpu.stat\<close>: the first usage line decides, wherever it stands, and without one there is no
  value.\<close>

lemma cpu_stat_usage:
  assumes "list_all plain_line (pre @ post)" "list_all (\<lambda>l. \<not> prefix ''usage_usec '' l) pre" "n < 2 ^ 64"
  shows "parse_cpu_stat (unlines (pre @ (''usage_usec '' @ show_nat n) # post)) = Inr (of_nat n)"
    and "\<not> is_ok (parse_cpu_stat (unlines pre))"
proof -
  have "plain_line (''usage_usec '' @ show_nat n)" by (rule plain_numbered) simp
  with assms show "parse_cpu_stat (unlines (pre @ (''usage_usec '' @ show_nat n) # post)) = Inr (of_nat n)"
    by (simp add: parse_cpu_stat_def str_lines_unlines cpu_usage_skip strip_prefix_append [of "''usage_usec ''", simplified])
  from assms show "\<not> is_ok (parse_cpu_stat (unlines pre))"
    using cpu_usage_skip [OF assms(2), of "[]"] by (simp add: parse_cpu_stat_def str_lines_unlines)
qed

section \<open>The text as a table\<close>

definition families :: "(string \<times> string \<times> string \<times> (container_metrics \<Rightarrow> u64 option)) list" where
  "families =
     [(''garden_container_cpu_usage_usec'', ''Container CPU usage in microseconds'', ''counter'', cm_cpu_usage_usec),
      (''garden_container_mem_current_bytes'', ''Container current memory usage in bytes'', ''gauge'', cm_memory_current),
      (''garden_container_mem_max_bytes'', ''Container memory limit in bytes'', ''gauge'', cm_memory_max),
      (''garden_container_pids_current'', ''Number of PIDs in container'', ''gauge'', cm_pids_current)]"

definition labelled :: "string \<Rightarrow> (string \<times> string) list \<Rightarrow> nat \<Rightarrow> string" where
  "labelled metric labels v =
     metric @ ''{'' @ join '','' (map (\<lambda>(k, l). k @ ''='' @ dquote @ l @ dquote) labels) @ ''} '' @ show_nat v"

definition head_lines :: "string \<Rightarrow> string \<Rightarrow> string \<Rightarrow> string list" where
  "head_lines metric help kind = [''# HELP '' @ metric @ '' '' @ help, ''# TYPE '' @ metric @ '' '' @ kind]"

definition sample_lines :: "string \<Rightarrow> (container_metrics \<Rightarrow> u64 option) \<Rightarrow> (string \<times> container_metrics list) list \<Rightarrow> string list" where
  "sample_lines metric sel pods =
     concat (map (\<lambda>(g, cs). concat (map (\<lambda>c. case sel c of
         Some v \<Rightarrow> [labelled metric [(''garden_id'', g), (''container'', cm_container_name c)] (unat v)]
       | None \<Rightarrow> []) cs)) pods)"

definition prometheus_table :: "(string \<times> container_metrics list) list \<Rightarrow> string list" where
  "prometheus_table pods =
     head_lines ''garden_pod_running'' ''Whether the pod is running (1=running, 0=stopped)'' ''gauge'' @
     map (\<lambda>(g, _). labelled ''garden_pod_running'' [(''garden_id'', g)] 1) pods @
     concat (map (\<lambda>(metric, help, kind, sel). [] # head_lines metric help kind @ sample_lines metric sel pods) families)"

lemma unlines_simps [simp]:
  "unlines [] = []" "unlines (l # ls) = l @ lf @ unlines ls" "unlines (ls @ ms) = unlines ls @ unlines ms"
  by (simp_all add: unlines_def)

lemma container_samples_lines:
  "container_samples metric sel g cs = unlines (sample_lines metric sel [(g, cs)])"
  by (induction cs) (auto simp: sample_lines_def sample_line_def labelled_def split: option.split)

lemma pod_samples_lines: "pod_samples metric sel pods = unlines (sample_lines metric sel pods)"
  by (induction metric sel pods rule: pod_samples.induct)
     (auto simp: container_samples_lines sample_lines_def)

lemma show_one: "show_nat (Suc 0) = ''1''"
  by (simp add: show_nat.simps)

lemma running_lines_lines:
  "running_lines pods = unlines (map (\<lambda>(g, _). labelled ''garden_pod_running'' [(''garden_id'', g)] 1) pods)"
  by (induction pods rule: running_lines.induct) (simp_all add: labelled_def show_one)

lemma export_unlines: "export_prometheus pods = unlines (prometheus_table pods)"
  by (simp add: export_prometheus_def prometheus_table_def families_def head_lines_def pod_samples_lines
      running_lines_lines)

definition one_line_names :: "(string \<times> container_metrics list) list \<Rightarrow> bool" where
  "one_line_names pods \<longleftrightarrow>
     list_all (\<lambda>(g, cs). CHR 0x0A \<notin> set g \<and> list_all (\<lambda>c. CHR 0x0A \<notin> set (cm_container_name c)) cs) pods"

lemma plain_labelled:
  assumes "CHR 0x0A \<notin> set metric" "list_all (\<lambda>(k, l). CHR 0x0A \<notin> set k \<and> CHR 0x0A \<notin> set l) labels"
  shows "plain_line (labelled metric labels v)"
proof -
  have j: "list_all (\<lambda>x. CHR 0x0A \<notin> set x) xs \<Longrightarrow> CHR 0x0A \<notin> set (join '','' xs)" for xs
    by (induction "'',''" xs rule: join.induct) auto
  have "CHR 0x0A \<notin> set (metric @ ''{'' @ join '','' (map (\<lambda>(k, l). k @ ''='' @ dquote @ l @ dquote) labels) @ ''} '')"
    using assms by (auto simp: list_all_iff dquote_def intro!: j)
  from plain_numbered [OF this] show ?thesis by (simp add: labelled_def)
qed

lemma plain_samples:
  "CHR 0x0A \<notin> set metric \<Longrightarrow> one_line_names pods \<Longrightarrow> list_all plain_line (sample_lines metric sel pods)"
  by (induction pods)
     (auto simp: sample_lines_def one_line_names_def list_all_iff split: option.splits intro!: plain_labelled)

text \<open>C36: The exported metrics, read line by line, are the table of the registered samples: for every metric its
  help and type, then one line per container that has a value, labelled with its garden and its name, in the
  order of the registry.\<close>
theorem prometheus_lines:
  assumes "one_line_names pods"
  shows "str_lines (export_prometheus pods) = prometheus_table pods"
  unfolding export_unlines
proof (rule str_lines_unlines)
  have heads: "list_all plain_line (head_lines m h k)" if "plain_line (m @ '' '' @ h)" "plain_line (m @ '' '' @ k)" for m h k
    using that by (auto simp: head_lines_def plain_line_def suffix_Cons)
  have "list_all plain_line (map (\<lambda>(g, _). labelled ''garden_pod_running'' [(''garden_id'', g)] 1) pods)"
    using assms by (auto simp: one_line_names_def list_all_iff intro!: plain_labelled)
  moreover have "list_all plain_line (head_lines ''garden_pod_running'' ''Whether the pod is running (1=running, 0=stopped)'' ''gauge'')"
    by (rule heads; code_simp)
  moreover have "list_all (\<lambda>(m, h, k, sel). list_all plain_line ([] # head_lines m h k @ sample_lines m sel pods)) families"
    unfolding families_def list.pred_inject prod.case list_all_append
    by (intro conjI TrueI heads plain_samples assms; code_simp)
  ultimately show "list_all plain_line (prometheus_table pods)"
    by (auto simp: prometheus_table_def list_all_iff)
qed

section \<open>A world with a control group\<close>

definition metrics_world :: env where
  "metrics_world h c = (case c of
       File (ReadToString path) \<Rightarrow>
         if suffix ''cpu.stat'' path then RStr (unlines [''user_usec 7'', ''usage_usec 42''])
         else if suffix ''memory.max'' path then RStr (''max'' @ lf)
         else if suffix ''pids.current'' path then RStr (''5'' @ lf)
         else RErr ''No such file or directory (os error 2)''
     | _ \<Rightarrow> RStr ''2025-10-28T12:00:00+00:00'')"

definition demo_metrics :: container_metrics where
  "demo_metrics = \<lparr>cm_timestamp = ''2025-10-28T12:00:00+00:00'', cm_container_name = ''web'',
     cm_memory_current = None, cm_memory_max = Some (- 1), cm_cpu_usage_usec = Some 42, cm_pids_current = Some 5\<rparr>"

lemma demo_cpu: "reading parse_cpu_stat (RStr (unlines [''user_usec 7'', ''usage_usec 42''])) = Some 42"
  using cpu_stat_usage(1) [of "[''user_usec 7'']" "[]" 42]
  by (simp add: reading_def plain_line_def suffix_Cons show_nat.simps)

lemma collect_reads_witness:
  "(\<exists>m h. collect metrics_world (collector_new ''g'' ''web'') [] = (Inr m, h) \<and> cm_container_name m = ''web'' \<and>
      length h = 5) \<and>
   reading parse_cpu_stat (metrics_world [] (File (ReadToString ''/sys/fs/cgroup/garden/g/web/cpu.stat''))) = Some 42"
proof
  have "metrics_world h c \<noteq> RKilled" for h c
    by (simp add: metrics_world_def split: call.split file_call.split)
  from collect_reads [of metrics_world "collector_new ''g'' ''web''" "[]", OF this]
  show "\<exists>m h. collect metrics_world (collector_new ''g'' ''web'') [] = (Inr m, h) \<and> cm_container_name m = ''web'' \<and>
      length h = 5"
    by (auto simp: collector_new_def)
  have "suffix ''cpu.stat'' ''/sys/fs/cgroup/garden/g/web/cpu.stat''" by code_simp
  then show "reading parse_cpu_stat (metrics_world [] (File (ReadToString ''/sys/fs/cgroup/garden/g/web/cpu.stat''))) = Some 42"
    by (simp add: metrics_world_def demo_cpu del: unlines_simps)
qed

lemma prometheus_lines_witness:
  "str_lines (export_prometheus [(''g'', [demo_metrics])]) = prometheus_table [(''g'', [demo_metrics])] \<and>
   length (prometheus_table [(''g'', [demo_metrics])]) = 18"
proof
  have "one_line_names [(''g'', [demo_metrics])]" by code_simp
  then show "str_lines (export_prometheus [(''g'', [demo_metrics])]) = prometheus_table [(''g'', [demo_metrics])]"
    by (rule prometheus_lines)
  show "length (prometheus_table [(''g'', [demo_metrics])]) = 18"
    by (simp add: prometheus_table_def families_def head_lines_def sample_lines_def demo_metrics_def)
qed

end
