(* ===== verification/Keystore.thy ===== *)
theory Keystore
  imports Rust_Str Registry
begin

text \<open>
  Secrets: the keystore of \<open>src/secrets/keystore.rs\<close> and the references of \<open>src/secrets/mod.rs\<close>. The
  global keystore lives in the memory of one process; it is the state argument of every operation.
  A value is a list of bytes.

  Lemmas: the table behind it as an interpretation of \<open>registry\<close>; what a load finds after any sequence of
  creations and deletions, for names without an at sign; names with one share their key with others.
\<close>

record secret_item =
  si_key :: string
  si_value :: string

record secret_data =
  sk_name :: string
  sk_version :: string
  sk_items :: "secret_item list"

record keystore =
  ks_secrets :: "(string, secret_data) fmap"

definition ks_new :: keystore where
  "ks_new = \<lparr>ks_secrets = fmempty\<rparr>"

definition secret_key :: "string \<Rightarrow> string \<Rightarrow> string" where
  "secret_key name version = name @ ''@'' @ version"

definition ks_get :: "keystore \<Rightarrow> string \<Rightarrow> secret_data option" where
  "ks_get ks key = fmlookup (ks_secrets ks) key"

definition ks_insert :: "string \<Rightarrow> secret_data \<Rightarrow> keystore \<Rightarrow> keystore" where
  "ks_insert key secret ks = ks\<lparr>ks_secrets := fmupd key secret (ks_secrets ks)\<rparr>"

definition ks_remove :: "string \<Rightarrow> keystore \<Rightarrow> keystore" where
  "ks_remove key ks = ks\<lparr>ks_secrets := fmdrop key (ks_secrets ks)\<rparr>"

definition store_secret :: "secret_data \<Rightarrow> (keystore, unit) io" where
  "store_secret secret ks = (Inr (), ks_insert (secret_key (sk_name secret) (sk_version secret)) secret ks)"

definition load_secret :: "keystore \<Rightarrow> string \<Rightarrow> string \<Rightarrow> secret_data result" where
  "load_secret ks name version =
     (let key = secret_key name version in
      case ks_get ks key of Some s \<Rightarrow> Inr s | None \<Rightarrow> bail (''Secret not found: '' @ key))"

definition delete_secret :: "string \<Rightarrow> string \<Rightarrow> (keystore, unit) io" where
  "delete_secret name version ks =
     (let key = secret_key name version in
      if ks_get ks key \<noteq> None then (Inr (), ks_remove key ks)
      else (bail (''Secret not found: '' @ key), ks))"

text \<open>The keys are listed in the order of the hash table.\<close>

definition list_secrets :: "string list \<Rightarrow> (string \<times> string) list" where
  "list_secrets order =
     concat (map (\<lambda>k. let parts = split_on (CHR ''@'') k in
                      if length parts = 2 then [(parts ! 0, parts ! 1)] else []) order)"

definition create_secret_from_literal ::
    "string \<Rightarrow> string \<Rightarrow> (string \<times> string) list \<Rightarrow> (keystore, unit) io" where
  "create_secret_from_literal name version items =
     store_secret \<lparr>sk_name = name, sk_version = version,
       sk_items = map (\<lambda>(key, v). \<lparr>si_key = key, si_value = v\<rparr>) items\<rparr>"

definition parse_secret_ref :: "string \<Rightarrow> (string \<times> string) result" where
  "parse_secret_ref secret_ref =
     (let parts = split_on (CHR ''@'') secret_ref in
      if length parts \<noteq> 2
      then bail (''Invalid secret reference format: '' @ secret_ref @ ''. Expected '' @ squote ''name@version'')
      else Inr (parts ! 0, parts ! 1))"

section \<open>The contract\<close>

interpretation kr: registry ks_new ks_get ks_insert ks_remove
  by unfold_locales (auto simp: ks_new_def ks_get_def ks_insert_def ks_remove_def)

lemma split_two: "split_on c s = [a, b] \<longleftrightarrow> s = a @ c # b \<and> c \<notin> set a \<and> c \<notin> set b"
proof
  assume l: "split_on c s = [a, b]"
  then show "s = a @ c # b \<and> c \<notin> set a \<and> c \<notin> set b"
    using split_on_join [of c s] split_on_parts [of _ c s] by auto
qed (simp add: split_on_append split_on_absent)

lemma parse_ref_iff:
  "parse_secret_ref s = Inr (n, v) \<longleftrightarrow> s = secret_key n v \<and> CHR ''@'' \<notin> set n \<and> CHR ''@'' \<notin> set v"
proof -
  have "parse_secret_ref s = Inr (n, v) \<longleftrightarrow> split_on (CHR ''@'') s = [n, v]"
    by (auto simp: parse_secret_ref_def Let_def bail_def numeral_2_eq_2 length_Suc_conv)
  then show ?thesis by (simp add: split_two secret_key_def)
qed

lemma secret_key_inj:
  assumes "CHR ''@'' \<notin> set n" "CHR ''@'' \<notin> set n'"
  shows "secret_key n v = secret_key n' v' \<longleftrightarrow> n = n' \<and> v = v'"
proof
  assume e: "secret_key n v = secret_key n' v'"
  have key: "split_first (CHR ''@'') (secret_key a b) = Some (a, b)" if "CHR ''@'' \<notin> set a" for a b
    unfolding split_first_Some using that by (simp add: secret_key_def)
  from key [OF assms(1), of v] have "split_first (CHR ''@'') (secret_key n' v') = Some (n, v)" unfolding e .
  with key [OF assms(2), of v'] show "n = n' \<and> v = v'" by simp
qed simp

text \<open>The two calls that change the store, and those of them that concern a name and version.\<close>

datatype secret_op =
    CreateSecret string string "(string \<times> string) list"
  | DeleteSecret string string

fun secret_step :: "secret_op \<Rightarrow> keystore \<Rightarrow> keystore" where
  "secret_step (CreateSecret n v items) ks = snd (create_secret_from_literal n v items ks)"
| "secret_step (DeleteSecret n v) ks = snd (delete_secret n v ks)"

fun op_target :: "secret_op \<Rightarrow> string \<times> string" where
  "op_target (CreateSecret n v items) = (n, v)"
| "op_target (DeleteSecret n v) = (n, v)"

definition literal_secret :: "string \<Rightarrow> string \<Rightarrow> (string \<times> string) list \<Rightarrow> secret_data" where
  "literal_secret n v items =
     \<lparr>sk_name = n, sk_version = v, sk_items = map (\<lambda>(k, x). \<lparr>si_key = k, si_value = x\<rparr>) items\<rparr>"

lemma load_create:
  assumes "CHR ''@'' \<notin> set n" "CHR ''@'' \<notin> set n'"
  shows "load_secret (snd (create_secret_from_literal n' v' items ks)) n v =
     (if n' = n \<and> v' = v then Inr (literal_secret n v items) else load_secret ks n v)"
  using secret_key_inj [OF assms]
  by (simp add: create_secret_from_literal_def store_secret_def literal_secret_def load_secret_def kr.get_put Let_def)

lemma load_delete:
  assumes "CHR ''@'' \<notin> set n" "CHR ''@'' \<notin> set n'"
  shows "load_secret (snd (delete_secret n' v' ks)) n v =
     (if n' = n \<and> v' = v then bail (''Secret not found: '' @ secret_key n v) else load_secret ks n v)"
  using secret_key_inj [OF assms]
  by (simp add: delete_secret_def load_secret_def kr.get_del Let_def)

text \<open>C38: After any sequence of creations and deletions of secrets whose names have no at sign, loading a name and
  version gives what the last call that concerns exactly this name and version left: the secret it created, with
  its items in order, an error if it deleted it, and what was there before if no call concerns it. Calls for
  other names and versions never interfere. A reference put together from a name and a version is parsed back into
  them exactly when the version has no at sign either.\<close>
theorem secret_store_roundtrip:
  assumes "CHR ''@'' \<notin> set n" "list_all (\<lambda>op. CHR ''@'' \<notin> set (fst (op_target op))) ops"
  shows "load_secret (fold secret_step ops ks) n v =
      (case find (\<lambda>op. op_target op = (n, v)) (rev ops) of
         None \<Rightarrow> load_secret ks n v
       | Some (CreateSecret n' v' items) \<Rightarrow>
           Inr \<lparr>sk_name = n, sk_version = v, sk_items = map (\<lambda>(k, x). \<lparr>si_key = k, si_value = x\<rparr>) items\<rparr>
       | Some (DeleteSecret n' v') \<Rightarrow> bail (''Secret not found: '' @ secret_key n v)) \<and>
    (parse_secret_ref (secret_key n v) = Inr (n, v) \<longleftrightarrow> CHR ''@'' \<notin> set v)"
proof
  show "load_secret (fold secret_step ops ks) n v =
      (case find (\<lambda>op. op_target op = (n, v)) (rev ops) of
         None \<Rightarrow> load_secret ks n v
       | Some (CreateSecret n' v' items) \<Rightarrow>
           Inr \<lparr>sk_name = n, sk_version = v, sk_items = map (\<lambda>(k, x). \<lparr>si_key = k, si_value = x\<rparr>) items\<rparr>
       | Some (DeleteSecret n' v') \<Rightarrow> bail (''Secret not found: '' @ secret_key n v))"
    using assms(2)
  proof (induction ops rule: rev_induct)
    case (snoc op ops)
    then show ?case
      using load_create [OF assms(1)] load_delete [OF assms(1)] by (cases op) (auto simp: literal_secret_def)
  qed simp
  show "parse_secret_ref (secret_key n v) = Inr (n, v) \<longleftrightarrow> CHR ''@'' \<notin> set v" using parse_ref_iff assms(1) by auto
qed

theorem secret_store_roundtrip_witness:
  "load_secret (fold secret_step
     [CreateSecret ''token'' ''1'' [(''k'', ''x'')], CreateSecret ''token'' ''2'' [], DeleteSecret ''token'' ''2''] ks_new) ''token'' ''1'' =
     Inr \<lparr>sk_name = ''token'', sk_version = ''1'', sk_items = [\<lparr>si_key = ''k'', si_value = ''x''\<rparr>]\<rparr> \<and>
   parse_secret_ref ''token@1'' = Inr (''token'', ''1'')"
  using secret_store_roundtrip [of "''token''"
      "[CreateSecret ''token'' ''1'' [(''k'', ''x'')], CreateSecret ''token'' ''2'' [], DeleteSecret ''token'' ''2'']" ks_new "''1''"]
  by (simp add: secret_key_def)

text \<open>Names with an at sign: two different secrets share one key, so storing one replaces the other.\<close>

lemma secret_key_collision: "secret_key (a @ ''@'' @ b) c = secret_key a (b @ ''@'' @ c)"
  by (simp add: secret_key_def)

lemma secret_collision:
  "load_secret (snd (create_secret_from_literal (a @ ''@'' @ b) c items ks)) a (b @ ''@'' @ c) =
     Inr \<lparr>sk_name = a @ ''@'' @ b, sk_version = c, sk_items = map (\<lambda>(k, x). \<lparr>si_key = k, si_value = x\<rparr>) items\<rparr>"
  by (simp add: create_secret_from_literal_def store_secret_def load_secret_def kr.get_put Let_def secret_key_def)

end
