(* ===== verification/Volumes.thy ===== *)
theory Volumes
  imports Sys Seed_Manifest Network Keystore Ordering
begin

text \<open>
  Volumes and secret files: \<open>src/volumes/*.rs\<close> and the files of \<open>src/secrets/mod.rs\<close>. Modes of files are
  written in decimal: 448 is 0700, 292 is 0444, 256 is 0400. A secret's value is a list of bytes. The
  process-wide key store is an argument.

  Lemmas: in which order a secret reaches the file system, and what detaching a volume removes.
\<close>

section \<open>Named volumes\<close>

definition named_volumes_base :: string where
  "named_volumes_base = ''/var/lib/gl/volumes''"

definition get_named_volume_path_in :: "string \<Rightarrow> string \<Rightarrow> string" where
  "get_named_volume_path_in base name = path_join base name"

definition ensure_named_volume_in :: "env \<Rightarrow> string \<Rightarrow> string \<Rightarrow> string option \<Rightarrow> (history, string) io" where
  "ensure_named_volume_in env base name size_limit =
     (let path = get_named_volume_path_in base name in
      io_bind (sys_exists env path) (\<lambda>present.
      if present then io_return path
      else
        io_seq (io_ctx (''Failed to create named volume: '' @ path) (sys_unit env (File (CreateDirAll path))))
        (io_seq (case size_limit of
             Some limit \<Rightarrow> io_bind (io_lift (parse_memory_string limit)) (\<lambda>_. io_return ())
           | None \<Rightarrow> io_return ())
         (io_return path))))"

definition ensure_named_volume :: "env \<Rightarrow> string \<Rightarrow> string option \<Rightarrow> (history, string) io" where
  "ensure_named_volume env name size_limit = ensure_named_volume_in env named_volumes_base name size_limit"

definition delete_named_volume_in :: "env \<Rightarrow> string \<Rightarrow> string \<Rightarrow> (history, unit) io" where
  "delete_named_volume_in env base name =
     (let path = get_named_volume_path_in base name in
      io_bind (sys_exists env path) (\<lambda>present.
      io_when present
        (io_ctx (''Failed to delete named volume: '' @ path) (sys_unit env (File (RemoveDirAll path))))))"

definition delete_named_volume :: "env \<Rightarrow> string \<Rightarrow> (history, unit) io" where
  "delete_named_volume env name = delete_named_volume_in env named_volumes_base name"

text \<open>The loop over the entries of the directory: the first error ends it.\<close>

fun dir_names :: "dir_entry list \<Rightarrow> string list result" where
  "dir_names [] = Inr []"
| "dir_names (DirEntry name True # es) = res_bind (dir_names es) (\<lambda>ns. Inr (name # ns))"
| "dir_names (DirEntry name False # es) = dir_names es"
| "dir_names (EntryErr err # es) = bail err"
| "dir_names (EntryTypeErr err # es) = bail err"

fun as_dir :: "reply \<Rightarrow> dir_entry list result" where
  "as_dir (RDir es) = Inr es"
| "as_dir r = bail (os_error r)"

definition list_named_volumes_in :: "env \<Rightarrow> string \<Rightarrow> (history, string list) io" where
  "list_named_volumes_in env base =
     io_bind (sys_exists env base) (\<lambda>present.
     if \<not> present then io_return []
     else
       io_bind (sys env (File (ReadDir base))) (\<lambda>r.
       io_lift (res_bind (as_dir r) dir_names)))"

definition list_named_volumes :: "env \<Rightarrow> (history, string list) io" where
  "list_named_volumes env = list_named_volumes_in env named_volumes_base"

section \<open>Empty directories\<close>

definition emptydir_base :: string where
  "emptydir_base = ''/var/lib/gl/state''"

definition get_emptydir_path :: "string \<Rightarrow> string \<Rightarrow> string \<Rightarrow> string" where
  "get_emptydir_path volume_name garden_id container_name =
     path_join (path_join (path_join emptydir_base garden_id) container_name) (''vol_'' @ volume_name)"

definition tmpfs_args :: "string \<Rightarrow> string \<Rightarrow> string list" where
  "tmpfs_args size_opt path = [''-t'', ''tmpfs'', ''-o'', size_opt, ''tmpfs'', path]"

definition tmpfs_size :: "string option \<Rightarrow> string result" where
  "tmpfs_size size_limit =
     (case size_limit of
        Some limit \<Rightarrow> res_bind (parse_memory_string limit) (\<lambda>bytes. Inr (''size='' @ show_nat (unat bytes)))
      | None \<Rightarrow> Inr ''size=256M'')"

definition volume_mount_tmpfs :: "env \<Rightarrow> string \<Rightarrow> string option \<Rightarrow> (history, unit) io" where
  "volume_mount_tmpfs env path size_limit =
     io_bind (io_lift (tmpfs_size size_limit)) (\<lambda>size_opt.
     io_bind (io_ctx ''Failed to mount tmpfs'' (sys_output env ''mount'' (tmpfs_args size_opt path))) (\<lambda>(success, stderr).
     if success then io_return () else io_bail (''tmpfs mount failed: '' @ stderr)))"

definition create_emptydir :: "env \<Rightarrow> string \<Rightarrow> string \<Rightarrow> string \<Rightarrow> empty_dir_volume \<Rightarrow> (history, string) io" where
  "create_emptydir env volume_name garden_id container_name config =
     (let path = get_emptydir_path volume_name garden_id container_name in
      io_seq (io_ctx (''Failed to create emptyDir: '' @ path) (sys_unit env (File (CreateDirAll path))))
      (io_seq (io_when (ed_medium config = ''tmpfs'') (volume_mount_tmpfs env path (ed_size_limit config)))
        (io_return path)))"

definition create_tmpfs_for_config :: "env \<Rightarrow> string \<Rightarrow> string \<Rightarrow> string \<Rightarrow> (history, string) io" where
  "create_tmpfs_for_config env volume_name garden_id container_name =
     (let path = get_emptydir_path volume_name garden_id container_name in
      io_seq (sys_unit env (File (CreateDirAll path)))
      (io_seq (volume_mount_tmpfs env path (Some ''64Mi''))
        (io_return path)))"

definition create_tmpfs_for_secret :: "env \<Rightarrow> string \<Rightarrow> string \<Rightarrow> string \<Rightarrow> (history, string) io" where
  "create_tmpfs_for_secret env volume_name garden_id container_name =
     (let path = get_emptydir_path volume_name garden_id container_name in
      io_seq (sys_unit env (File (CreateDirAll path)))
      (io_seq (volume_mount_tmpfs env path (Some ''16Mi''))
      (io_seq (sys_unit env (File (SetPermissions path 448)))
        (io_return path))))"

definition unmount_if_mounted :: "env \<Rightarrow> string \<Rightarrow> (history, unit) io" where
  "unmount_if_mounted env path =
     io_bind (io_attempt (sys_output env ''mountpoint'' [''-q'', path])) (\<lambda>check.
     case check of
       Inr (True, _) \<Rightarrow>
         io_bind (io_ctx ''Failed to unmount'' (sys_output env ''umount'' [path])) (\<lambda>(success, stderr).
         if success then io_return () else io_bail (''Unmount failed: '' @ stderr))
     | _ \<Rightarrow> io_return ())"

definition cleanup_emptydir :: "env \<Rightarrow> string \<Rightarrow> string \<Rightarrow> string \<Rightarrow> (history, unit) io" where
  "cleanup_emptydir env volume_name garden_id container_name =
     (let path = get_emptydir_path volume_name garden_id container_name in
      io_bind (sys_exists env path) (\<lambda>present.
      if \<not> present then io_return ()
      else
        io_bind (io_attempt (unmount_if_mounted env path)) (\<lambda>_.
        io_ctx (''Failed to remove emptyDir: '' @ path) (sys_unit env (File (RemoveDirAll path))))))"

section \<open>Host paths\<close>

definition validate_hostpath :: "env \<Rightarrow> string \<Rightarrow> (history, unit) io" where
  "validate_hostpath env path =
     io_bind (sys_exists env path) (\<lambda>present.
     if \<not> present then io_bail (''hostPath does not exist: '' @ path)
     else io_ctx (''Cannot access hostPath: '' @ path) (sys_unit env (File (Metadata path))))"

section \<open>Secrets\<close>

definition create_parent :: "env \<Rightarrow> string \<Rightarrow> (history, unit) io" where
  "create_parent env file_path =
     (case path_parent file_path of
        Some parent \<Rightarrow> sys_unit env (File (CreateDirAll parent))
      | None \<Rightarrow> io_return ())"

definition materialize_item :: "env \<Rightarrow> string \<Rightarrow> secret_item \<Rightarrow> (history, unit) io" where
  "materialize_item env tmpfs_path item =
     (let file_path = path_join tmpfs_path (si_key item) in
      io_seq (create_parent env file_path)
      (io_seq (io_ctx (''Failed to write secret file: '' @ file_path)
         (sys_unit env (File (WriteFile file_path (si_value item)))))
        (io_ctx (''Failed to set permissions on '' @ file_path)
          (sys_unit env (File (SetPermissions file_path 256))))))"

definition materialize_secret :: "env \<Rightarrow> keystore \<Rightarrow> secret_volume \<Rightarrow> string \<Rightarrow> string \<Rightarrow> (history, string) io" where
  "materialize_secret env ks secret_ref garden_id container_name =
     io_bind (io_lift (parse_secret_ref (sec_ref secret_ref))) (\<lambda>(name, version).
     io_bind (create_tmpfs_for_secret env (''secret-'' @ name) garden_id container_name) (\<lambda>tmpfs_path.
     io_bind (io_lift (load_secret ks name version)) (\<lambda>secret_data.
     io_seq (io_each (materialize_item env tmpfs_path) (sk_items secret_data))
       (io_return tmpfs_path))))"

definition cleanup_secret :: "env \<Rightarrow> secret_volume \<Rightarrow> string \<Rightarrow> string \<Rightarrow> (history, unit) io" where
  "cleanup_secret env secret_ref garden_id container_name =
     io_bind (io_lift (parse_secret_ref (sec_ref secret_ref))) (\<lambda>(name, _).
       cleanup_emptydir env (''secret-'' @ name) garden_id container_name)"

section \<open>Volumes of a container\<close>

definition config_item_file :: "env \<Rightarrow> string \<Rightarrow> config_item \<Rightarrow> (history, unit) io" where
  "config_item_file env tmpfs_path item =
     (let file_path = path_join tmpfs_path (ci_path item) in
      io_seq (create_parent env file_path)
      (io_seq (io_ctx (''Failed to write config file: '' @ file_path)
         (sys_unit env (File (WriteFile file_path (ci_content item)))))
        (sys_unit env (File (SetPermissions file_path 292)))))"

definition attach_volume :: "env \<Rightarrow> keystore \<Rightarrow> volume_spec \<Rightarrow> string \<Rightarrow> string \<Rightarrow> (history, string) io" where
  "attach_volume env ks spec garden_id container_name =
     (case vs_type spec of
        EmptyDir empty_dir \<Rightarrow> create_emptydir env (vs_name spec) garden_id container_name empty_dir
      | HostPath host_path \<Rightarrow> io_seq (validate_hostpath env (hp_path host_path)) (io_return (hp_path host_path))
      | NamedVolume named \<Rightarrow> ensure_named_volume env (nv_name named) (nv_size_limit named)
      | Config items \<Rightarrow>
          io_bind (create_tmpfs_for_config env (vs_name spec) garden_id container_name) (\<lambda>tmpfs_path.
          io_seq (io_each (config_item_file env tmpfs_path) items)
            (io_return tmpfs_path))
      | Secret secret \<Rightarrow> materialize_secret env ks secret garden_id container_name)"

definition detach_volume :: "env \<Rightarrow> volume_spec \<Rightarrow> string \<Rightarrow> string \<Rightarrow> (history, unit) io" where
  "detach_volume env spec garden_id container_name =
     (case vs_type spec of
        EmptyDir _ \<Rightarrow> cleanup_emptydir env (vs_name spec) garden_id container_name
      | Config _ \<Rightarrow> cleanup_emptydir env (vs_name spec) garden_id container_name
      | Secret secret \<Rightarrow> cleanup_secret env secret garden_id container_name
      | HostPath _ \<Rightarrow> io_return ()
      | NamedVolume _ \<Rightarrow> io_return ())"

definition mount_volume_in_container :: "env \<Rightarrow> string \<Rightarrow> string \<Rightarrow> bool \<Rightarrow> (history, unit) io" where
  "mount_volume_in_container env src mount_point read_only =
     io_bind (sys_exists env mount_point) (\<lambda>present.
     io_seq (io_when (\<not> present)
       (io_ctx (''Failed to create mount point: '' @ mount_point) (sys_unit env (File (CreateDirAll mount_point)))))
     (io_bind (io_ctx ''Failed to execute mount command''
        (sys_output env ''mount''
          ([''--bind''] @ (if read_only then [''--read-only''] else []) @ [src, mount_point]))) (\<lambda>(success, stderr).
     if success then io_return () else io_bail (''Mount failed: '' @ stderr))))"

section \<open>A secret on its way to the file system\<close>

lemma emits_lift_then [emits_intros]: "(\<And>x. r = Inr x \<Longrightarrow> emits P (f x)) \<Longrightarrow> emits P (io_bind (io_lift r) f)"
  by (cases r) (auto simp: emits_def io_bind_def io_lift_def)

lemma emits_each_mem: "(\<And>x. x \<in> set xs \<Longrightarrow> emits P (f x)) \<Longrightarrow> emits P (io_each f xs)"
proof (induction xs)
  case (Cons x xs)
  then show ?case by (auto intro!: emits_seq)
qed (simp add: emits_return)

lemma emits_create_parent [emits_intros]: "(\<And>d r. P (File (CreateDirAll d), r)) \<Longrightarrow> emits P (create_parent env f)"
  unfolding create_parent_def by (intro emits_intros)

lemma emits_volume_tmpfs [emits_intros]: "(\<And>c a r. P (Pod (RunCommand c a), r)) \<Longrightarrow> emits P (volume_mount_tmpfs env path s)"
  unfolding volume_mount_tmpfs_def by (intro emits_intros) (auto intro!: emits_intros split: prod.splits)

lemma emits_tmpfs_secret [emits_intros]:
  "(\<And>d r. P (File (CreateDirAll d), r)) \<Longrightarrow> (\<And>c a r. P (Pod (RunCommand c a), r)) \<Longrightarrow>
     (\<And>d m r. P (File (SetPermissions d m), r)) \<Longrightarrow> emits P (create_tmpfs_for_secret env v g c)"
  "(\<And>d r. P (File (CreateDirAll d), r)) \<Longrightarrow> (\<And>c a r. P (Pod (RunCommand c a), r)) \<Longrightarrow>
     emits P (create_tmpfs_for_config env v g c)"
  unfolding create_tmpfs_for_secret_def create_tmpfs_for_config_def Let_def by (intro emits_intros; simp)+

text \<open>The tmpfs of a secret is mounted, and only its owner may enter it.\<close>

definition tmpfs_mounted :: "string \<Rightarrow> call \<times> reply \<Rightarrow> bool" where
  "tmpfs_mounted path e \<longleftrightarrow>
     (\<exists>size err. e = (Pod (RunCommand ''mount'' (tmpfs_args size path)), ROutput True err))"

definition secret_dir :: "string \<Rightarrow> string \<Rightarrow> string \<Rightarrow> string" where
  "secret_dir name garden_id container_name = get_emptydir_path (''secret-'' @ name) garden_id container_name"

definition secret_dir_ready :: "string \<Rightarrow> (call \<times> reply \<Rightarrow> bool) list" where
  "secret_dir_ready path = [tmpfs_mounted path, \<lambda>e. e = (File (SetPermissions path 448), ROk)]"

definition item_steps :: "string \<Rightarrow> secret_item \<Rightarrow> (call \<times> reply \<Rightarrow> bool) list" where
  "item_steps dir item =
     [\<lambda>e. e = (File (WriteFile (path_join dir (si_key item)) (si_value item)), ROk),
      \<lambda>e. e = (File (SetPermissions (path_join dir (si_key item)) 256), ROk)]"

lemma must_volume_tmpfs: "must [tmpfs_mounted path] (volume_mount_tmpfs env path s)"
  by (auto simp: must_def tmpfs_mounted_def volume_mount_tmpfs_def io_bind_ok sys_output_ok split: if_splits)

lemma must_tmpfs_secret:
  "must (secret_dir_ready (get_emptydir_path v g c)) (create_tmpfs_for_secret env v g c)"
proof -
  let ?p = "get_emptydir_path v g c"
  have "must [] (io_return ?p)" "must [] (sys_unit env (File (CreateDirAll ?p)))"
    by (rule must_emits [of "\<lambda>_. True"], intro emits_intros, simp?)+
  from must_seq [OF this(2) must_seq [OF must_volume_tmpfs [of ?p env "Some ''16Mi''"] must_seq [OF must_sys_unit this(1)]]]
  show ?thesis by (simp add: create_tmpfs_for_secret_def secret_dir_ready_def Let_def)
qed

lemma tmpfs_secret_path: "create_tmpfs_for_secret env v g c h = (Inr p, h') \<Longrightarrow> p = get_emptydir_path v g c"
  by (auto simp: create_tmpfs_for_secret_def Let_def io_seq_ok)

lemma bind_value:
  assumes "\<And>k p k'. m k = (Inr p, k') \<Longrightarrow> p = c"
  shows "io_bind m f = io_bind m (\<lambda>_. f c)"
proof
  fix k
  obtain r k' where "m k = (r, k')" by (metis surj_pair)
  with assms [of k _ k'] show "io_bind m f k = io_bind m (\<lambda>_. f c) k" by (cases r) (auto simp: io_bind_def)
qed

lemma must_item: "must (item_steps dir item) (materialize_item env dir item)"
proof -
  have "must [] (create_parent env f)" for f
    by (rule must_emits [of "\<lambda>_. True"]) (intro emits_intros; simp)
  from must_seq [OF this must_seq [OF must_ctx [OF must_sys_unit] must_ctx [OF must_sys_unit]]]
  show ?thesis by (simp add: materialize_item_def item_steps_def Let_def)
qed

definition is_file_write :: "call \<times> reply \<Rightarrow> bool" where
  "is_file_write e \<longleftrightarrow> (\<exists>f x. fst e = File (WriteFile f x))"

text \<open>A path in a directory, and not leading out of it again; a key that is relative and never goes to a parent.\<close>

definition no_parent :: "string \<Rightarrow> bool" where
  "no_parent p \<longleftrightarrow> ''..'' \<notin> set (split_on (CHR ''/'') p)"

definition inside :: "string \<Rightarrow> string \<Rightarrow> bool" where
  "inside dir f \<longleftrightarrow> (case strip_prefix (path_join dir []) f of Some rest \<Rightarrow> no_parent rest | None \<Rightarrow> False)"

definition confined_key :: "string \<Rightarrow> bool" where
  "confined_key key \<longleftrightarrow> \<not> prefix ''/'' key \<and> no_parent key"

lemma confined_inside: "dir \<noteq> [] \<Longrightarrow> confined_key key \<Longrightarrow> inside dir (path_join dir key)"
  by (auto simp: inside_def confined_key_def path_join_def strip_prefix_def prefix_def)

lemma secret_dir_nonempty: "secret_dir n g c \<noteq> []"
  by (auto simp: secret_dir_def get_emptydir_path_def path_join_def)

text \<open>C32: A secret never touches the file system before its tmpfs is mounted and closed to everybody but its owner:
  in any world and however the run ends, every file written holds the value of an item of the named
  secret, under the item's key joined to the directory, after the mount and the mode 0700 have succeeded in this
  order. The file is inside that directory if the key is relative and has no parent component; it is outside its
  control if the key is an absolute path, which is then the file that is written.\<close>
theorem secret_files_confined:
  assumes ref: "parse_secret_ref (sec_ref sr) = Inr (n, v)"
    and run: "materialize_secret env ks sr g c h = (r, h @ u @ (File (WriteFile f x), y) # w)"
  shows "has_in_order (secret_dir_ready (secret_dir n g c)) u \<and>
     (\<exists>d item. load_secret ks n v = Inr d \<and> item \<in> set (sk_items d) \<and> x = si_value item \<and>
        f = path_join (secret_dir n g c) (si_key item) \<and>
        (confined_key (si_key item) \<longrightarrow> inside (secret_dir n g c) f) \<and>
        (prefix ''/'' (si_key item) \<longrightarrow> f = si_key item))"
proof
  let ?dir = "secret_dir n g c"
  let ?rest = "\<lambda>p. io_bind (io_lift (load_secret ks n v)) (\<lambda>d.
     io_seq (io_each (materialize_item env p) (sk_items d)) (io_return p))"
  have eq: "materialize_secret env ks sr g c = io_bind (create_tmpfs_for_secret env (''secret-'' @ n) g c) ?rest"
    unfolding materialize_secret_def ref by (simp add: io_bind_def io_lift_def fun_eq_iff)
  have "requires is_file_write (\<lambda>_. has_in_order (secret_dir_ready ?dir @ [])) (materialize_secret env ks sr g c)"
    unfolding eq secret_dir_def
  proof (rule ordered_bind [OF _ must_tmpfs_secret _ ordered_nil])
    show "emits (\<lambda>e. \<not> is_file_write e) (create_tmpfs_for_secret env (''secret-'' @ n) g c)"
      by (intro emits_intros) (simp_all add: is_file_write_def)
    show "emits (\<lambda>_. True) (?rest p)" for p
      unfolding materialize_item_def Let_def by (intro emits_intros; simp)
  qed
  from requiresD [OF this run] show "has_in_order (secret_dir_ready ?dir) u" by (simp add: is_file_write_def)
  let ?P = "\<lambda>e. \<forall>f x. fst e = File (WriteFile f x) \<longrightarrow> (\<exists>d item. load_secret ks n v = Inr d \<and> item \<in> set (sk_items d) \<and>
        f = path_join ?dir (si_key item) \<and> x = si_value item)"
  have "emits ?P (?rest ?dir)"
    unfolding materialize_item_def Let_def
    by (intro emits_intros emits_each_mem) auto
  moreover have "emits ?P (create_tmpfs_for_secret env (''secret-'' @ n) g c)" by (intro emits_intros) simp_all
  moreover have "materialize_secret env ks sr g c = io_bind (create_tmpfs_for_secret env (''secret-'' @ n) g c) (\<lambda>_. ?rest ?dir)"
    unfolding eq secret_dir_def by (rule bind_value) (rule tmpfs_secret_path)
  ultimately have "emits ?P (materialize_secret env ks sr g c)" by (simp add: emits_bind)
  from emitsD [OF this run] obtain d item where "load_secret ks n v = Inr d" "item \<in> set (sk_items d)"
    "x = si_value item" and f: "f = path_join ?dir (si_key item)" by auto
  moreover have "confined_key (si_key item) \<longrightarrow> inside ?dir f" using confined_inside [OF secret_dir_nonempty] f by simp
  moreover have "prefix ''/'' (si_key item) \<longrightarrow> f = si_key item" by (simp add: f path_join_def)
  ultimately show "\<exists>d item. load_secret ks n v = Inr d \<and> item \<in> set (sk_items d) \<and> x = si_value item \<and>
        f = path_join ?dir (si_key item) \<and> (confined_key (si_key item) \<longrightarrow> inside ?dir f) \<and>
        (prefix ''/'' (si_key item) \<longrightarrow> f = si_key item)" by blast
qed

text \<open>When a secret is materialised, the result is its directory, and every item has been written and then
  closed with mode 0400, in the order of the secret, after the directory was mounted and closed.\<close>
theorem secret_files_locked:
  assumes "materialize_secret env ks sr g c h = (Inr p, h')"
  shows "\<exists>n v d t. parse_secret_ref (sec_ref sr) = Inr (n, v) \<and> load_secret ks n v = Inr d \<and> p = secret_dir n g c \<and>
     h' = h @ t \<and> has_in_order (secret_dir_ready p @ concat (map (item_steps p) (sk_items d))) t"
proof -
  from assms obtain n v d h1 where ref: "parse_secret_ref (sec_ref sr) = Inr (n, v)"
    and 1: "create_tmpfs_for_secret env (''secret-'' @ n) g c h = (Inr p, h1)" and d: "load_secret ks n v = Inr d"
    and 2: "io_each (materialize_item env p) (sk_items d) h1 = (Inr (), h')"
    by (auto simp: materialize_secret_def io_bind_ok io_seq_ok)
  from 1 have p: "p = secret_dir n g c"
    by (auto simp: create_tmpfs_for_secret_def secret_dir_def Let_def io_seq_ok)
  from mustD [OF must_tmpfs_secret 1] obtain t1 where "h1 = h @ t1" "has_in_order (secret_dir_ready p) t1"
    by (auto simp: p secret_dir_def)
  moreover from mustD [OF must_each [OF must_item] 2] obtain t2 where
    "h' = h1 @ t2" "has_in_order (concat (map (item_steps p) (sk_items d))) t2" by blast
  ultimately show ?thesis using ref d p has_in_order_append by (intro exI [of _ n] exI [of _ v] exI [of _ d] exI [of _ "t1 @ t2"]) auto
qed

section \<open>Detaching\<close>

lemma secret_files_locked_path:
  "materialize_secret env ks sr g c h = (Inr p, h') \<Longrightarrow>
     \<exists>n v. parse_secret_ref (sec_ref sr) = Inr (n, v) \<and> p = secret_dir n g c"
  by (auto simp: materialize_secret_def io_bind_ok io_seq_ok create_tmpfs_for_secret_def secret_dir_def Let_def)

lemma cleanup_removes:
  "emits (\<lambda>e. \<forall>q. fst e = File (RemoveDirAll q) \<longrightarrow> q = get_emptydir_path v g c) (cleanup_emptydir env v g c)"
  unfolding cleanup_emptydir_def unmount_if_mounted_def Let_def
  by (intro emits_intros) (auto intro!: emits_intros split: prod.splits bool.splits)

text \<open>C33: Detaching a volume removes nothing but the directory that attaching it returned, and never a host path or a
  named volume, in any two worlds.\<close>
theorem detach_removes_attached:
  assumes "attach_volume env ks spec g c h = (Inr p, h1)"
    "detach_volume env' spec g c h2 = (r, h2 @ t)" "(File (RemoveDirAll q), y) \<in> set t"
  shows "q = p \<and> (\<forall>hp. vs_type spec \<noteq> HostPath hp) \<and> (\<forall>nv. vs_type spec \<noteq> NamedVolume nv)"
proof -
  have clean: "q = get_emptydir_path v g c" if "cleanup_emptydir env' v g c h2 = (r, h2 @ t)" for v
    using emitsD [OF cleanup_removes that] assms(3) by auto
  show ?thesis
  proof (cases "vs_type spec")
    case (EmptyDir ed)
    with assms clean show ?thesis
      by (auto simp: attach_volume_def detach_volume_def create_emptydir_def Let_def io_seq_ok)
  next
    case (Config items)
    with assms clean show ?thesis
      by (auto simp: attach_volume_def detach_volume_def create_tmpfs_for_config_def Let_def io_seq_ok io_bind_ok)
  next
    case (Secret sr)
    with assms(1) have "materialize_secret env ks sr g c h = (Inr p, h1)" by (simp add: attach_volume_def)
    from secret_files_locked_path [OF this] obtain n v where
      "parse_secret_ref (sec_ref sr) = Inr (n, v)" "p = secret_dir n g c" by blast
    with Secret assms(2) clean show ?thesis
      by (auto simp: detach_volume_def cleanup_secret_def io_bind_def io_lift_def secret_dir_def)
  qed (use assms(2,3) in \<open>auto simp: detach_volume_def\<close>)
qed

section \<open>A secret, evaluated\<close>

fun volume_world :: env where
  "volume_world h (Pod (RunCommand c a)) = ROutput True []"
| "volume_world h (File (PathExists p)) = RBool True"
| "volume_world h c = ROk"

definition demo_secret :: secret_data where
  "demo_secret = \<lparr>sk_name = ''s'', sk_version = ''1'', sk_items = [\<lparr>si_key = ''k'', si_value = ''v''\<rparr>]\<rparr>"

definition demo_keystore :: keystore where
  "demo_keystore = ks_insert ''s@1'' demo_secret ks_new"

definition demo_ref :: secret_volume where
  "demo_ref = \<lparr>sec_ref = ''s@1''\<rparr>"

definition demo_secret_dir :: string where
  "demo_secret_dir = ''/var/lib/gl/state/g/c/vol_secret-s''"

lemma demo_ref_parts: "parse_secret_ref (sec_ref demo_ref) = Inr (''s'', ''1'')"
  by code_simp

lemma demo_dir: "secret_dir ''s'' ''g'' ''c'' = demo_secret_dir"
  by code_simp

lemma demo_load: "load_secret demo_keystore ''s'' ''1'' = Inr demo_secret"
  by code_simp

definition demo_size :: string where
  "demo_size = (case tmpfs_size (Some ''16Mi'') of Inr sz \<Rightarrow> sz | Inl _ \<Rightarrow> [])"

lemma secret_size: "tmpfs_size (Some ''16Mi'') = Inr demo_size"
proof -
  have "(''Mi'', 1024 ^ 2) \<in> set mem_units" "(16 :: nat) * 1024 ^ 2 < 2 ^ 64" by (simp_all add: mem_units_def)
  from memory_size_roundtrip [OF this] obtain b where "parse_memory_string (show_nat 16 @ ''Mi'') = Inr b" by blast
  moreover have "show_nat 16 = ''16''" by (simp add: show_nat.simps)
  ultimately show ?thesis by (simp add: demo_size_def tmpfs_size_def)
qed

lemma demo_tmpfs:
  "create_tmpfs_for_secret volume_world v g c h =
     (Inr (get_emptydir_path v g c),
      h @ [(File (CreateDirAll (get_emptydir_path v g c)), ROk),
           (Pod (RunCommand ''mount'' (tmpfs_args demo_size (get_emptydir_path v g c))),
              ROutput True []),
           (File (SetPermissions (get_emptydir_path v g c) 448), ROk)])"
  by (simp add: create_tmpfs_for_secret_def Let_def volume_mount_tmpfs_def secret_size io_seq_def io_bind_def io_lift_def
      sys_unit_def sys_output_def sys_def io_ctx_def io_return_def del: append_Cons)

definition demo_file :: string where
  "demo_file = ''/var/lib/gl/state/g/c/vol_secret-s/k''"

lemma demo_paths: "path_join demo_secret_dir ''k'' = demo_file" "path_parent demo_file = Some demo_secret_dir"
  by code_simp+

lemma demo_materialize:
  obtains u where "materialize_secret volume_world demo_keystore demo_ref ''g'' ''c'' [] =
    (Inr demo_secret_dir, [] @ u @ (File (WriteFile demo_file ''v''), ROk) # [(File (SetPermissions demo_file 256), ROk)])"
proof -
  have "get_emptydir_path (''secret-'' @ ''s'') ''g'' ''c'' = demo_secret_dir" using demo_dir by (simp only: secret_dir_def)
  then have "materialize_secret volume_world demo_keystore demo_ref ''g'' ''c'' [] =
    (Inr demo_secret_dir, ([(File (CreateDirAll demo_secret_dir), ROk),
           (Pod (RunCommand ''mount'' (tmpfs_args demo_size demo_secret_dir)),
              ROutput True []),
           (File (SetPermissions demo_secret_dir 448), ROk), (File (CreateDirAll demo_secret_dir), ROk)])
      @ (File (WriteFile demo_file ''v''), ROk) # [(File (SetPermissions demo_file 256), ROk)])"
    by (simp add: materialize_secret_def demo_ref_parts demo_tmpfs demo_load demo_secret_def materialize_item_def create_parent_def
        demo_paths Let_def io_seq_def io_bind_def io_lift_def sys_unit_def sys_def io_ctx_def io_return_def del: append_Cons)
  then show thesis using that by simp
qed

theorem secret_files_confined_witness:
  "\<exists>u. has_in_order (secret_dir_ready demo_secret_dir) u \<and> inside demo_secret_dir demo_file"
proof -
  obtain u where "materialize_secret volume_world demo_keystore demo_ref ''g'' ''c'' [] =
    (Inr demo_secret_dir, [] @ u @ (File (WriteFile demo_file ''v''), ROk) # [(File (SetPermissions demo_file 256), ROk)])"
    by (rule demo_materialize)
  moreover have "confined_key ''k''" by code_simp
  ultimately show ?thesis
    using secret_files_confined [OF demo_ref_parts] by (fastforce simp: demo_dir demo_load demo_secret_def)
qed

theorem secret_files_locked_witness:
  "\<exists>t. has_in_order (secret_dir_ready demo_secret_dir @ item_steps demo_secret_dir \<lparr>si_key = ''k'', si_value = ''v''\<rparr>) t"
proof -
  obtain u where "materialize_secret volume_world demo_keystore demo_ref ''g'' ''c'' [] =
    (Inr demo_secret_dir, [] @ u @ (File (WriteFile demo_file ''v''), ROk) # [(File (SetPermissions demo_file 256), ROk)])"
    by (rule demo_materialize)
  from secret_files_locked [OF this] obtain d t where "load_secret demo_keystore ''s'' ''1'' = Inr d"
    "has_in_order (secret_dir_ready demo_secret_dir @ concat (map (item_steps demo_secret_dir) (sk_items d))) t"
    using demo_ref_parts by auto
  then show ?thesis by (auto simp: demo_load demo_secret_def)
qed

definition demo_volume :: volume_spec where
  "demo_volume = \<lparr>vs_name = ''d'', vs_type = EmptyDir \<lparr>ed_medium = ''disk'', ed_size_limit = None\<rparr>\<rparr>"

theorem detach_removes_attached_witness:
  "fst (attach_volume volume_world demo_keystore demo_volume ''g'' ''c'' []) = Inr (get_emptydir_path ''d'' ''g'' ''c'')"
proof -
  let ?dir = "get_emptydir_path ''d'' ''g'' ''c''"
  have attach: "attach_volume volume_world demo_keystore demo_volume ''g'' ''c'' [] = (Inr ?dir, [(File (CreateDirAll ?dir), ROk)])"
    by (simp add: attach_volume_def demo_volume_def create_emptydir_def Let_def io_seq_def io_bind_def io_when_def
        sys_unit_def sys_def io_lift_def io_ctx_def io_return_def)
  have "detach_volume volume_world demo_volume ''g'' ''c'' [] =
      (Inr (), [] @ [(File (PathExists ?dir), RBool True), (Pod (RunCommand ''mountpoint'' [''-q'', ?dir]), ROutput True []),
         (Pod (RunCommand ''umount'' [?dir]), ROutput True []), (File (RemoveDirAll ?dir), ROk)])"
    by (simp add: detach_volume_def demo_volume_def cleanup_emptydir_def unmount_if_mounted_def Let_def io_seq_def io_bind_def
        sys_unit_def sys_def sys_exists_def sys_output_def io_attempt_def io_lift_def io_ctx_def io_return_def)
  from detach_removes_attached [OF attach this, of ?dir ROk] attach show ?thesis by simp
qed

end
