(* ===== verification/Dns.thy ===== *)
theory Dns
  imports Network Registry
begin

text \<open>
  Service names, \<open>src/isolate/dns.rs\<close>: the registry of fully qualified names, the entries in the
  hosts file and the resolver configuration. The server itself is a stub of the program that only
  sleeps; the registry is shared behind a mutex, so each operation is one step on its table.

  Lemmas: the registry as an interpretation of \<open>registry\<close>; exactly which services go away with a pod;
  when a hosts entry is written.
\<close>

section \<open>The registry\<close>

record service_registry =
  sv_services :: "(string, string) fmap"

definition sr_new :: service_registry where
  "sr_new = \<lparr>sv_services = fmempty\<rparr>"

definition sr_register :: "string \<Rightarrow> string \<Rightarrow> service_registry \<Rightarrow> service_registry" where
  "sr_register fqdn ip reg = reg\<lparr>sv_services := fmupd fqdn ip (sv_services reg)\<rparr>"

definition sr_unregister :: "string \<Rightarrow> service_registry \<Rightarrow> service_registry" where
  "sr_unregister fqdn reg = reg\<lparr>sv_services := fmdrop fqdn (sv_services reg)\<rparr>"

definition sr_lookup :: "service_registry \<Rightarrow> string \<Rightarrow> string option" where
  "sr_lookup reg fqdn = fmlookup (sv_services reg) fqdn"

text \<open>The list is in the order of the hash table; \<open>order\<close> lists its keys.\<close>

definition sr_list :: "string list \<Rightarrow> service_registry \<Rightarrow> (string \<times> string) list" where
  "sr_list order reg = map (\<lambda>k. (k, the (fmlookup (sv_services reg) k))) order"

record dns_server =
  ds_bind_addr :: string
  ds_registry :: service_registry
  ds_upstream_dns :: "string list"

definition dns_server_new :: "string \<Rightarrow> 16 word \<Rightarrow> string list \<Rightarrow> dns_server" where
  "dns_server_new bind_ip port upstream_dns =
     \<lparr>ds_bind_addr = bind_ip @ '':'' @ show_word port, ds_registry = sr_new, ds_upstream_dns = upstream_dns\<rparr>"

definition fqdn_of :: "string \<Rightarrow> string \<Rightarrow> string" where
  "fqdn_of service_name pod_name = service_name @ ''.'' @ pod_name @ ''.garden''"

definition register_service :: "string \<Rightarrow> string \<Rightarrow> string \<Rightarrow> service_registry \<Rightarrow> service_registry" where
  "register_service service_name pod_name ip reg = sr_register (fqdn_of service_name pod_name) ip reg"

definition pod_suffix :: "string \<Rightarrow> string" where
  "pod_suffix pod_name = ''.'' @ pod_name @ ''.garden''"

text \<open>The keys to remove are collected first, in the table's order.\<close>

definition unregister_pod_services :: "string list \<Rightarrow> string \<Rightarrow> service_registry \<Rightarrow> service_registry" where
  "unregister_pod_services order pod_name reg =
     fold sr_unregister (filter (suffix (pod_suffix pod_name)) order) reg"

definition is_order :: "string list \<Rightarrow> service_registry \<Rightarrow> bool" where
  "is_order order reg \<longleftrightarrow> distinct order \<and> set order = fset (fmdom (sv_services reg))"

section \<open>Files\<close>

definition hosts_path :: string where
  "hosts_path = ''/etc/hosts''"

definition read_or_default :: "env \<Rightarrow> string \<Rightarrow> (history, string) io" where
  "read_or_default env path =
     io_bind (io_attempt (sys_str env (File (ReadToString path)))) (\<lambda>r.
       io_return (case r of Inr s \<Rightarrow> s | Inl _ \<Rightarrow> []))"

definition write_hosts_entry :: "env \<Rightarrow> string \<Rightarrow> string \<Rightarrow> string \<Rightarrow> (history, unit) io" where
  "write_hosts_entry env service_name pod_name ip =
     (let fqdn = fqdn_of service_name pod_name in
     io_bind (read_or_default env hosts_path) (\<lambda>existing.
     if str_contains existing fqdn then io_return ()
     else
       let entry = ip @ '' '' @ fqdn @ [CHR 0x0A] in
       io_ctx (''Failed to write '' @ hosts_path)
         (sys_unit env (File (WriteFile hosts_path (existing @ entry))))))"

definition write_resolv_conf :: "env \<Rightarrow> string list \<Rightarrow> (history, unit) io" where
  "write_resolv_conf env dns_servers =
     io_ctx (''Failed to write '' @ resolv_conf)
       (sys_unit env (File (WriteFile resolv_conf (nameserver_lines dns_servers @ ''options ndots:5'' @ [CHR 0x0A]))))"

record dns_status =
  dn_listen_addr :: string
  dn_zone :: string
  dn_record_count :: nat

definition get_dns_status :: dns_status where
  "get_dns_status = \<lparr>dn_listen_addr = ''10.44.0.1:53'', dn_zone = ''garden'', dn_record_count = 0\<rparr>"

section \<open>The contract\<close>

interpretation sr: registry sr_new sr_lookup sr_register sr_unregister
  by unfold_locales (auto simp: sr_new_def sr_lookup_def sr_register_def sr_unregister_def)

lemma unregister_lookup:
  assumes "is_order order reg"
  shows "sr_lookup (unregister_pod_services order pod_name reg) k =
    (if suffix (pod_suffix pod_name) k then None else sr_lookup reg k)"
proof (cases "k \<in> set order")
  case False
  then have "sr_lookup reg k = None" using assms by (simp add: is_order_def sr_lookup_def fmdom_notD)
  then show ?thesis by (simp add: unregister_pod_services_def sr.get_dels)
qed (simp add: unregister_pod_services_def sr.get_dels)

lemma suffix_fqdn:
  assumes "CHR ''.'' \<notin> set pod" "CHR ''.'' \<notin> set pod'"
  shows "suffix (pod_suffix pod) (fqdn_of service pod') \<longleftrightarrow> pod = pod'"
proof
  assume "suffix (pod_suffix pod) (fqdn_of service pod')"
  then obtain z where "(service @ CHR ''.'' # pod') @ ''.garden'' = (z @ CHR ''.'' # pod) @ ''.garden''"
    by (auto simp: suffix_def pod_suffix_def fqdn_of_def)
  then have z: "service @ CHR ''.'' # pod' = z @ CHR ''.'' # pod" by (simp only: append_same_eq)
  have t: "takeWhile (\<lambda>c. c \<noteq> CHR ''.'') (rev (a @ CHR ''.'' # b)) = rev b" if "CHR ''.'' \<notin> set b" for a b
    using that by (auto simp: takeWhile_append)
  from arg_cong [OF z, of "\<lambda>x. takeWhile (\<lambda>c. c \<noteq> CHR ''.'') (rev x)"] t assms show "pod = pod'" by simp
next
  assume "pod = pod'"
  then show "suffix (pod_suffix pod) (fqdn_of service pod')"
    by (simp add: pod_suffix_def fqdn_of_def suffix_def)
qed

text \<open>C34: Tearing down a pod removes its services and no service of another pod, as long as no pod name
  contains a dot; a pod whose name ends in a dot and the name of the pod torn down loses its
  services as well.\<close>
theorem dns_pod_teardown:
  assumes "is_order order reg" "CHR ''.'' \<notin> set pod"
  shows "(CHR ''.'' \<notin> set pod' \<longrightarrow>
      sr_lookup (unregister_pod_services order pod reg) (fqdn_of service pod') =
      (if pod' = pod then None else sr_lookup reg (fqdn_of service pod'))) \<and>
    sr_lookup (unregister_pod_services order pod reg) (fqdn_of service (x @ ''.'' @ pod)) = None"
proof -
  have "suffix (pod_suffix pod) (fqdn_of service (x @ ''.'' @ pod))"
    by (simp add: pod_suffix_def fqdn_of_def suffix_def)
  then show ?thesis using unregister_lookup [OF assms(1)] suffix_fqdn [OF assms(2)] by auto
qed

theorem dns_pod_teardown_witness:
  "sr_lookup (unregister_pod_services [fqdn_of ''db'' ''x.web'', fqdn_of ''db'' ''app''] ''web''
     (register_service ''db'' ''app'' ''10.44.1.11'' (register_service ''db'' ''x.web'' ''10.44.1.10'' sr_new)))
     (fqdn_of ''db'' ''app'') = Some ''10.44.1.11''"
proof -
  let ?reg = "register_service ''db'' ''app'' ''10.44.1.11'' (register_service ''db'' ''x.web'' ''10.44.1.10'' sr_new)"
  have "is_order [fqdn_of ''db'' ''x.web'', fqdn_of ''db'' ''app''] ?reg"
    by (auto simp: is_order_def register_service_def sr_register_def sr_new_def fqdn_of_def)
  from dns_pod_teardown [OF this, of "''web''" "''app''" "''db''"] show ?thesis
    by (simp add: register_service_def sr.get_put)
qed

text \<open>What the hosts file gets: nothing if the name occurs in it anywhere, else one line more.\<close>

lemma hosts_entry_spec:
  assumes "env h (File (ReadToString hosts_path)) = RStr existing"
  shows "write_hosts_entry env service pod ip h =
    (if str_contains existing (fqdn_of service pod) then (Inr (), h @ [(File (ReadToString hosts_path), RStr existing)])
     else io_ctx (''Failed to write '' @ hosts_path) (sys_unit env (File (WriteFile hosts_path
            (existing @ ip @ '' '' @ fqdn_of service pod @ [CHR 0x0A]))))
            (h @ [(File (ReadToString hosts_path), RStr existing)]))"
  using assms
  by (simp add: write_hosts_entry_def read_or_default_def io_bind_def io_attempt_def sys_str_def sys_def
      io_lift_def io_return_def Let_def)

end
