(* ===== verification/Cli.thy ===== *)
theory Cli
  imports Runner Pod_Stop Oci Metrics Volumes Dns
begin

text \<open>
  The commands of \<open>gl\<close>, \<open>src/cli.rs\<close> and \<open>src/main.rs\<close>, one function per command and their dispatch.
  A command returns what it prints, unformatted; printing itself and the argument parser are outside. What the
  YAML, JSON and random libraries return are fields of \<open>externals\<close>. The key store and the content store live in
  the process, so every command starts with empty ones.

  Lemmas: no command changes anything before its manifest was read, parsed and accepted; what a run of a pod
  consists of, from the manifest to the exit code.
\<close>

record externals =
  ex_seed :: "string \<Rightarrow> seed result"
  ex_garden :: "string \<Rightarrow> garden result"
  ex_seed_json :: "seed \<Rightarrow> string result"
  ex_garden_json :: "garden \<Rightarrow> string result"
  ex_garden_yaml :: "garden \<Rightarrow> string result"
  ex_index :: "string \<Rightarrow> image_index result"
  ex_manifest :: "string \<Rightarrow> image_manifest result"
  ex_runtime :: runtime
  ex_uuid :: string

section \<open>Manifests\<close>

definition seed_from_file :: "env \<Rightarrow> externals \<Rightarrow> string \<Rightarrow> (history, seed) io" where
  "seed_from_file env ex path =
     io_bind (io_ctx (''Failed to read seed file: '' @ path) (sys_str env (File (ReadToString path)))) (\<lambda>contents.
       io_lift (with_ctx (''Failed to parse seed YAML: '' @ path) (ex_seed ex contents)))"

definition garden_from_file :: "env \<Rightarrow> externals \<Rightarrow> string \<Rightarrow> (history, garden) io" where
  "garden_from_file env ex path =
     io_bind (io_ctx (''Failed to read garden file: '' @ path) (sys_str env (File (ReadToString path)))) (\<lambda>contents.
       io_lift (with_ctx (''Failed to parse garden YAML: '' @ path) (ex_garden ex contents)))"

section \<open>Seeds\<close>

text \<open>\<open>process::exit\<close>: it does not return; the code is what the command leaves behind.\<close>

definition exit_with :: "env \<Rightarrow> int \<Rightarrow> (history, int) io" where
  "exit_with env code = io_bind (sys env (Pod (ExitProcess code))) (\<lambda>_. io_return code)"

definition cmd_inspect :: "env \<Rightarrow> externals \<Rightarrow> string \<Rightarrow> (history, string) io" where
  "cmd_inspect env ex file =
     io_bind (seed_from_file env ex file) (\<lambda>s.
     io_bind (seed_validate env s) (\<lambda>_.
       io_lift (ex_seed_json ex s)))"

definition cmd_prepare :: "env \<Rightarrow> externals \<Rightarrow> string \<Rightarrow> (history, unit) io" where
  "cmd_prepare env ex file =
     io_bind (seed_from_file env ex file) (\<lambda>s.
     io_bind (seed_validate env s) (\<lambda>_.
     io_bind (sys_exists env (rf_path (sd_rootfs s))) (\<lambda>present.
     if \<not> present then io_bail (''Rootfs path does not exist: '' @ rf_path (sd_rootfs s))
     else io_bind (sys_exists env ''/sys/fs/cgroup/cgroup.controllers'') (\<lambda>_. io_return ()))))"

definition cmd_run :: "nat \<Rightarrow> env \<Rightarrow> externals \<Rightarrow> string \<Rightarrow> string \<Rightarrow> (history, int) io" where
  "cmd_run fuel env ex file kind =
     io_bind (seed_from_file env ex file) (\<lambda>s.
     io_bind (seed_validate env s) (\<lambda>_.
     io_bind (io_lift (store_kind_from_str kind)) (\<lambda>_.
     io_bind (process_run fuel (ex_runtime ex) env s (ex_uuid ex)) (\<lambda>exit_code.
       exit_with env exit_code))))"

section \<open>Gardens\<close>

definition cmd_garden_inspect :: "env \<Rightarrow> externals \<Rightarrow> string \<Rightarrow> (history, string) io" where
  "cmd_garden_inspect env ex file =
     io_bind (garden_from_file env ex file) (\<lambda>g.
     io_bind (garden_validate env g) (\<lambda>_.
       io_lift (ex_garden_json ex g)))"

text \<open>A command that owns a supervisor: the state of the pod begins and ends with it.\<close>

definition with_pod :: "pod \<Rightarrow> 'a pod_io \<Rightarrow> (history, 'a) io" where
  "with_pod p m h = (case m (p, h) of (r, (p', h')) \<Rightarrow> (r, h'))"

text \<open>Started, left alone for five seconds, stopped with ten seconds of grace.\<close>

definition supervise_pod :: "nat \<Rightarrow> env \<Rightarrow> (garden \<Rightarrow> string result) \<Rightarrow> int pod_io" where
  "supervise_pod fuel env gyaml =
     io_seq (pod_start env gyaml)
     (io_bind (on_history (sys env (Pod (SleepMs 5000)))) (\<lambda>_.
     io_seq (stop_graceful fuel env (secs 10))
     (io_bind get_state (\<lambda>p. io_return (get_exit_code p)))))"

definition cmd_garden_run :: "nat \<Rightarrow> env \<Rightarrow> externals \<Rightarrow> string \<Rightarrow> string \<Rightarrow> (history, int) io" where
  "cmd_garden_run fuel env ex file kind =
     io_bind (garden_from_file env ex file) (\<lambda>g.
     io_bind (garden_validate env g) (\<lambda>_.
     io_bind (io_lift (store_kind_from_str kind)) (\<lambda>_.
     io_bind (io_lift (pod_new (ex_uuid ex) g)) (\<lambda>supervisor.
     io_bind (with_pod supervisor (supervise_pod fuel env (ex_garden_yaml ex))) (\<lambda>exit_code.
       exit_with env exit_code)))))"

text \<open>The samples it prints, per container; a collector that fails yields its error.\<close>

definition cmd_garden_stats :: "env \<Rightarrow> externals \<Rightarrow> string \<Rightarrow> (history, (string list + container_metrics) list) io" where
  "cmd_garden_stats env ex file =
     io_bind (garden_from_file env ex file) (\<lambda>g.
     io_bind (garden_validate env g) (\<lambda>_.
       io_collect (\<lambda>c. io_attempt (collect env (collector_new (sm_name (gd_meta g)) (ct_name c)))) (gd_containers g)))"

section \<open>Images, volumes, secrets and the network\<close>

definition with_cas :: "cas \<Rightarrow> (cas \<times> history, 'a) io \<Rightarrow> (history, 'a) io" where
  "with_cas c m h = (case m (c, h) of (r, (c', h')) \<Rightarrow> (r, h'))"

definition cmd_image_import :: "env \<Rightarrow> externals \<Rightarrow> string \<Rightarrow> string \<Rightarrow> (history, string) io" where
  "cmd_image_import env ex source store_path =
     io_bind (oci_new env store_path) (\<lambda>c.
       with_cas c (import_image env (ex_index ex) (ex_manifest ex) (ex_uuid ex) store_path source))"

text \<open>Entries that cannot be read are left out, and so is a directory that cannot be.\<close>

fun entry_names :: "dir_entry list \<Rightarrow> string list" where
  "entry_names [] = []"
| "entry_names (DirEntry name _ # es) = name # entry_names es"
| "entry_names (EntryTypeErr _ # es) = entry_names es"
| "entry_names (EntryErr _ # es) = entry_names es"

definition cmd_image_list :: "env \<Rightarrow> string \<Rightarrow> (history, string list option) io" where
  "cmd_image_list env store_path =
     io_bind (sys_exists env store_path) (\<lambda>present.
     if \<not> present then io_return None
     else
       io_bind (sys env (File (ReadDir store_path))) (\<lambda>r.
       io_return (Some (case as_dir r of Inr es \<Rightarrow> entry_names es | Inl _ \<Rightarrow> []))))"

definition cmd_volume_create :: "env \<Rightarrow> string \<Rightarrow> string option \<Rightarrow> (history, unit) io" where
  "cmd_volume_create env name size_limit =
     io_bind (ensure_named_volume env name size_limit) (\<lambda>_. io_return ())"

definition cmd_volume_list :: "env \<Rightarrow> (history, string list) io" where
  "cmd_volume_list env = list_named_volumes env"

definition cmd_volume_remove :: "env \<Rightarrow> string \<Rightarrow> (history, unit) io" where
  "cmd_volume_remove env name = delete_named_volume env name"

definition cmd_secret_create :: "string \<Rightarrow> string \<Rightarrow> string \<Rightarrow> (keystore, unit) io" where
  "cmd_secret_create name from_literal version =
     (let parts = splitn2 (CHR ''='') from_literal in
      if length parts \<noteq> 2 then io_bail ''Invalid literal format. Expected: key=value''
      else create_secret_from_literal name version [(parts ! 0, parts ! 1)])"

text \<open>The name, the version and the keys: values are not shown.\<close>

definition cmd_secret_get :: "string \<Rightarrow> string \<Rightarrow> (keystore, string \<times> string \<times> string list) io" where
  "cmd_secret_get name version ks =
     (case load_secret ks name version of
        Inr secret \<Rightarrow> (Inr (sk_name secret, sk_version secret, map si_key (sk_items secret)), ks)
      | Inl e \<Rightarrow> (Inl e, ks))"

definition cmd_secret_remove :: "string \<Rightarrow> string \<Rightarrow> (keystore, unit) io" where
  "cmd_secret_remove name version = delete_secret name version"

definition cmd_net_status :: "env \<Rightarrow> (history, (string list + bridge_info) \<times> ipam_stats \<times> dns_status) io" where
  "cmd_net_status env =
     io_bind (io_attempt (ensure_garden_bridge env)) (\<lambda>bridge.
     io_return (bridge, get_ipam_stats, get_dns_status))"

section \<open>The process\<close>

text \<open>The commands as the argument parser delivers them, defaults filled in. The metrics interval of a run is used by
  nothing.\<close>

datatype garden_commands =
    GardenInspect string
  | GardenRun string string u64
  | GardenStats string

datatype image_commands =
    ImageImport string string
  | ImageList string

datatype volume_commands =
    VolumeCreate string "string option"
  | VolumeList
  | VolumeRemove string

datatype secret_commands =
    SecretCreate string string string
  | SecretGet string string
  | SecretRemove string string

datatype net_commands = NetStatus

datatype gl_command =
    Inspect string
  | Prepare string
  | Run string string
  | Garden garden_commands
  | Image image_commands
  | Volume volume_commands
  | Secret secret_commands
  | Net net_commands

text \<open>The exit status: of \<open>process::exit\<close> the low eight bits, 0 for a command that returns, 1 for the error
  \<open>main\<close> returns, 101 for a panic; a process the kernel ended has none.\<close>

fun exit_status :: "int result \<Rightarrow> nat option" where
  "exit_status (Inr code) = Some (nat (code mod 256))"
| "exit_status (Inl (Err ms)) = Some 1"
| "exit_status (Inl (Panic m)) = Some 101"
| "exit_status (Inl Killed) = None"
| "exit_status (Inl NoFuel) = None"

definition silently :: "('s, 'a) io \<Rightarrow> ('s, int) io" where
  "silently m = io_bind m (\<lambda>_. io_return 0)"

definition with_keystore :: "(keystore, 'a) io \<Rightarrow> (history, 'a) io" where
  "with_keystore m h = (fst (m ks_new), h)"

fun cli_run :: "nat \<Rightarrow> env \<Rightarrow> externals \<Rightarrow> gl_command \<Rightarrow> (history, int) io" where
  "cli_run fuel env ex (Inspect file) = silently (cmd_inspect env ex file)"
| "cli_run fuel env ex (Prepare file) = silently (cmd_prepare env ex file)"
| "cli_run fuel env ex (Run file kind) = cmd_run fuel env ex file kind"
| "cli_run fuel env ex (Garden (GardenInspect file)) = silently (cmd_garden_inspect env ex file)"
| "cli_run fuel env ex (Garden (GardenRun file kind interval)) = cmd_garden_run fuel env ex file kind"
| "cli_run fuel env ex (Garden (GardenStats file)) = silently (cmd_garden_stats env ex file)"
| "cli_run fuel env ex (Image (ImageImport source store_path)) = silently (cmd_image_import env ex source store_path)"
| "cli_run fuel env ex (Image (ImageList store_path)) = silently (cmd_image_list env store_path)"
| "cli_run fuel env ex (Volume (VolumeCreate name size_limit)) = silently (cmd_volume_create env name size_limit)"
| "cli_run fuel env ex (Volume VolumeList) = silently (cmd_volume_list env)"
| "cli_run fuel env ex (Volume (VolumeRemove name)) = silently (cmd_volume_remove env name)"
| "cli_run fuel env ex (Secret (SecretCreate name literal version)) = silently (with_keystore (cmd_secret_create name literal version))"
| "cli_run fuel env ex (Secret (SecretGet name version)) = silently (with_keystore (cmd_secret_get name version))"
| "cli_run fuel env ex (Secret (SecretRemove name version)) = silently (with_keystore (cmd_secret_remove name version))"
| "cli_run fuel env ex (Net NetStatus) = silently (cmd_net_status env)"

definition gl_main :: "nat \<Rightarrow> env \<Rightarrow> externals \<Rightarrow> gl_command \<Rightarrow> history \<Rightarrow> nat option \<times> history" where
  "gl_main fuel env ex cmd h = (case cli_run fuel env ex cmd h of (r, h') \<Rightarrow> (exit_status r, h'))"

section \<open>Nothing happens before the manifest is accepted\<close>

fun manifest_file :: "gl_command \<Rightarrow> string option" where
  "manifest_file (Inspect file) = Some file"
| "manifest_file (Prepare file) = Some file"
| "manifest_file (Run file kind) = Some file"
| "manifest_file (Garden (GardenInspect file)) = Some file"
| "manifest_file (Garden (GardenRun file kind interval)) = Some file"
| "manifest_file (Garden (GardenStats file)) = Some file"
| "manifest_file _ = None"

definition good_seed :: "externals \<Rightarrow> string \<Rightarrow> bool" where
  "good_seed ex text \<longleftrightarrow> (case ex_seed ex text of Inr s \<Rightarrow> seed_ok s | Inl _ \<Rightarrow> False)"

definition good_garden :: "externals \<Rightarrow> string \<Rightarrow> bool" where
  "good_garden ex text \<longleftrightarrow> (case ex_garden ex text of Inr g \<Rightarrow> garden_ok g | Inl _ \<Rightarrow> False)"

fun accepts :: "externals \<Rightarrow> gl_command \<Rightarrow> string \<Rightarrow> bool" where
  "accepts ex (Inspect file) text = good_seed ex text"
| "accepts ex (Prepare file) text = good_seed ex text"
| "accepts ex (Run file kind) text = (good_seed ex text \<and> is_ok (store_kind_from_str kind))"
| "accepts ex (Garden (GardenInspect file)) text = good_garden ex text"
| "accepts ex (Garden (GardenRun file kind interval)) text = (good_garden ex text \<and> is_ok (store_kind_from_str kind))"
| "accepts ex (Garden (GardenStats file)) text = good_garden ex text"
| "accepts ex _ text = True"

text \<open>A text read from a file and put through a chain of checks, which only ask whether paths exist, before anything
  else is done.\<close>

definition gate :: "env \<Rightarrow> string \<Rightarrow> (string \<Rightarrow> bool) \<Rightarrow> (history, 'a) io \<Rightarrow> bool" where
  "gate env file good m \<longleftrightarrow> (\<forall>h r h'. m h = (r, h') \<longrightarrow>
     (\<exists>text. env h (File (ReadToString file)) = RStr text \<and> good text) \<or>
     \<not> is_ok r \<and> (\<exists>t. h' = h @ (File (ReadToString file), env h (File (ReadToString file))) # t \<and>
       list_all exists_check t))"

lemma sys_str_run:
  "sys_str env c h = (r, h') \<Longrightarrow> h' = h @ [(c, env h c)] \<and> (\<forall>s. r = Inr s \<longrightarrow> env h c = RStr s)"
  by (cases r) (auto simp: sys_str_ok, auto simp: sys_str_def io_bind_cases sys_def Let_def split: if_splits)

text \<open>A program that fails, having only asked whether paths exist.\<close>

definition refuses :: "(history, 'a) io \<Rightarrow> bool" where
  "refuses m \<longleftrightarrow> (\<forall>h r h'. m h = (r, h') \<longrightarrow> \<not> is_ok r \<and> (\<exists>t. h' = h @ t \<and> list_all exists_check t))"

lemma refuses_lift: "\<not> is_ok v \<Longrightarrow> refuses (io_bind (io_lift v) f)"
  by (cases v) (auto simp: refuses_def io_bind_def io_lift_def)

lemma refuses_checks: "checks m b \<Longrightarrow> (b \<Longrightarrow> \<forall>x. refuses (f x)) \<Longrightarrow> refuses (io_bind m f)"
  unfolding refuses_def
proof (intro allI impI)
  fix h r h'
  assume c: "checks m b" and f: "b \<Longrightarrow> \<forall>x h r h'. f x h = (r, h') \<longrightarrow> \<not> is_ok r \<and> (\<exists>t. h' = h @ t \<and> list_all exists_check t)"
    and run: "io_bind m f h = (r, h')"
  from run consider e where "m h = (Inl e, h')" "r = Inl e" | x h1 where "m h = (Inr x, h1)" "f x h1 = (r, h')"
    by (auto simp: io_bind_cases)
  then show "\<not> is_ok r \<and> (\<exists>t. h' = h @ t \<and> list_all exists_check t)"
  proof cases
    case 1
    then show ?thesis using checksD [OF c 1(1)] by (metis is_ok.simps(2))
  next
    case 2
    obtain t where t: "h1 = h @ t" "list_all exists_check t" "b" using checksD [OF c 2(1)] by (metis Inr_not_Inl old.unit.exhaust)
    with f [OF t(3)] 2(2) obtain t2 where "\<not> is_ok r" "h' = h1 @ t2" "list_all exists_check t2" by blast
    with t show ?thesis by auto
  qed
qed

lemma gate_read:
  assumes "\<And>text. \<not> good text \<Longrightarrow> refuses (f text)"
  shows "gate env file good (io_bind (io_ctx c (sys_str env (File (ReadToString file)))) f)"
  unfolding gate_def
proof (intro allI impI)
  fix h r h'
  let ?c = "File (ReadToString file)"
  assume run: "io_bind (io_ctx c (sys_str env ?c)) f h = (r, h')"
  let ?refused = "\<not> is_ok r \<and> (\<exists>t. h' = h @ (?c, env h ?c) # t \<and> list_all exists_check t)"
  obtain a where a: "sys_str env ?c h = (a, h @ [(?c, env h ?c)])" by (metis surj_pair sys_str_run)
  show "(\<exists>text. env h ?c = RStr text \<and> good text) \<or> ?refused"
  proof (cases a)
    case (Inl e)
    then have "is_ok (with_ctx c a) = False" by simp
    with Inl a run show ?thesis by (cases "with_ctx c a") (auto simp: io_bind_def io_ctx_def)
  next
    case (Inr contents)
    with a run have f: "f contents (h @ [(?c, env h ?c)]) = (r, h')" by (simp add: io_bind_def io_ctx_def)
    have "?refused" if "\<not> good contents"
      using assms [OF that, unfolded refuses_def] f by fastforce
    with Inr sys_str_run [OF a] show ?thesis by auto
  qed
qed

lemma refuses_parsed: "(\<And>x. v = Inr x \<Longrightarrow> refuses (k x)) \<Longrightarrow> refuses (io_bind (io_lift (with_ctx c v)) k)"
  using refuses_lift [of "with_ctx c v" k] by (cases v) (auto simp: io_bind_def io_lift_def is_ok_with_ctx)

lemma gate_seed:
  assumes "\<And>s u. \<not> b \<Longrightarrow> refuses (k s u)"
  shows "gate env file (\<lambda>text. good_seed ex text \<and> b) (io_bind (seed_from_file env ex file) (\<lambda>s.
     io_bind (seed_validate env s) (k s)))"
  unfolding seed_from_file_def io_bind_assoc
  by (intro gate_read refuses_parsed refuses_checks [OF seed_checks]) (use assms in \<open>auto simp: good_seed_def\<close>)

lemma gate_garden:
  assumes "\<And>s u. \<not> b \<Longrightarrow> refuses (k s u)"
  shows "gate env file (\<lambda>text. good_garden ex text \<and> b) (io_bind (garden_from_file env ex file) (\<lambda>s.
     io_bind (garden_validate env s) (k s)))"
  unfolding garden_from_file_def io_bind_assoc
  by (intro gate_read refuses_parsed refuses_checks [OF garden_checks]) (use assms in \<open>auto simp: good_garden_def\<close>)

lemma gate_silently: "gate env file good m \<Longrightarrow> gate env file good (silently m)"
  unfolding gate_def silently_def by (fastforce simp: io_bind_cases)

lemma gate_valid:
  "gate env file (good_seed ex) (io_bind (seed_from_file env ex file) (\<lambda>s. io_bind (seed_validate env s) (k s)))"
  "gate env file (good_garden ex) (io_bind (garden_from_file env ex file) (\<lambda>g. io_bind (garden_validate env g) (l g)))"
  using gate_seed [of True k] gate_garden [of True l] by simp_all

lemma gate_stored:
  "gate env file (\<lambda>text. good_seed ex text \<and> is_ok (store_kind_from_str kind)) (io_bind (seed_from_file env ex file)
     (\<lambda>s. io_bind (seed_validate env s) (\<lambda>u. io_bind (io_lift (store_kind_from_str kind)) (k s))))"
  "gate env file (\<lambda>text. good_garden ex text \<and> is_ok (store_kind_from_str kind)) (io_bind (garden_from_file env ex file)
     (\<lambda>g. io_bind (garden_validate env g) (\<lambda>u. io_bind (io_lift (store_kind_from_str kind)) (l g))))"
  by (rule gate_seed gate_garden; erule refuses_lift)+

lemma accepts_fun:
  "accepts ex (Inspect file) = good_seed ex" "accepts ex (Prepare file) = good_seed ex"
  "accepts ex (Run file kind) = (\<lambda>text. good_seed ex text \<and> is_ok (store_kind_from_str kind))"
  "accepts ex (Garden (GardenInspect file)) = good_garden ex" "accepts ex (Garden (GardenStats file)) = good_garden ex"
  "accepts ex (Garden (GardenRun file kind interval)) = (\<lambda>text. good_garden ex text \<and> is_ok (store_kind_from_str kind))"
  by (simp_all add: fun_eq_iff)

lemma gate_command: "manifest_file cmd = Some file \<Longrightarrow> gate env file (accepts ex cmd) (cli_run fuel env ex cmd)"
  by (cases cmd rule: manifest_file.cases)
     (simp_all add: accepts_fun cmd_inspect_def cmd_prepare_def cmd_run_def cmd_garden_inspect_def
      cmd_garden_run_def cmd_garden_stats_def gate_valid gate_stored gate_silently)

lemma gateD:
  "gate env file good m \<Longrightarrow> m h = (r, h') \<Longrightarrow> (\<exists>text. env h (File (ReadToString file)) = RStr text \<and> good text) \<or>
     \<not> is_ok r \<and> (\<exists>t. h' = h @ (File (ReadToString file), env h (File (ReadToString file))) # t \<and> list_all exists_check t)"
  unfolding gate_def by blast

text \<open>C12: A command that takes a manifest changes nothing unless the file can be read, parsed and passes every check of
  its kind, and the name of the store is known: otherwise it ends with an exit status other than 0, and all it has done
  is read that file and ask whether paths exist.\<close>
theorem manifest_gate:
  assumes "manifest_file cmd = Some file" "gl_main fuel env ex cmd h = (status, h')"
  shows "(\<exists>text. env h (File (ReadToString file)) = RStr text \<and> accepts ex cmd text) \<or>
     status \<noteq> Some 0 \<and> (\<exists>t. h' = h @ (File (ReadToString file), env h (File (ReadToString file))) # t \<and>
       list_all exists_check t)"
proof -
  obtain r where r: "cli_run fuel env ex cmd h = (r, h')" "status = exit_status r"
    using assms(2) by (auto simp: gl_main_def split: prod.splits)
  have "exit_status r \<noteq> Some 0" if "\<not> is_ok r"
    using that by (cases r rule: exit_status.cases) auto
  with gateD [OF gate_command [OF assms(1)] r(1)] show ?thesis unfolding r(2) by argo
qed

section \<open>A pod from its manifest to its exit code\<close>

definition running :: "handle \<Rightarrow> bool" where
  "running c \<longleftrightarrow> ch_state c = CRunning \<and> ch_pid c \<noteq> None"

lemma event_keeps: "pod_event env mk (p, h) = (r, (p', h')) \<Longrightarrow> p' = p"
  by (auto simp: pod_event_def io_bind_cases get_state_def)

lemma start_running:
  assumes "start_container env i (p, h) = (Inr u, (p', h'))" "i < length (pd_containers p)"
  shows "running (pd_containers p' ! i)"
  using assms by (auto simp: start_container_def io_seq_ok io_bind_ok set_container_def instant_now_def Let_def
      running_def dest!: event_keeps)

lemma start_all_running:
  assumes "io_each (start_container env) is (p, h) = (Inr u, (p', h'))"
    "\<forall>j < length (pd_containers p). j \<in> set is \<or> running (pd_containers p ! j)"
  shows "\<forall>c \<in> set (pd_containers p'). running c"
  using assms
proof (induction "is" arbitrary: p h)
  case Nil
  then show ?case by (auto simp: in_set_conv_nth)
next
  case (Cons i "is")
  obtain p1 h1 where 1: "start_container env i (p, h) = (Inr (), (p1, h1))"
      "io_each (start_container env) is (p1, h1) = (Inr u, (p', h'))"
    using Cons.prems(1) by (auto simp: io_seq_ok)
  have o: "only i (p, h) (p1, h1)" by (rule within_rel [OF only_start 1(1) _ only_rel])
  have "\<forall>j < length (pd_containers p1). j \<in> set is \<or> running (pd_containers p1 ! j)"
  proof (intro allI impI)
    fix j assume "j < length (pd_containers p1)"
    with o Cons.prems(2) start_running [OF 1(1)] show "j \<in> set is \<or> running (pd_containers p1 ! j)"
      by (cases "j = i") (auto simp: only_def)
  qed
  from Cons.IH [OF 1(2) this] show ?case .
qed

lemma started_running:
  assumes "pod_start env gyaml (p, h) = (Inr u, (p', h'))"
  shows "\<forall>c \<in> set (pd_containers p'). running c"
proof -
  from assms obtain p1 h1 where
    "io_each (start_container env) [0 ..< length (pd_containers p1)] (p1, h1) = (Inr u, (p', h'))"
    by (auto simp: pod_start_prelude io_seq_ok io_bind_ok get_state_def)
  then show ?thesis by (rule start_all_running) simp
qed

lemma with_pod_run: "with_pod p m h = (r, h') \<longleftrightarrow> (\<exists>p'. m (p, h) = (r, (p', h')))"
  by (cases "m (p, h)") (auto simp: with_pod_def)

lemma steps_grow: "pod_step\<^sup>*\<^sup>* s s' \<Longrightarrow> \<exists>t. snd s' = snd s @ t"
  by (induction rule: rtranclp_induct) (auto elim!: pod_step.cases)

lemma static_specs: "pod_static p' = pod_static p \<Longrightarrow> map ch_spec (pd_containers p') = map ch_spec (pd_containers p)"
proof -
  let ?f = "\<lambda>c. (ch_name c, ch_spec c, ch_cgroup_path c)"
  assume "pod_static p' = pod_static p"
  then have "map (fst \<circ> snd) (map ?f (pd_containers p')) = map (fst \<circ> snd) (map ?f (pd_containers p))"
    by (simp add: pod_static_def)
  then show ?thesis by (simp add: comp_def)
qed

text \<open>C11: What \<open>gl garden run\<close> has done when it ends with an exit code: the manifest was read, parsed and accepted, a
  pod of exactly its containers was started, every one of them running with a pid, then, after five
  seconds in which nothing else happens, each was sent \<open>SIGTERM\<close>, whoever still held a pid at the end
  \<open>SIGKILL\<close>, and the run was recorded as exited with 0; the exit code is that of the first container.\<close>
theorem garden_run_outcome:
  assumes "cmd_garden_run fuel env ex file kind h = (Inr code, h')"
  shows "\<exists>text g c p p1 u p2 t y z ts v.
    env h (File (ReadToString file)) = RStr text \<and> ex_garden ex text = Inr g \<and> garden_ok g \<and>
    garden_validate env g (h @ [(File (ReadToString file), RStr text)]) =
      (Inr (), h @ [(File (ReadToString file), RStr text)] @ c) \<and> list_all exists_check c \<and>
    pod_new (ex_uuid ex) g = Inr p \<and>
    pod_start env (ex_garden_yaml ex) (p, h @ [(File (ReadToString file), RStr text)] @ c) =
      (Inr (), (p1, h @ [(File (ReadToString file), RStr text)] @ c @ u)) \<and>
    map ch_spec (pd_containers p1) = gd_containers g \<and> (\<forall>c \<in> set (pd_containers p1). running c) \<and>
    h' = h @ [(File (ReadToString file), RStr text)] @ c @ u @ [(Pod (SleepMs 5000), y)] @ t @ [(Pod (ExitProcess code), z)] \<and>
    signalled sigterm (pd_containers p1) t \<and> signalled sigkill (pd_containers p2) t \<and>
    list_all2 older (pd_containers p1) (pd_containers p2) \<and> code = get_exit_code p2 \<and>
    t = v @ [(StoreCall (UpdateRunStatus (ex_uuid ex) (RunExited 0) (Some ts)), ROk)]"
proof -
  let ?read = "\<lambda>text. (File (ReadToString file), RStr text)"
  obtain content g p p2 h2 h0 z where
    m: "env h (File (ReadToString file)) = RStr content" "ex_garden ex content = Inr g"
      "garden_validate env g (h @ [?read content]) = (Inr (), h0)" "pod_new (ex_uuid ex) g = Inr p"
    and s: "supervise_pod fuel env (ex_garden_yaml ex) (p, h0) = (Inr code, (p2, h2))"
    and h': "h' = h2 @ [(Pod (ExitProcess code), z)]"
    using assms unfolding cmd_garden_run_def garden_from_file_def exit_with_def
    by (auto simp: io_bind_ok with_pod_run sys_str_ok sys_ok)
  obtain c where c: "h0 = (h @ [?read content]) @ c" "list_all exists_check c" "garden_ok g"
    using checksD [OF garden_checks m(3)] by (metis Inr_not_Inl)
  obtain p1 h1 y where st: "pod_start env (ex_garden_yaml ex) (p, h0) = (Inr (), (p1, h1))"
    and stop: "stop_graceful fuel env (secs 10) (p1, h1 @ [(Pod (SleepMs 5000), y)]) = (Inr (), (p2, h2))"
    and code: "code = get_exit_code p2"
    using s unfolding supervise_pod_def by (auto simp: io_seq_ok io_bind_ok get_state_def sys_ok)
  note steps = start_steps [OF pod_new_fresh [OF m(4)] st]
  obtain u where u: "h1 = h0 @ u" using steps_grow [OF steps] by auto
  have p1: "ages p p1" using pod_steps_age [OF steps] pod_new_ok [OF m(4)] by simp
  then have age: "ages p1 p2" using pod_steps_age [OF withinD [OF within_stop_graceful stop]] by (simp add: ages_def)
  have specs: "map ch_spec (pd_containers p1) = gd_containers g" "pd_run_id p1 = ex_uuid ex"
    using static_specs [of p1 p] p1 m(4) by (auto simp: ages_def pod_new_def handle_new_def comp_def pod_static_def)
  obtain t where t: "h2 = (h1 @ [(Pod (SleepMs 5000), y)]) @ t" "signalled sigterm (pd_containers p1) t"
    "signalled sigkill (pd_containers p2) t" "closed_as_success p1 t"
    using stop_graceful_done [OF stop] by auto
  obtain v ts where v: "t = v @ [(StoreCall (UpdateRunStatus (ex_uuid ex) (RunExited 0) (Some ts)), ROk)]"
    using t(4) specs(2) unfolding closed_as_success_def by auto
  have "garden_validate env g (h @ [?read content]) = (Inr (), h @ [?read content] @ c)"
    "pod_start env (ex_garden_yaml ex) (p, h @ [?read content] @ c) = (Inr (), (p1, h @ [?read content] @ c @ u))"
    "h' = h @ [?read content] @ c @ u @ [(Pod (SleepMs 5000), y)] @ t @ [(Pod (ExitProcess code), z)]"
    using m(3) st h' c(1) u t(1) by simp_all
  with m(1,2,4) c(2,3) specs(1) started_running [OF st] t(2,3) age code v show ?thesis
    unfolding ages_def by blast
qed

section \<open>What a process keeps\<close>

lemma splitn2_parts: "length (splitn2 c s) = (if c \<in> set s then 2 else 1)"
  by (simp add: splitn2_def split_first_def)

text \<open>No secret outlives the command that creates it: creating one succeeds for every text with an equals sign,
  yet reading or removing any secret afterwards ends with status 1, and none of the three calls anything.\<close>
theorem secrets_not_kept:
  "gl_main fuel env ex (Secret (SecretCreate name literal version)) h = (Some (if CHR ''='' \<in> set literal then 0 else 1), h) \<and>
   gl_main fuel env ex (Secret (SecretGet name' version')) h = (Some 1, h) \<and>
   gl_main fuel env ex (Secret (SecretRemove name' version')) h = (Some 1, h)"
proof -
  have none: "ks_get ks_new k = None" for k by (simp add: ks_get_def ks_new_def)
  have create: "fst (cmd_secret_create name literal version ks_new) =
      (if CHR ''='' \<in> set literal then Inr () else bail ''Invalid literal format. Expected: key=value'')"
    by (simp add: cmd_secret_create_def splitn2_parts Let_def create_secret_from_literal_def store_secret_def
        io_bail_def io_lift_def)
  have "fst (cmd_secret_get name' version' ks_new) = bail (''Secret not found: '' @ secret_key name' version')"
    "fst (cmd_secret_remove name' version' ks_new) = bail (''Secret not found: '' @ secret_key name' version')"
    by (simp_all add: cmd_secret_get_def cmd_secret_remove_def load_secret_def delete_secret_def none Let_def bail_def)
  with create show ?thesis
    by (simp add: gl_main_def silently_def with_keystore_def io_bind_def io_return_def bail_def)
qed

end
