(* ===== verification/Cli_Scenario.thy ===== *)
theory Cli_Scenario
  imports Cli Pod_Scenario
begin

text \<open>
  The commands on one world: the pod of \<open>Pod_Scenario\<close> whose manifest can be read from any file, and externals
  that parse it. The witnesses of the properties of the command line are instances on it.
\<close>

fun cli_world :: env where
  "cli_world h (File (ReadToString path)) = RStr ''garden''"
| "cli_world h (Pod InstantNow) = RInt 0"
| "cli_world h c = pod_world h c"

definition addressed_garden :: garden where
  "addressed_garden = demo_garden\<lparr>gd_net := (gd_net demo_garden)\<lparr>gn_ip := Some ''10.44.7.7/16''\<rparr>\<rparr>"

definition demo_externals :: externals where
  "demo_externals =
     \<lparr>ex_seed = (\<lambda>_. bail ''missing field''), ex_garden = (\<lambda>_. Inr addressed_garden), ex_seed_json = (\<lambda>_. Inr []),
      ex_garden_json = (\<lambda>_. Inr []), ex_garden_yaml = demo_yaml, ex_index = (\<lambda>_. bail []),
      ex_manifest = (\<lambda>_. bail []),
      ex_runtime = \<lparr>rt_compile = (\<lambda>_. Inr ()), rt_enc = (\<lambda>_. []), rt_dec = (\<lambda>_. Inl []), rt_yaml = (\<lambda>_. Inr [])\<rparr>,
      ex_uuid = ''run''\<rparr>"

theorem manifest_gate_witness:
  "fst (gl_main 3 cli_world demo_externals (Run ''seed.yaml'' ''mem'') []) \<noteq> Some 0 \<and>
   (\<exists>t. snd (gl_main 3 cli_world demo_externals (Run ''seed.yaml'' ''mem'') []) =
      (File (ReadToString ''seed.yaml''), RStr ''garden'') # t \<and> list_all exists_check t)"
proof -
  have "\<not> good_seed demo_externals content" for content
    by (simp add: good_seed_def demo_externals_def bail_def)
  then show ?thesis
    using manifest_gate [of "Run ''seed.yaml'' ''mem''" "''seed.yaml''" 3 cli_world demo_externals "[]", OF _ prod.collapse [symmetric]]
    by auto
qed

definition addressed_pod :: pod where
  "addressed_pod = demo_pod\<lparr>pd_garden := addressed_garden\<rparr>"

definition manifest_read :: history where
  "manifest_read = [(File (ReadToString ''garden.yaml''), RStr ''garden''), (File (PathExists ''/r''), RBool True)]"

definition demo_started :: "unit result \<times> pod \<times> history" where
  "demo_started = pod_start cli_world demo_yaml (addressed_pod, manifest_read)"

definition demo_ended :: "unit result \<times> pod \<times> history" where
  "demo_ended = (case demo_started of (_, p, h) \<Rightarrow>
     stop_graceful 3 cli_world (secs 10) (p, h @ [(Pod (SleepMs 5000), ROk)]))"

lemma demo_started_ok: "fst demo_started = Inr ()"
  by code_simp

lemma demo_ended_ok: "case demo_ended of (r, p, h) \<Rightarrow> r = Inr () \<and> get_exit_code p = 3"
  by code_simp

lemma demo_ended_parts: "fst demo_ended = Inr ()" "get_exit_code (fst (snd demo_ended)) = 3"
  using demo_ended_ok by (simp_all add: case_prod_beta)

lemma demo_accepted:
  "garden_validate cli_world addressed_garden [(File (ReadToString ''garden.yaml''), RStr ''garden'')] = (Inr (), manifest_read)"
  "store_kind_from_str ''mem'' = Inr MemoryKind"
  "pod_new ''run'' addressed_garden = Inr addressed_pod"
  by code_simp+

lemma demo_garden_run:
  "cmd_garden_run 3 cli_world demo_externals ''garden.yaml'' ''mem'' [] =
     (Inr 3, snd (snd demo_ended) @ [(Pod (ExitProcess 3), ROk)])"
proof -
  obtain p1 h1 p2 h2 where s: "snd demo_started = (p1, h1)" "snd demo_ended = (p2, h2)" by (metis surj_pair)
  have started: "pod_start cli_world demo_yaml (addressed_pod, manifest_read) = (Inr (), (p1, h1))"
    using demo_started_ok s(1) by (simp add: demo_started_def prod_eq_iff)
  have ended: "stop_graceful 3 cli_world (secs 10) (p1, h1 @ [(Pod (SleepMs 5000), ROk)]) = (Inr (), (p2, h2))"
  proof -
    have "demo_started = (fst demo_started, (p1, h1))" using s(1) by (simp add: prod_eq_iff)
    then have "demo_ended = stop_graceful 3 cli_world (secs 10) (p1, h1 @ [(Pod (SleepMs 5000), ROk)])"
      by (metis demo_ended_def prod.case)
    moreover have "demo_ended = (Inr (), (p2, h2))" using demo_ended_parts s(2) by (simp add: prod_eq_iff)
    ultimately show ?thesis by simp
  qed
  have "supervise_pod 3 cli_world demo_yaml (addressed_pod, manifest_read) = (Inr 3, (p2, snd (snd demo_ended)))"
    using demo_ended_parts s by (simp add: supervise_pod_def io_seq_def io_bind_def started ended on_history_def sys_def
        get_state_def io_return_def)
  then show ?thesis
    by (simp add: cmd_garden_run_def garden_from_file_def sys_str_def sys_def io_simps demo_externals_def demo_accepted
        with_pod_def exit_with_def manifest_read_def Let_def)
qed

theorem garden_run_outcome_witness:
  "\<exists>ts u z. snd (snd demo_ended) @ [(Pod (ExitProcess 3), ROk)] =
     u @ [(StoreCall (UpdateRunStatus ''run'' (RunExited 0) (Some ts)), ROk), (Pod (ExitProcess 3), z)]"
proof -
  have id: "ex_uuid demo_externals = ''run''" by (simp add: demo_externals_def)
  show ?thesis using garden_run_outcome [OF demo_garden_run, unfolded id] by (elim exE conjE) simp
qed

end
