(* ===== verification/Pacts.thy ===== *)
theory Pacts
  imports Rust_Str Registry
begin

text \<open>
  Named security policies, \<open>src/store/pacts.rs\<close>: a table from \<open>name@version\<close> to a policy, filled with two
  defaults, where a name alone means version 1.

  Lemmas: the table is an interpretation of \<open>lookup_table\<close>; what a lookup finds after any registrations.
\<close>

record syscall_rule =
  sy_names :: "string list"
  sy_action :: string

record seccomp_rules =
  sp_default_action :: string
  sp_syscalls :: "syscall_rule list"

record pact =
  pt_name :: string
  pt_version :: string
  pt_seccomp_profile :: "seccomp_rules option"
  pt_drop_caps :: "string list"
  pt_readonly_paths :: "string list"
  pt_masked_paths :: "string list"

record pact_store =
  ps_pacts :: "(string, pact) fmap"

definition ps_empty :: pact_store where
  "ps_empty = \<lparr>ps_pacts = fmempty\<rparr>"

definition ps_insert :: "string \<Rightarrow> pact \<Rightarrow> pact_store \<Rightarrow> pact_store" where
  "ps_insert key p s = s\<lparr>ps_pacts := fmupd key p (ps_pacts s)\<rparr>"

definition ps_lookup :: "pact_store \<Rightarrow> string \<Rightarrow> pact option" where
  "ps_lookup s key = fmlookup (ps_pacts s) key"

definition pact_key :: "pact \<Rightarrow> string" where
  "pact_key p = pt_name p @ ''@'' @ pt_version p"

definition pact_register :: "pact \<Rightarrow> pact_store \<Rightarrow> pact_store" where
  "pact_register p s = ps_insert (pact_key p) p s"

definition minimal_pact :: pact where
  "minimal_pact =
     \<lparr>pt_name = ''minimal'', pt_version = ''1'', pt_seccomp_profile = None,
      pt_drop_caps = [''NET_ADMIN'', ''SYS_ADMIN'', ''SYS_MODULE''], pt_readonly_paths = [], pt_masked_paths = []\<rparr>"

definition web_api_pact :: pact where
  "web_api_pact =
     \<lparr>pt_name = ''web-api'', pt_version = ''1'',
      pt_seccomp_profile = Some
        \<lparr>sp_default_action = ''SCMP_ACT_ERRNO'',
         sp_syscalls =
           [\<lparr>sy_names = [''read'', ''write'', ''close''], sy_action = ''SCMP_ACT_ALLOW''\<rparr>,
            \<lparr>sy_names = [''socket'', ''bind'', ''listen''], sy_action = ''SCMP_ACT_ALLOW''\<rparr>]\<rparr>,
      pt_drop_caps = [''NET_ADMIN'', ''SYS_ADMIN'', ''SYS_MODULE'', ''SYS_PTRACE''],
      pt_readonly_paths = [''/etc''], pt_masked_paths = [''/proc/kcore'']\<rparr>"

definition load_defaults :: "pact_store \<Rightarrow> pact_store" where
  "load_defaults s = pact_register web_api_pact (pact_register minimal_pact s)"

definition pact_store_new :: pact_store where
  "pact_store_new = load_defaults ps_empty"

text \<open>A reference without a version means version 1.\<close>

definition spec_key :: "string \<Rightarrow> string" where
  "spec_key spec = (if CHR ''@'' \<in> set spec then spec else spec @ ''@1'')"

definition pact_get :: "pact_store \<Rightarrow> string \<Rightarrow> pact result" where
  "pact_get s spec = opt_ctx (''Pact not found: '' @ spec) (ps_lookup s (spec_key spec))"

definition pact_exists :: "pact_store \<Rightarrow> string \<Rightarrow> bool" where
  "pact_exists s spec \<longleftrightarrow> ps_lookup s (spec_key spec) \<noteq> None"

section \<open>The contract\<close>

interpretation pc: lookup_table ps_empty ps_lookup ps_insert
  by unfold_locales (auto simp: ps_empty_def ps_lookup_def ps_insert_def)

text \<open>After any registrations on a new store, a reference finds the policy last registered under its name and
  version (version 1 when it gives none), the two defaults under theirs unless replaced, and an error
  naming the reference otherwise; asking for existence agrees with asking for the policy.\<close>
theorem pact_lookup:
  "pact_get (fold pact_register ps pact_store_new) spec =
     opt_ctx (''Pact not found: '' @ spec)
       (map_of (rev (map (\<lambda>p. (pact_key p, p)) ([minimal_pact, web_api_pact] @ ps))) (spec_key spec)) \<and>
   (pact_exists (fold pact_register ps pact_store_new) spec \<longleftrightarrow>
      is_ok (pact_get (fold pact_register ps pact_store_new) spec))"
proof -
  let ?table = "map (\<lambda>p. (pact_key p, p)) ([minimal_pact, web_api_pact] @ ps)"
  have "fold pact_register ps pact_store_new = fold pact_register ([minimal_pact, web_api_pact] @ ps) ps_empty"
    by (simp add: pact_store_new_def load_defaults_def)
  also have "\<dots> = fold (\<lambda>(k, p). ps_insert k p) ?table ps_empty"
    by (simp only: fold_map comp_def pact_register_def [abs_def] prod.case)
  finally have l: "ps_lookup (fold pact_register ps pact_store_new) k = map_of (rev ?table) k" for k
    by (simp only: pc.get_puts_new)
  have "is_ok (opt_ctx c v) \<longleftrightarrow> v \<noteq> None" for c and v :: "pact option"
    by (cases v) simp_all
  then show ?thesis by (simp only: pact_get_def pact_exists_def l simp_thms)
qed

end
