(* ===== verification/Probes.thy ===== *)
theory Probes
  imports Mounts Namespaces Seccomp Ordering
begin

text \<open>
  The isolation probe \<open>src/bin/gl-isolation-evidence.rs\<close>: a short-lived program that performs one step of the
  isolation on itself and looks at the effect. It runs the code of \<open>Mounts\<close>, \<open>Namespaces\<close> and \<open>Seccomp\<close>. A probe
  returns what its PASS line shows. A call whose error number is looked at answers with the number, negated.

  Lemmas: what a passing probe of the root change has seen, in order, and that the filter probe passes on a kernel
  whose filters act as documented (\<open>documented_filters\<close> in \<open>Seccomp\<close>).
\<close>

definition probe_namespace_id :: "env \<Rightarrow> string \<Rightarrow> (history, string) io" where
  "probe_namespace_id env kind =
     io_ctx (''read '' @ kind @ '' namespace id'') (sys_str env (File (ReadLink (''/proc/thread-self/ns/'' @ kind))))"

section \<open>The root change\<close>

definition prepare_evidence :: "env \<Rightarrow> string \<Rightarrow> (history, unit) io" where
  "prepare_evidence env base =
     (let rootfs = path_join base ''rootfs'' in
      io_seq (io_ctx ''create evidence rootfs'' (sys_unit env (File (CreateDirAll rootfs))))
      (io_seq (io_ctx ''create host sentinel''
         (sys_unit env (File (WriteFile (path_join base ''host-only-sentinel'') ''host-only''))))
        (io_ctx ''create root sentinel'' (sys_unit env (File (WriteFile (path_join rootfs ''inside-root'') ''inside''))))))"

definition check_roots :: "env \<Rightarrow> string \<Rightarrow> (history, unit) io" where
  "check_roots env base =
     io_bind (sys_exists env ''/inside-root'') (\<lambda>root_sentinel_visible.
     io_bind (sys_exists env ''/.old_root'') (\<lambda>old_root_visible.
     io_bind (sys_exists env (path_join base ''host-only-sentinel'')) (\<lambda>host_sentinel_visible.
     if \<not> root_sentinel_visible then io_bail ''new root sentinel is not visible after pivot_root''
     else if old_root_visible then io_bail ''old root remains visible after pivot_root''
     else if host_sentinel_visible then io_bail ''host-only sentinel remains reachable after pivot_root''
     else io_return ())))"

definition pivot_root_probe :: "env \<Rightarrow> (history, string \<times> string) io" where
  "pivot_root_probe env =
     io_bind (probe_namespace_id env ''mnt'') (\<lambda>host_mnt_before.
     io_seq (io_ctx ''unshare mount namespace'' (sys_unit env (Probe UnshareMountNs)))
     (io_bind (probe_namespace_id env ''mnt'') (\<lambda>probe_mnt.
     if probe_mnt = host_mnt_before then io_bail ''mount namespace id did not change after unshare''
     else
       io_seq (io_ctx ''make evidence mount namespace private''
         (sys_unit env (Mnt (Mount None ''/'' None [''MS_REC'', ''MS_PRIVATE'']))))
       (io_bind (sys_id env (Task GetPid)) (\<lambda>pid.
       let base = ''/tmp/gl-isolation-evidence-'' @ show_int pid in
       io_seq (prepare_evidence env base)
       (io_seq (io_ctx ''pivot_root evidence transition'' (pivot_root_to env (path_join base ''rootfs'')))
       (io_seq (check_roots env base)
         (io_return (host_mnt_before, probe_mnt)))))))))"

section \<open>The filter\<close>

definition prctl_get :: "env \<Rightarrow> probe_call \<Rightarrow> string \<Rightarrow> (history, int) io" where
  "prctl_get env c name =
     io_bind (sys env (Probe c)) (\<lambda>r.
     case r of RInt i \<Rightarrow> if i < 0 then io_bail (name @ '' failed: '' @ os_error r) else io_return i
     | _ \<Rightarrow> io_bail (name @ '' failed: '' @ os_error r))"

definition prctl_get_no_new_privs :: "env \<Rightarrow> (history, int) io" where
  "prctl_get_no_new_privs env = prctl_get env PrGetNoNewPrivs ''PR_GET_NO_NEW_PRIVS''"

definition prctl_get_seccomp :: "env \<Rightarrow> (history, int) io" where
  "prctl_get_seccomp env = prctl_get env PrGetSeccomp ''PR_GET_SECCOMP''"

definition seccomp_probe :: "(bpf_program \<Rightarrow> unit result) \<Rightarrow> env \<Rightarrow> (history, int \<times> int \<times> int) io" where
  "seccomp_probe compile env =
     io_bind (prctl_get_no_new_privs env) (\<lambda>nnp_before.
     io_seq (io_ctx ''set no_new_privs'' (set_no_new_privs env))
     (io_bind (prctl_get_no_new_privs env) (\<lambda>nnp_after.
     if nnp_before \<noteq> 0 \<or> nnp_after \<noteq> 1 then
       io_bail (''unexpected no_new_privs transition: before='' @ show_int nnp_before @ '' after='' @ show_int nnp_after)
     else
       io_seq (io_ctx ''install minimal seccomp filter'' (apply_seccomp compile env ''minimal''))
       (io_bind (prctl_get_seccomp env) (\<lambda>seccomp_mode.
       if seccomp_mode \<noteq> 2 then io_bail (''expected seccomp filter mode 2, got '' @ show_int seccomp_mode)
       else
         io_bind (sys_id env (Probe SocketInet)) (\<lambda>fd.
         if 0 \<le> fd then
           io_bind (sys env (Probe (CloseFd fd))) (\<lambda>_.
             io_bail ''socket unexpectedly succeeded under minimal seccomp profile'')
         else if - fd \<noteq> eperm then io_bail (''socket denial returned Some('' @ show_int (- fd) @ ''), expected EPERM'')
         else io_return (nnp_before, nnp_after, seccomp_mode)))))))"

definition evidence_main :: "(bpf_program \<Rightarrow> unit result) \<Rightarrow> env \<Rightarrow> string option \<Rightarrow> (history, unit) io" where
  "evidence_main compile env mode =
     io_bind (io_lift (opt_ctx ''usage: gl-isolation-evidence <pivot-root|seccomp>'' mode)) (\<lambda>m.
     if m = ''pivot-root'' then io_bind (pivot_root_probe env) (\<lambda>_. io_return ())
     else if m = ''seccomp'' then io_bind (seccomp_probe compile env) (\<lambda>_. io_return ())
     else io_bail (''unknown evidence probe mode: '' @ m))"

section \<open>A documented kernel\<close>

text \<open>
  What \<open>prctl\<close>(2) and \<open>seccomp\<close>(2) say of a task that started with neither \<open>no_new_privs\<close> nor a filter: its filters
  act on every call as documented, and as long as they let \<open>prctl\<close> through, \<open>no_new_privs\<close> can be set and it and the
  seccomp mode can be asked for. Nothing is said of any other call.
\<close>

fun is_installed :: "call \<times> reply \<Rightarrow> bool" where
  "is_installed (InstallFilter l a, ROk) = True"
| "is_installed e = False"

definition documented_kernel :: "env \<Rightarrow> bool" where
  "documented_kernel env \<longleftrightarrow> documented_filters env \<and> (\<forall>h. action_on h ''prctl'' = None \<longrightarrow>
     env h (Task SetNoNewPrivs) = ROk \<and>
     env h (Probe PrGetNoNewPrivs) = RInt (if (Task SetNoNewPrivs, ROk) \<in> set h then 1 else 0) \<and>
     env h (Probe PrGetSeccomp) = RInt (if list_ex is_installed h then 2 else 0))"

text \<open>The kernel takes this program as the first filter of a task with \<open>no_new_privs\<close>.\<close>

definition takes_filter :: "env \<Rightarrow> bpf_program \<Rightarrow> bool" where
  "takes_filter env p \<longleftrightarrow> (\<forall>h. (Task SetNoNewPrivs, ROk) \<in> set h \<longrightarrow> \<not> list_ex is_installed h \<longrightarrow>
     env h (InstallFilter (bpf_allowed p) (bpf_otherwise p)) = ROk)"

lemma action_unfiltered: "\<not> list_ex is_installed h \<Longrightarrow> action_on h name = None"
proof -
  assume "\<not> list_ex is_installed h"
  moreover have "omits name act e \<Longrightarrow> is_installed e" for act e
    by (cases "(name, act, e)" rule: omits.cases) auto
  ultimately show ?thesis by (auto simp: action_on_def list_ex_iff)
qed

lemma action_after_first:
  "\<not> list_ex is_installed h \<Longrightarrow> action_on (h @ [(InstallFilter l a, ROk)]) name = (if name \<in> set l then None else Some a)"
  using action_unfiltered [of h name] by (cases a) (auto simp: action_on_def split: if_splits)

lemma action_other: "\<not> is_installed e \<Longrightarrow> action_on (h @ [e]) name = action_on h name"
proof -
  assume "\<not> is_installed e"
  then have "\<not> omits name act e" for act by (cases "(name, act, e)" rule: omits.cases) auto
  then show ?thesis by (simp add: action_on_def)
qed

section \<open>Properties\<close>

lemma prctl_run:
  "env h (Probe c) = RInt i \<Longrightarrow> 0 \<le> i \<Longrightarrow> prctl_get env c name h = (Inr i, h @ [(Probe c, RInt i)])"
  by (simp add: prctl_get_def io_bind_def sys_def Let_def io_return_def)

text \<open>C37: On a kernel that behaves as documented, in a task that has neither set \<open>no_new_privs\<close> nor installed a filter,
  the filter probe passes, provided the filter can be compiled and is one the kernel takes: it sees
  \<open>no_new_privs\<close> go from 0 to 1 and mode 2, since the minimal profile lets \<open>prctl\<close> through, and it sees \<open>socket\<close>
  refused with \<open>EPERM\<close>, since that profile omits \<open>socket\<close> and answers an error rather than killing.\<close>
theorem seccomp_probe_passes:
  assumes "documented_kernel env" "build_minimal compile = Inr p" "takes_filter env p"
    and "\<not> list_ex is_installed h" "(Task SetNoNewPrivs, ROk) \<notin> set h"
  shows "fst (seccomp_probe compile env h) = Inr (0, 1, 2)"
proof -
  let ?filter = "(InstallFilter (bpf_allowed p) (bpf_otherwise p), ROk)"
  let ?get = "\<lambda>i. (Probe PrGetNoNewPrivs, RInt i)"
  let ?h2 = "(h @ [?get 0]) @ [(Task SetNoNewPrivs, ROk)]"
  let ?h4 = "(?h2 @ [?get 1]) @ [?filter]"
  have p: "p = \<lparr>bpf_allowed = minimal_profile_syscalls, bpf_otherwise = ErrnoEPERM\<rparr>"
    and built: "build_profile compile ''minimal'' = Inr p"
    using assms(2) by (auto simp: build_minimal_def build_allow_list_def build_profile_def Let_def)
  have names: "''prctl'' \<in> set minimal_profile_syscalls" "''socket'' \<notin> set minimal_profile_syscalls"
    by (simp_all add: minimal_profile_syscalls_def)
  have fresh: "\<not> list_ex is_installed (h @ [?get 0])" "\<not> list_ex is_installed ?h2" "\<not> list_ex is_installed (?h2 @ [?get 1])"
    using assms(4) by simp_all
  have act: "action_on ?h4 ''prctl'' = None" "action_on (?h4 @ [(Probe PrGetSeccomp, RInt 2)]) ''socket'' = Some ErrnoEPERM"
    using names by (simp_all only: action_other is_installed.simps not_False_eq_True action_after_first [OF fresh(3)]) (simp_all add: p)
  note k = conjunct2 [OF assms(1) [unfolded documented_kernel_def], rule_format]
  note none = action_unfiltered [OF assms(4)] action_unfiltered [OF fresh(1)] action_unfiltered [OF fresh(2)]
  have socket: "env (?h4 @ [(Probe PrGetSeccomp, RInt 2)]) (Probe SocketInet) = RInt (- eperm)"
    using assms(1) act(2) unfolding documented_kernel_def documented_filters_def by (metis denied.simps(1) syscall_of.simps(8))
  have "env h (Probe PrGetNoNewPrivs) = RInt 0" "env (h @ [?get 0]) (Task SetNoNewPrivs) = ROk"
    "env ?h2 (Probe PrGetNoNewPrivs) = RInt 1"
    "env (?h2 @ [?get 1]) (InstallFilter (bpf_allowed p) (bpf_otherwise p)) = ROk"
    "env ?h4 (Probe PrGetSeccomp) = RInt 2"
    using k [OF none(1)] k [OF none(2)] k [OF none(3)] k [OF act(1)] assms(5) fresh(3)
      assms(3) [unfolded takes_filter_def, rule_format, of "?h2 @ [?get 1]"] by (simp_all del: append_assoc)
  then show ?thesis using socket
    by (simp add: seccomp_probe_def prctl_get_no_new_privs_def prctl_get_seccomp_def prctl_run io_bind_def io_seq_def
        io_ctx_def set_no_new_privs_def sys_or_bail_def sys_unit_def sys_id_def sys_def apply_seccomp_def
        built io_lift_def io_return_def eperm_def Let_def del: append_assoc)
qed

text \<open>What a passing probe of the root change has seen after the new mount namespace.\<close>

definition root_change_seen :: "string \<Rightarrow> (call \<times> reply \<Rightarrow> bool) list" where
  "root_change_seen base =
     [\<lambda>e. e = (File (WriteFile (path_join base ''host-only-sentinel'') ''host-only''), ROk),
      \<lambda>e. e = (Mnt (PivotRoot (path_join base ''rootfs'') (path_join (path_join base ''rootfs'') ''.old_root'')), ROk),
      \<lambda>e. fst e = File (PathExists ''/inside-root'') \<and> as_bool (snd e),
      \<lambda>e. fst e = File (PathExists ''/.old_root'') \<and> \<not> as_bool (snd e),
      \<lambda>e. fst e = File (PathExists (path_join base ''host-only-sentinel'')) \<and> \<not> as_bool (snd e)]"

lemma must_prepare: "must [\<lambda>e. e = (File (WriteFile (path_join base ''host-only-sentinel'') ''host-only''), ROk)] (prepare_evidence env base)"
  by (simp add: must_def prepare_evidence_def Let_def io_seq_ok sys_unit_ok del: path_join_relative)

lemma must_pivot_call: "must [\<lambda>e. e = (Mnt (PivotRoot r (path_join r ''.old_root'')), ROk)] (pivot_root_to env r)"
  by (rule must_one [OF must_pivot]) (simp add: root_changed_def)

lemma must_check:
  "must [\<lambda>e. fst e = File (PathExists ''/inside-root'') \<and> as_bool (snd e),
      \<lambda>e. fst e = File (PathExists ''/.old_root'') \<and> \<not> as_bool (snd e),
      \<lambda>e. fst e = File (PathExists (path_join base ''host-only-sentinel'')) \<and> \<not> as_bool (snd e)] (check_roots env base)"
  by (auto simp: must_def check_roots_def io_bind_ok sys_exists_def sys_ok simp del: path_join_relative split: if_splits)

lemma must_root_change:
  "must (root_change_seen base) (io_seq (prepare_evidence env base)
     (io_seq (io_ctx c (pivot_root_to env (path_join base ''rootfs''))) (io_seq (check_roots env base) (io_return x))))"
  using must_seq [OF must_prepare must_seq [OF must_ctx [OF must_pivot_call] must_seq [OF must_check must_emits [OF emits_return]]]]
  by (simp add: root_change_seen_def)

lemma new_namespace_run:
  assumes "io_bind (probe_namespace_id env ''mnt'') (\<lambda>a.
     io_seq (io_ctx c (sys_unit env (Probe UnshareMountNs)))
     (io_bind (probe_namespace_id env ''mnt'') (\<lambda>b.
     if b = a then io_bail m
     else io_seq (io_ctx d (sys_unit env (Mnt (Mount None ''/'' None [''MS_REC'', ''MS_PRIVATE'']))))
       (io_bind (sys_id env (Task GetPid)) (f a b))))) h = (Inr x, h')"
  shows "\<exists>a b p. a \<noteq> b \<and> f a b (reply_id p) (h @
     [(File (ReadLink ''/proc/thread-self/ns/mnt''), RStr a), (Probe UnshareMountNs, ROk),
      (File (ReadLink ''/proc/thread-self/ns/mnt''), RStr b),
      (Mnt (Mount None ''/'' None [''MS_REC'', ''MS_PRIVATE'']), ROk), (Task GetPid, p)]) = (Inr x, h')"
proof -
  let ?link = "File (ReadLink ''/proc/thread-self/ns/mnt'')" and ?mount = "Mnt (Mount None ''/'' None [''MS_REC'', ''MS_PRIVATE''])"
  have link: "h1 = h0 @ [(?link, RStr s)]" if "probe_namespace_id env ''mnt'' h0 = (Inr s, h1)" for s h0 h1
    using that by (simp add: probe_namespace_id_def sys_str_ok)
  have unit: "h1 = h0 @ [(k, ROk)]" if "io_ctx l (sys_unit env k) h0 = (Inr u, h1)" for l k u h0 h1
    using that by (simp add: sys_unit_ok)
  have pid: "\<exists>p. i = reply_id p \<and> h1 = h0 @ [(Task GetPid, p)]" if "sys_id env (Task GetPid) h0 = (Inr i, h1)" for i h0 h1
    using that by (auto simp: sys_id_def io_bind_ok sys_ok)
  from assms obtain a h1 u h2 b h3 where 1: "probe_namespace_id env ''mnt'' h = (Inr a, h1)"
    "io_ctx c (sys_unit env (Probe UnshareMountNs)) h1 = (Inr u, h2)" "probe_namespace_id env ''mnt'' h2 = (Inr b, h3)"
    and 2: "(if b = a then io_bail m else io_seq (io_ctx d (sys_unit env ?mount)) (io_bind (sys_id env (Task GetPid)) (f a b))) h3
      = (Inr x, h')"
    unfolding io_bind_ok io_seq_ok by metis
  from 2 have "a \<noteq> b" by auto
  then have "io_seq (io_ctx d (sys_unit env ?mount)) (io_bind (sys_id env (Task GetPid)) (f a b)) h3 = (Inr x, h')"
    using 2 by (simp only: if_not_P not_sym)
  then obtain v h4 i h5 where 3: "io_ctx d (sys_unit env ?mount) h3 = (Inr v, h4)"
    "sys_id env (Task GetPid) h4 = (Inr i, h5)" "f a b i h5 = (Inr x, h')"
    unfolding io_bind_ok io_seq_ok by metis
  from pid [OF 3(2)] obtain p where "i = reply_id p" "h5 = h4 @ [(Task GetPid, p)]" by blast
  with link [OF 1(1)] unit [OF 1(2)] link [OF 1(3)] unit [OF 3(1)] 3(3) \<open>a \<noteq> b\<close> show ?thesis by auto
qed

text \<open>C26: A passing probe of the root change has seen the identity of its mount namespace change, made its mounts private
  before the root change, and after it found the new root's sentinel and neither the old root nor the
  host's sentinel, all in the directory named after its own pid.\<close>
theorem pivot_probe_evidence:
  assumes "pivot_root_probe env h = (Inr (before, after), h')"
  shows "before \<noteq> after \<and> (\<exists>p t. h' = (h @
     [(File (ReadLink ''/proc/thread-self/ns/mnt''), RStr before), (Probe UnshareMountNs, ROk),
      (File (ReadLink ''/proc/thread-self/ns/mnt''), RStr after),
      (Mnt (Mount None ''/'' None [''MS_REC'', ''MS_PRIVATE'']), ROk), (Task GetPid, p)]) @ t \<and>
     has_in_order (root_change_seen (''/tmp/gl-isolation-evidence-'' @ show_int (reply_id p))) t)"
proof -
  obtain a b p where "a \<noteq> b" and t: "io_seq (prepare_evidence env (''/tmp/gl-isolation-evidence-'' @ show_int (reply_id p)))
      (io_seq (io_ctx ''pivot_root evidence transition''
         (pivot_root_to env (path_join (''/tmp/gl-isolation-evidence-'' @ show_int (reply_id p)) ''rootfs'')))
      (io_seq (check_roots env (''/tmp/gl-isolation-evidence-'' @ show_int (reply_id p))) (io_return (a, b))))
      (h @ [(File (ReadLink ''/proc/thread-self/ns/mnt''), RStr a), (Probe UnshareMountNs, ROk),
        (File (ReadLink ''/proc/thread-self/ns/mnt''), RStr b),
        (Mnt (Mount None ''/'' None [''MS_REC'', ''MS_PRIVATE'']), ROk), (Task GetPid, p)]) = (Inr (before, after), h')"
    using new_namespace_run [OF assms [unfolded pivot_root_probe_def Let_def]] by blast
  then have "a = before" "b = after" by (auto simp: io_seq_ok)
  with mustD [OF must_root_change t] \<open>a \<noteq> b\<close> show ?thesis by fastforce
qed

section \<open>A kernel on which both probes pass\<close>

fun unfiltered_kernel :: env where
  "unfiltered_kernel h (Probe PrGetNoNewPrivs) = RInt (if (Task SetNoNewPrivs, ROk) \<in> set h then 1 else 0)"
| "unfiltered_kernel h (Probe PrGetSeccomp) = RInt (if list_ex is_installed h then 2 else 0)"
| "unfiltered_kernel h (Probe SocketInet) = RInt 3"
| "unfiltered_kernel h (File (ReadLink p)) =
     RStr (if (Probe UnshareMountNs, ROk) \<in> set h then ''mnt:[2]'' else ''mnt:[1]'')"
| "unfiltered_kernel h (File (PathExists p)) = RBool (p \<noteq> ''/.old_root'' \<and> \<not> suffix ''host-only-sentinel'' p)"
| "unfiltered_kernel h (Task GetPid) = RInt 7"
| "unfiltered_kernel h c = ROk"

definition probe_kernel :: env where
  "probe_kernel = filtered unfiltered_kernel"

theorem seccomp_probe_passes_witness: "fst (seccomp_probe (\<lambda>_. Inr ()) probe_kernel []) = Inr (0, 1, 2)"
proof -
  let ?p = "\<lparr>bpf_allowed = minimal_profile_syscalls, bpf_otherwise = ErrnoEPERM\<rparr>"
  have "documented_kernel probe_kernel"
    unfolding documented_kernel_def probe_kernel_def by (simp add: filtered_documented) (simp add: filtered_def)
  moreover have "build_minimal (\<lambda>_. Inr ()) = Inr ?p" by (simp add: build_minimal_def build_allow_list_def Let_def)
  moreover have "takes_filter probe_kernel ?p" by (simp add: takes_filter_def probe_kernel_def filtered_def)
  ultimately show ?thesis by (rule seccomp_probe_passes) simp_all
qed

theorem pivot_probe_evidence_witness:
  "\<exists>u t. snd (pivot_root_probe probe_kernel []) = u @ t \<and> (\<exists>base. has_in_order (root_change_seen base) t)"
proof -
  have "fst (pivot_root_probe probe_kernel []) = Inr (''mnt:[1]'', ''mnt:[2]'')" by code_simp
  then have run: "pivot_root_probe probe_kernel [] = (Inr (''mnt:[1]'', ''mnt:[2]''), snd (pivot_root_probe probe_kernel []))"
    by (simp add: prod_eq_iff)
  from pivot_probe_evidence [OF run] show ?thesis by (elim conjE exE) (intro exI conjI)
qed

end
