(* ===== verification/Spec2Isabelle.thy ===== *)
theory Spec2Isabelle
  imports Scenario Stores Pod_Scenario Cli_Scenario Pacts Probes
begin

text \<open>
  GardenLiminal runs isolated workloads on Linux. \<open>gl run\<close> takes one manifest (a Seed), clones a child into fresh
  namespaces, isolates it, executes its program and records what happened in an audit store; \<open>gl garden run\<close>
  takes a manifest of several containers (a Garden) and supervises them as a pod on one network namespace. This
  library models the crate under \<open>src/\<close> (paths below are relative to \<open>src/src/\<close> of the repository snapshot) and
  proves what makes it correct.

  \<^bold>\<open>How the program is written here.\<close>
  Every effectful Rust function is a function \<open>('s, 'a) io = 's \<Rightarrow> 'a result \<times> 's\<close> from a state to a result and a
  state (\<open>Prelude\<close>). A result is an \<open>anyhow\<close> error chain, a panic, the death of the task in a call, or a value;
  \<open>NoFuel\<close> marks a loop cut off. Most state is the \<open>history\<close> of the calls made to the kernel, the file
  system, the store, the clock and the other end of the control socket, with their replies (\<open>Sys\<close>). An \<open>env\<close>
  answers a call from the history so far and is arbitrary: it stands for every kernel, every store, every timing
  and every other process, so a theorem without a hypothesis on \<open>env\<close> holds against a hostile world. State the
  program keeps itself (the pod, the outbox, the registries) is a record beside the history.

  \<^bold>\<open>The theories.\<close>
  \<^item> \<open>Prelude\<close>, \<open>Steps\<close>, \<open>Ordering\<close>, \<open>Registry\<close>: the vocabulary. \<open>emits P m\<close>: every call of \<open>m\<close> satisfies
    \<open>P\<close>; \<open>must ks m\<close>: a success has made the calls \<open>ks\<close> in order; \<open>within R m\<close>: a run is a sequence of
    \<open>R\<close>-steps; \<open>requires\<close>: what precedes a call. \<open>Registry\<close> holds the locales \<open>lookup_table\<close> and \<open>registry\<close>,
    the contract of every table of the program.
  \<^item> \<open>Rust_Str\<close>, \<open>Rust_Path\<close>: the operations of \<open>str\<close>, of integer parsing and of \<open>Path\<close> that are used.
  \<^item> \<open>Seed_Manifest\<close> (\<open>seed.rs\<close>), \<open>Events\<close> (\<open>events.rs\<close>): manifests, defaults, memory sizes, validation;
    events, their builders and their JSON.
  \<^item> \<open>Store_Iface\<close>, \<open>Stores\<close> (\<open>store/mod.rs\<close>), \<open>Store_Memory\<close> (\<open>store/mem.rs\<close>), \<open>Store_Liminal\<close>
    (\<open>store/liminal.rs\<close>): the store trait with its contract \<open>audit_store\<close> (accepted calls are journalled in
    order, refused ones leave no trace), interpreted on both stores; \<open>Pacts\<close> (\<open>store/pacts.rs\<close>), \<open>Oci\<close>
    (\<open>store/oci.rs\<close>, \<open>store/cas.rs\<close>): named policies; images and the content store.
  \<^item> \<open>Caps\<close>, \<open>Seccomp\<close>, \<open>Namespaces\<close>, \<open>Cgroups\<close>, \<open>Mounts\<close>, \<open>Overlay\<close>, \<open>Ipam\<close>, \<open>Network\<close>, \<open>Dns\<close>: the files
    of \<open>isolate/\<close> (\<open>ns.rs\<close> and \<open>idmap.rs\<close> in \<open>Namespaces\<close>, \<open>net.rs\<close> in \<open>Ipam\<close> and \<open>Network\<close>); \<open>Isolation\<close>
    (\<open>isolate/mod.rs\<close>) composes them into what a workload does to itself; \<open>Probes\<close> is
    \<open>bin/gl-isolation-evidence.rs\<close>.
  \<^item> \<open>Child\<close>, \<open>Runner\<close>, \<open>Runner_Safety\<close>, \<open>Runner_Release\<close> (\<open>process.rs\<close>): the cloned task up to \<open>execv\<close>; the
    supervisor \<open>ProcessRunner::run\<close> with its clone guard; the properties of both.
  \<^item> \<open>Pod\<close>, \<open>Pod_Machine\<close>, \<open>Pod_Exits\<close>, \<open>Pod_Stop\<close>, \<open>Pod_Child\<close> (\<open>pod.rs\<close>): the operations of the pod
    supervisor; its state machine; reaping and the end of a graceful stop; who is signalled; a container's own
    task.
  \<^item> \<open>Keystore\<close> (\<open>secrets/keystore.rs\<close>), \<open>Volumes\<close> (\<open>volumes/*.rs\<close>, the files of \<open>secrets/mod.rs\<close>), \<open>Metrics\<close>
    (\<open>metrics.rs\<close>), \<open>Cli\<close> (\<open>cli.rs\<close>, \<open>main.rs\<close>): secrets, volumes, metrics, and the commands that put all
    components together.
  \<^item> \<open>Scenario\<close>, \<open>Pod_Scenario\<close>, \<open>Cli_Scenario\<close>: concrete worlds on which whole runs are evaluated in the kernel;
    the witnesses of the properties above them.

  \<^bold>\<open>How the parts interact.\<close>
  \<open>gl_main\<close> reads and validates a manifest before anything else (\<open>manifest_gate\<close>; the validators ask whether
  paths exist, in the history like every call). \<open>process_run\<close> writes the run to
  the store, prepares the control group, clones \<open>child_exec_static\<close>, maps its identity, releases it with one byte
  and reads its notices from the control socket; the child sees only its end of the socket, so the two sides are
  modelled as two programs against arbitrary worlds and tied by the notices. \<open>pod_start\<close> sets up the network
  (\<open>Network\<close>, \<open>Ipam\<close>) and the root file systems (\<open>Overlay\<close>), forks every container (\<open>container_child_exec\<close>), and
  \<open>pod_tick\<close>, \<open>stop_graceful\<close> and \<open>stop_all\<close> drive the handles. Store calls appear in the history as
  \<open>StoreCall\<close>; \<open>backed_by\<close> ties them to an implementation. Components that keep a table reach it through the
  laws of \<open>lookup_table\<close> and \<open>registry\<close>, proved once and interpreted on the DNS registry, the key store, the
  metrics registry, the pact store and the content store.

  \<^bold>\<open>What is shown.\<close>
  \<^item> Isolation and execution: \<open>execv\<close> is reached only by a child that has done every step of \<open>isolation_steps\<close>, from
    the identity check and the host name to the filter (\<open>exec_only_isolated\<close>, \<open>isolation_ordering\<close>,
    \<open>isolation_complete\<close>, \<open>child_boot_protocol\<close>); a capability policy that succeeds was verified, one that
    cannot succeed changes nothing, and a documented kernel makes it succeed. What the probes of the release
    have seen when they pass (\<open>seccomp_probe_passes\<close>, under the documented semantics of filters at the end of
    \<open>Seccomp\<close>, and \<open>pivot_probe_evidence\<close>).
  \<^item> Supervision: a run is recorded as exited only on complete evidence, released only after the host's set-up,
    and leaves no child behind however it ends.
  \<^item> Pods: every operation refines the step relation \<open>pod_step\<close>; its invariant; what reaping records; who is
    signalled and when; that a graceful stop returns; that nothing is ever restarted; what a whole
    \<open>gl garden run\<close> amounts to.
  \<^item> Stores: acceptance, order and capacity of the audit trail, draining, and the state it cannot leave.
  \<^item> Data: validation characterised exactly, the memory parser against its table of units, events and their JSON
    types and round trip, address allocation, CPU weights, secrets, metrics text, images.

  \<^bold>\<open>Fuel and bounds.\<close>
  Loops that end only when the world lets them (\<open>reap_exited_processes\<close>, \<open>await_exit\<close>, \<open>evidence_loop\<close>, the waits
  of the clone guard, the entries of a layer) take fuel and end in \<open>NoFuel\<close> without it. Safety theorems hold for
  every fuel. That enough fuel exists is proved where it matters: \<open>stop_graceful_returns\<close> needs one unit per wait
  that still reports something and one per 100 ms of the timeout; \<open>extract_layer_entries\<close> one per entry; the worlds
  of the scenarios finish within theirs. Machine integers keep their width (\<open>u64\<close> limits and weights, \<open>u8\<close>
  cursors, \<open>u32\<close> capabilities); lengths and times are unbounded.

  \<^bold>\<open>Not modelled.\<close>
  Parsers and printers of YAML, JSON, tar, times and the command line (arguments of the definitions, or calls; an
  event is generic in the type of its time, and in a run the clock answers with the printed time); what is
  printed or traced; the \<open>Drop\<close> of values without effect; mutexes, because every table operation is one step; the
  stub thread of the DNS server, which sleeps for ever; interleaving of the metrics threads. Strings are byte
  strings that hold UTF-8, file names included. The tests and benchmarks are not part of the model.

  \<^bold>\<open>What modelling showed.\<close>
  Several theorems state behaviour the program does not want: a full outbox is never drained
  (\<open>liminal_full_outbox_is_permanent\<close>), the strict profile kills its workload before \<open>execv\<close>
  (\<open>strict_profile_never_execs\<close>), containers are never restarted (\<open>never_restarted\<close>), released addresses never
  come back (\<open>ipam_sequence\<close>), a memory limit of 2 to the 64 is read as 0 (\<open>memory_size_wraps\<close>), every pod gets
  the same address (\<open>pod_ip_collision\<close>), an image imported from an archive refers to removed files
  (\<open>import_tar_dangling\<close>), an item of a secret whose key is an absolute path is written there
  (\<open>secret_files_confined\<close>), and no secret survives its command (\<open>secrets_not_kept\<close>).
\<close>

end
